(* ===== verification/Prelude.thy ===== *)
theory Prelude
  imports Main "HOL-Library.Multiset" "HOL-Library.Word"
begin

text \<open>
  The vocabulary every component shares: the Go types the program passes around, the error
  values it returns, the two ways a Go function ends (it returns, or it panics), and the
  generic lemmas on lists, options and sums that the component theories use.

  A Go string and a Go byte slice are both sequences of bytes and the program converts freely
  between them, so both are \<open>string\<close> (a list of 8-bit \<open>char\<close>s).  A \<open>peer.ID\<close> of libp2p is a
  Go string holding a raw multihash; its base58 form is produced by libp2p (\<open>Pretty\<close>,
  \<open>String\<close>) and read by \<open>peer.Decode\<close>.  Both are parameters of the definitions that use them.
\<close>

type_synonym bytes = string
type_synonym peer_id = string
type_synonym session_id = string

text \<open>\<open>tss.PartyID\<close> of tss-lib, as the program builds and reads it.\<close>

record party_id =
  party_Id :: string
  party_Moniker :: string
  party_Key :: nat
  party_Index :: int

text \<open>
  Error values.  The coordinator switches on the dynamic type of an error, so the types it
  looks for are constructors of their own; every other error is its text (\<open>Errorf\<close>) or an
  error some library made (\<open>ExternError\<close>).
\<close>

datatype go_error =
    Errorf string
  | CommunicationError peer_id go_error
  | CoordinatorError peer_id
  | SubsetError peer_id
  | TssError "party_id list"
  | ExternError string

type_synonym 'a result = "go_error + 'a"

text \<open>A call that may panic.\<close>

datatype 'a outcome = Returns 'a | Panics string

text \<open>The values of Go's \<open>int\<close> and \<open>int64\<close>, which the model keeps as integers.\<close>

definition int64 :: "int \<Rightarrow> bool" where
  "int64 n \<longleftrightarrow> - (2 ^ 63) \<le> n \<and> n < 2 ^ 63"

subsection \<open>Collections of simplification rules\<close>

named_theorems go_std \<open>facts about the modelled parts of the Go standard library\<close>
named_theorems peer_simps \<open>facts about peer lists and their order\<close>
named_theorems sub_simps \<open>facts about subscriptions\<close>
named_theorems tss_simps \<open>facts about the tss processes\<close>

subsection \<open>Lists\<close>

lemma mset_eq_set: "mset xs = mset ys \<Longrightarrow> set xs = set ys"
  by (metis set_mset_mset)

lemma mset_eq_distinct: "mset xs = mset ys \<Longrightarrow> distinct xs = distinct ys"
  by (metis mset_eq_imp_distinct_iff)

lemma distinct_snoc: "distinct (xs @ [x]) \<longleftrightarrow> distinct xs \<and> x \<notin> set xs"
  by auto

lemma filter_mset_eq: "mset xs = mset ys \<Longrightarrow> mset (filter P xs) = mset (filter P ys)"
  by simp

text \<open>Two lists with the same elements, both ordered by a strict total order on them, are equal.\<close>

lemma sorted_wrt_strict_unique:
  assumes irr: "\<And>x. \<not> r x x" and asym: "\<And>x y. r x y \<Longrightarrow> \<not> r y x"
  shows "sorted_wrt r xs \<Longrightarrow> sorted_wrt r ys \<Longrightarrow> set xs = set ys \<Longrightarrow> xs = ys"
proof (induction xs arbitrary: ys)
  case Nil
  then show ?case by simp
next
  case (Cons x xs)
  then obtain y ys' where ys: "ys = y # ys'" by (cases ys) auto
  have xy: "x = y"
  proof (rule ccontr)
    assume "x \<noteq> y"
    with Cons.prems ys have "r x y" and "r y x" by auto
    with asym show False by blast
  qed
  moreover have "x \<notin> set xs" "y \<notin> set ys'" using Cons.prems ys irr by auto
  ultimately have "set xs = set ys'" using Cons.prems ys by auto
  then show ?case using Cons.IH Cons.prems ys xy by simp
qed

lemma sorted_wrt_distinct:
  "(\<And>x. \<not> r x x) \<Longrightarrow> sorted_wrt r xs \<Longrightarrow> distinct xs"
  by (induction xs) auto

lemma inj_on_mset_eq: "mset xs = mset ys \<Longrightarrow> inj_on f (set xs) = inj_on f (set ys)"
  by (metis mset_eq_set)

lemma hd_in_mset_eq: "mset xs = mset ys \<Longrightarrow> xs \<noteq> [] \<Longrightarrow> hd xs \<in> set ys"
  by (metis list.set_sel(1) mset_eq_set)

lemma list_ex_upt_Suc: "list_ex P [0..<Suc n] \<longleftrightarrow> P 0 \<or> list_ex (\<lambda>i. P (Suc i)) [0..<n]"
  by (auto simp: list_ex_iff less_Suc_eq_0_disj simp del: upt_Suc)

lemma map_filter_image: "map f (filter (\<lambda>x. P (f x)) xs) = filter P (map f xs)"
  by (induction xs) auto

subsection \<open>Sums\<close>

lemma isr_cases: "(case r of Inl e \<Rightarrow> Inl e | Inr x \<Rightarrow> Inr (f x)) = Inr y \<longleftrightarrow> (\<exists>x. r = Inr x \<and> y = f x)"
  by (auto split: sum.splits)

lemma case_sum_Inr: "case_sum Inl f r = Inr y \<longleftrightarrow> (\<exists>x. r = Inr x \<and> f x = Inr y)"
  by (cases r) auto

subsection \<open>Runs and simulations\<close>

lemma run2: "r a b \<Longrightarrow> r b c \<Longrightarrow> r\<^sup>*\<^sup>* a c"
  by (meson converse_rtranclp_into_rtranclp rtranclp.rtrancl_refl)

text \<open>A machine that simulates a system: every step of the system is matched by one step of the machine or none.\<close>

locale simulation =
  fixes step :: "'s \<Rightarrow> 's \<Rightarrow> bool" and spec :: "'a \<Rightarrow> 'a \<Rightarrow> bool" and match :: "'a \<Rightarrow> 's \<Rightarrow> bool"
  assumes simulates: "match a s \<Longrightarrow> step s s' \<Longrightarrow> \<exists>a'. (a' = a \<or> spec a a') \<and> match a' s'"
begin

lemma simulates_run: "step\<^sup>*\<^sup>* s s' \<Longrightarrow> match a s \<Longrightarrow> \<exists>a'. spec\<^sup>*\<^sup>* a a' \<and> match a' s'"
proof (induction rule: rtranclp_induct)
  case (step s s')
  then obtain b where "spec\<^sup>*\<^sup>* a b" "match b s" by blast
  with simulates [OF this(2) step.hyps(2)] show ?case by (auto intro: rtranclp.rtrancl_into_rtrancl)
qed auto

end

end
