(* ===== verification/GoStd.thy ===== *)
theory GoStd
  imports Prelude "HOL-Library.Char_ord" "HOL-Library.List_Lexorder"
begin

text \<open>
  The parts of the Go standard library the program's own logic depends on, modelled from
  their documentation and source: \<open>strings.Split\<close> and \<open>strings.Trim\<close>, the \<open>%d\<close> verb of
  \<open>fmt\<close>, \<open>strconv.ParseUint\<close>/\<open>ParseInt\<close> with their base prefixes, underscores and range
  errors, \<open>encoding/hex\<close>, \<open>binary.BigEndian.Uint64\<close>, \<open>big.Int.SetBytes\<close>, \<open>sort.Sort\<close> and
  \<open>slices.Sort\<close>.
\<close>

subsection \<open>strings.Split and strings.Trim\<close>

fun split_on :: "char \<Rightarrow> string \<Rightarrow> string list" where
  "split_on c [] = [[]]"
| "split_on c (x # xs) =
     (if x = c then [] # split_on c xs
      else (case split_on c xs of [] \<Rightarrow> [[x]] | w # ws \<Rightarrow> (x # w) # ws))"

lemma split_on_neq_Nil [simp]: "split_on c s \<noteq> []"
  by (cases s) (auto split: list.splits)

lemma split_on_no_sep [go_std]: "c \<notin> set s \<Longrightarrow> split_on c s = [s]"
  by (induction s) auto

lemma split_on_append [go_std]: "c \<notin> set a \<Longrightarrow> split_on c (a @ c # b) = a # split_on c b"
  by (induction a) auto

lemma length_split_on [go_std]: "length (split_on c s) = Suc (count_list s c)"
  by (induction s) (auto split: list.splits)

lemma count_list_pos: "c \<in> set s \<Longrightarrow> 0 < count_list s c"
  using count_list_0_iff by fastforce

lemma split_on_parts: "w \<in> set (split_on c s) \<Longrightarrow> c \<notin> set w"
proof (induction s arbitrary: w)
  case Nil
  then show ?case by simp
next
  case (Cons x xs)
  obtain v vs where v: "split_on c xs = v # vs" by (cases "split_on c xs") auto
  with Cons show ?case by (auto split: if_splits)
qed

definition trim_char :: "char \<Rightarrow> string \<Rightarrow> string" where
  "trim_char c s = rev (dropWhile (\<lambda>x. x = c) (rev (dropWhile (\<lambda>x. x = c) s)))"

lemma dropWhile_eq_id: "c \<notin> set s \<Longrightarrow> dropWhile (\<lambda>x. x = c) s = s"
  by (cases s) auto

lemma trim_char_id [go_std]: "c \<notin> set s \<Longrightarrow> trim_char c s = s"
  by (simp add: trim_char_def dropWhile_eq_id)

lemma trim_char_snoc [go_std]: "c \<notin> set s \<Longrightarrow> trim_char c (s @ [c]) = s"
proof -
  assume c: "c \<notin> set s"
  show ?thesis
  proof (cases s)
    case Nil
    then show ?thesis by (simp add: trim_char_def)
  next
    case (Cons x xs)
    with c have "dropWhile (\<lambda>x. x = c) (s @ [c]) = s @ [c]" by auto
    then show ?thesis using c by (simp add: trim_char_def dropWhile_eq_id)
  qed
qed

subsection \<open>The verb \<open>%d\<close>\<close>

definition digit_char :: "nat \<Rightarrow> char" where
  "digit_char d = char_of (48 + d)"

fun show_nat :: "nat \<Rightarrow> string" where
  "show_nat n = (if n < 10 then [digit_char n] else show_nat (n div 10) @ [digit_char (n mod 10)])"

declare show_nat.simps [simp del]

definition show_int :: "int \<Rightarrow> string" where
  "show_int i = (if i < 0 then CHR ''-'' # show_nat (nat (- i)) else show_nat (nat i))"

lemma of_char_digit_char: "d < 10 \<Longrightarrow> of_char (digit_char d) = (48 + d :: nat)"
  by (simp add: digit_char_def of_char_of take_bit_eq_mod)

lemma digit_char_inj: "d < 10 \<Longrightarrow> e < 10 \<Longrightarrow> digit_char d = digit_char e \<longleftrightarrow> d = e"
  by (metis add_left_cancel of_char_digit_char)

lemma show_nat_neq_Nil [simp]: "show_nat n \<noteq> []"
  by (subst show_nat.simps) auto

lemma show_nat_digits: "x \<in> set (show_nat n) \<Longrightarrow> \<exists>d<10. x = digit_char d"
proof (induction n rule: show_nat.induct)
  case (1 n)
  show ?case
  proof (cases "n < 10")
    case True
    with "1.prems" show ?thesis by (auto simp: show_nat.simps [of n])
  next
    case False
    then have "show_nat n = show_nat (n div 10) @ [digit_char (n mod 10)]"
      by (simp add: show_nat.simps [of n])
    with "1.prems" have "x \<in> set (show_nat (n div 10)) \<or> x = digit_char (n mod 10)" by auto
    moreover have "n mod 10 < 10" by simp
    ultimately show ?thesis using "1.IH" [OF False] by blast
  qed
qed

lemma show_nat_no_sep:
  assumes "of_char c < (48::nat) \<or> of_char c > (57::nat)"
  shows "c \<notin> set (show_nat n)"
proof
  assume "c \<in> set (show_nat n)"
  then obtain d where "d < 10" "c = digit_char d" using show_nat_digits by blast
  then have "of_char c = (48 + d :: nat)" by (simp add: of_char_digit_char)
  with \<open>d < 10\<close> assms show False by auto
qed

lemma show_nat_no_dash [simp]: "CHR ''-'' \<notin> set (show_nat n)"
  by (rule show_nat_no_sep) simp

lemma show_nat_no_colon [simp]: "CHR '':'' \<notin> set (show_nat n)"
  by (rule show_nat_no_sep) simp

lemma show_nat_inj: "show_nat m = show_nat n \<Longrightarrow> m = n"
proof (induction m arbitrary: n rule: show_nat.induct)
  case (1 m)
  have len: "length (show_nat k) = 1 \<longleftrightarrow> k < 10" for k
    by (subst show_nat.simps) auto
  show ?case
  proof (cases "m < 10")
    case True
    then have "n < 10" using len [of m] len [of n] "1.prems" by simp
    with True "1.prems" show ?thesis by (simp add: show_nat.simps [of m] show_nat.simps [of n] digit_char_inj)
  next
    case False
    then have n: "\<not> n < 10" using len [of m] len [of n] "1.prems" by simp
    have "m div 10 = n div 10" "m mod 10 = n mod 10"
      using "1.prems" False n "1.IH" [OF False, of "n div 10"]
      by (simp_all add: show_nat.simps [of m] show_nat.simps [of n] digit_char_inj)
    then show ?thesis by (metis div_mult_mod_eq)
  qed
qed

lemma show_nat_eq_iff [simp]: "show_nat m = show_nat n \<longleftrightarrow> m = n"
  using show_nat_inj by blast

subsection \<open>strconv.ParseUint and strconv.ParseInt\<close>

datatype num_error = ErrSyntax | ErrRange

definition lower_char :: "char \<Rightarrow> char" where
  \<comment> \<open>\<open>lower(c) = c | ('x' - 'X')\<close>: sets bit 5, which lower-cases a letter\<close>
  "lower_char c = char_of (or (of_char c :: nat) 32)"

definition digit_val :: "char \<Rightarrow> nat option" where
  "digit_val c =
     (let k = of_char c :: nat; l = of_char (lower_char c) :: nat in
      if 48 \<le> k \<and> k \<le> 57 then Some (k - 48)
      else if 97 \<le> l \<and> l \<le> 122 then Some (l - 97 + 10)
      else None)"

text \<open>
  The digit loop.  \<open>n \<ge> cutoff\<close> in the source says that \<open>n * base\<close> exceeds 64 bits; since
  \<open>maxVal\<close> is at most \<open>2 ^ 64 - 1\<close> that case and the later test \<open>n1 > maxVal\<close> both answer the
  range error, and over the natural numbers one comparison says both.
\<close>

fun parse_digits :: "bool \<Rightarrow> nat \<Rightarrow> nat \<Rightarrow> nat \<Rightarrow> string \<Rightarrow> num_error + nat" where
  "parse_digits base0 base maxv n [] = Inr n"
| "parse_digits base0 base maxv n (c # s) =
     (if c = CHR ''_'' \<and> base0 then parse_digits base0 base maxv n s
      else case digit_val c of
             None \<Rightarrow> Inl ErrSyntax
           | Some d \<Rightarrow>
               if d \<ge> base then Inl ErrSyntax
               else if n * base + d > maxv then Inl ErrRange
               else parse_digits base0 base maxv (n * base + d) s)"

fun underscore_loop :: "bool \<Rightarrow> char \<Rightarrow> string \<Rightarrow> bool" where
  "underscore_loop hex saw [] = (saw \<noteq> CHR ''_'')"
| "underscore_loop hex saw (c # s) =
     (if (CHR ''0'' \<le> c \<and> c \<le> CHR ''9'')
         \<or> (hex \<and> CHR ''a'' \<le> lower_char c \<and> lower_char c \<le> CHR ''f'')
      then underscore_loop hex (CHR ''0'') s
      else if c = CHR ''_''
      then (if saw \<noteq> CHR ''0'' then False else underscore_loop hex (CHR ''_'') s)
      else if saw = CHR ''_'' then False
      else underscore_loop hex (CHR ''!'') s)"

definition underscore_ok :: "string \<Rightarrow> bool" where
  "underscore_ok s0 =
     (let s = (case s0 of c # t \<Rightarrow> if c = CHR ''-'' \<or> c = CHR ''+'' then t else s0 | [] \<Rightarrow> [])
      in case s of
           a # b # t \<Rightarrow>
             if a = CHR ''0'' \<and> lower_char b \<in> {CHR ''b'', CHR ''o'', CHR ''x''}
             then underscore_loop (lower_char b = CHR ''x'') (CHR ''0'') t
             else underscore_loop False (CHR ''^'') s
         | _ \<Rightarrow> underscore_loop False (CHR ''^'') s)"

text \<open>The base and the digits after the prefix, for \<open>base = 0\<close>.\<close>

fun base_prefix :: "string \<Rightarrow> nat \<times> string" where
  "base_prefix (a # b # c # t) =
     (if a = CHR ''0'' then
        (if lower_char b = CHR ''b'' then (2, c # t)
         else if lower_char b = CHR ''o'' then (8, c # t)
         else if lower_char b = CHR ''x'' then (16, c # t)
         else (8, b # c # t))
      else (10, a # b # c # t))"
| "base_prefix (a # t) = (if a = CHR ''0'' then (8, t) else (10, a # t))"
| "base_prefix [] = (10, [])"

definition parse_uint :: "string \<Rightarrow> nat \<Rightarrow> nat \<Rightarrow> num_error + nat" where
  "parse_uint s base0 bits =
     (if s = [] then Inl ErrSyntax
      else
        let (base, t) = (if base0 = 0 then base_prefix s else (base0, s));
            maxv = 2 ^ (if bits = 0 then 64 else bits) - 1
        in case parse_digits (base0 = 0) base maxv 0 t of
             Inl e \<Rightarrow> Inl e
           | Inr n \<Rightarrow> if base0 = 0 \<and> CHR ''_'' \<in> set t \<and> \<not> underscore_ok s
                       then Inl ErrSyntax else Inr n)"

definition parse_int :: "string \<Rightarrow> nat \<Rightarrow> nat \<Rightarrow> num_error + int" where
  "parse_int s base bits =
     (if s = [] then Inl ErrSyntax
      else
        let neg = (hd s = CHR ''-'');
            t = (if hd s = CHR ''+'' \<or> hd s = CHR ''-'' then tl s else s);
            cutoff = 2 ^ ((if bits = 0 then 64 else bits) - 1)
        in case parse_uint t base bits of
             Inl e \<Rightarrow> Inl e
           | Inr un \<Rightarrow>
               if \<not> neg \<and> un \<ge> cutoff then Inl ErrRange
               else if neg \<and> un > cutoff then Inl ErrRange
               else Inr (if neg then - int un else int un))"

lemma parse_int_bounds:
  assumes "parse_int s base bits = Inr i" and "0 < bits"
  shows "- (2 ^ (bits - 1)) \<le> i \<and> i < 2 ^ (bits - 1)"
proof -
  from assms obtain un where "i = (if hd s = CHR ''-'' then - int un else int un)"
    and "hd s \<noteq> CHR ''-'' \<Longrightarrow> un < 2 ^ (bits - 1)" and "hd s = CHR ''-'' \<Longrightarrow> un \<le> 2 ^ (bits - 1)"
    by (auto simp: parse_int_def Let_def split: if_splits sum.splits)
  moreover have "int un < 2 ^ (bits - 1)" if "un < 2 ^ (bits - 1)"
    using that by (metis of_nat_less_iff of_nat_numeral of_nat_power)
  moreover have "int un \<le> 2 ^ (bits - 1)" if "un \<le> 2 ^ (bits - 1)"
    using that by (metis of_nat_le_iff of_nat_numeral of_nat_power)
  moreover have "(0::int) < 2 ^ (bits - 1)" by simp
  ultimately show ?thesis by (smt (verit, best) of_nat_0_le_iff)
qed

lemma digit_val_digit_char [simp]: "d < 10 \<Longrightarrow> digit_val (digit_char d) = Some d"
  by (simp add: digit_val_def of_char_digit_char)

lemma digit_char_not_special:
  assumes "d < 10"
  shows "digit_char d \<noteq> CHR ''_''" "digit_char d \<noteq> CHR ''+''" "digit_char d \<noteq> CHR ''-''"
proof -
  have k: "of_char (digit_char d) = (48 + d :: nat)" using assms by (rule of_char_digit_char)
  have "digit_char d \<noteq> c" if "of_char c < (48::nat) \<or> of_char c > (57::nat)" for c
    using k that assms by auto
  then show "digit_char d \<noteq> CHR ''_''" "digit_char d \<noteq> CHR ''+''" "digit_char d \<noteq> CHR ''-''"
    by simp_all
qed

lemma parse_digits_append:
  "parse_digits b base maxv n (s @ t) =
     (case parse_digits b base maxv n s of Inl e \<Rightarrow> Inl e | Inr m \<Rightarrow> parse_digits b base maxv m t)"
  by (induction b base maxv n s rule: parse_digits.induct) (auto split: option.splits)

lemma parse_digits_show_nat:
  "n \<le> maxv \<Longrightarrow> parse_digits False 10 maxv 0 (show_nat n) = Inr n"
proof (induction n rule: show_nat.induct)
  case (1 n)
  show ?case
  proof (cases "n < 10")
    case True
    with "1.prems" show ?thesis by (simp add: show_nat.simps [of n])
  next
    case False
    have "n div 10 \<le> maxv" using "1.prems" by simp
    with False "1.IH" have "parse_digits False 10 maxv 0 (show_nat (n div 10)) = Inr (n div 10)"
      by simp
    moreover have "n div 10 * 10 + n mod 10 = n" by simp
    ultimately show ?thesis
      using "1.prems" False by (simp add: show_nat.simps [of n] parse_digits_append)
  qed
qed

lemma parse_int_show_nat [go_std]:
  assumes "n < 2 ^ (bits - 1)" and "0 < bits"
  shows "parse_int (show_nat n) 10 bits = Inr (int n)"
proof -
  have "hd (show_nat n) \<in> set (show_nat n)" by simp
  then obtain d where "d < 10" "hd (show_nat n) = digit_char d" using show_nat_digits by blast
  then have hd: "hd (show_nat n) \<noteq> CHR ''+''" "hd (show_nat n) \<noteq> CHR ''-''"
    by (simp_all add: digit_char_not_special)
  have "(2::nat) ^ (bits - 1) \<le> 2 ^ bits - 1"
  proof (cases bits)
    case (Suc k)
    have "(1::nat) \<le> 2 ^ k" by simp
    then show ?thesis using Suc by simp
  qed (use assms in simp)
  then have "n \<le> 2 ^ bits - 1" using assms by simp
  then show ?thesis
    using assms hd by (simp add: parse_int_def parse_uint_def Let_def parse_digits_show_nat)
qed

subsection \<open>encoding/hex, binary.BigEndian and big.Int.SetBytes\<close>

definition hex_char :: "nat \<Rightarrow> char" where
  "hex_char d = (if d < 10 then char_of (48 + d) else char_of (87 + d))"

fun hex_encode :: "bytes \<Rightarrow> string" where
  "hex_encode [] = []"
| "hex_encode (b # bs) =
     hex_char ((of_char b :: nat) div 16) # hex_char ((of_char b :: nat) mod 16) # hex_encode bs"

text \<open>\<open>hex.DecodeString\<close>: \<open>None\<close> is \<open>ErrLength\<close> (odd length) or \<open>InvalidByteError\<close>.\<close>

definition hex_val :: "char \<Rightarrow> nat option" where
  "hex_val c = (let k = of_char c :: nat in
     if 48 \<le> k \<and> k \<le> 57 then Some (k - 48)
     else if 97 \<le> k \<and> k \<le> 102 then Some (k - 87)
     else if 65 \<le> k \<and> k \<le> 70 then Some (k - 55)
     else None)"

fun hex_decode :: "string \<Rightarrow> bytes option" where
  "hex_decode [] = Some []"
| "hex_decode [c] = None"
| "hex_decode (a # b # s) =
     (case (hex_val a, hex_val b) of
        (Some x, Some y) \<Rightarrow> map_option (\<lambda>bs. char_of (16 * x + y) # bs) (hex_decode s)
      | _ \<Rightarrow> None)"

lemma hex_val_hex_char [simp]: "d < 16 \<Longrightarrow> hex_val (hex_char d) = Some d"
  by (simp add: hex_val_def hex_char_def Let_def of_char_of take_bit_eq_mod)

lemma of_char_less_256: "of_char c < (256 :: nat)"
  by (cases c) (metis char_of_quasi_inj nat_of_char_less_256)

lemma hex_decode_encode [go_std]: "hex_decode (hex_encode bs) = Some bs"
proof (induction bs)
  case Nil
  show ?case by simp
next
  case (Cons b bs)
  have "(of_char b :: nat) div 16 < 16"
    by (rule less_mult_imp_div_less) (use of_char_less_256 in simp)
  then show ?case using Cons by simp
qed

lemma hex_decode_even: "hex_decode s = Some bs \<Longrightarrow> length s = 2 * length bs"
  by (induction s arbitrary: bs rule: hex_decode.induct) (auto split: option.splits)

definition be_uint64 :: "bytes \<Rightarrow> 64 word" where
  "be_uint64 b = foldl (\<lambda>acc c. or (push_bit 8 acc) (of_char c)) 0 (take 8 b)"

definition big_set_bytes :: "bytes \<Rightarrow> nat" where
  "big_set_bytes b = foldl (\<lambda>acc c. acc * 256 + of_char c) 0 b"

subsection \<open>sort.Sort and slices.Sort\<close>

text \<open>
  \<open>sort.Sort\<close> runs insertion sort on up to twelve elements, which is what this model does:
  each element sinks to the left while it is less than its neighbour.  The sorted prefix is
  kept reversed.  For longer slices \<open>sort.Sort\<close> uses another algorithm with the same
  contract; \<open>sort_contract.sort_unique\<close> below shows that the result is the same wherever the
  keys differ.
\<close>

fun sort_sink :: "('a \<Rightarrow> 'a \<Rightarrow> bool) \<Rightarrow> 'a \<Rightarrow> 'a list \<Rightarrow> 'a list" where
  "sort_sink lss x [] = [x]"
| "sort_sink lss x (y # ys) = (if lss x y then y # sort_sink lss x ys else x # y # ys)"

definition sort_Sort :: "('a \<Rightarrow> 'a \<Rightarrow> bool) \<Rightarrow> 'a list \<Rightarrow> 'a list" where
  "sort_Sort lss xs = rev (foldl (\<lambda>r x. sort_sink lss x r) [] xs)"

lemma mset_sort_sink [simp]: "mset (sort_sink lss x ys) = add_mset x (mset ys)"
  by (induction ys) auto

lemma set_sort_sink [simp]: "set (sort_sink lss x ys) = insert x (set ys)"
  by (metis mset_sort_sink set_mset_add_mset_insert set_mset_mset)

lemma mset_foldl_sink: "mset (foldl (\<lambda>r x. sort_sink lss x r) r xs) = mset r + mset xs"
  by (induction xs arbitrary: r) auto

text \<open>The contract of a sort by descending key: a permutation, no later element before an earlier one.\<close>

locale sort_contract =
  fixes key :: "'a \<Rightarrow> 'k::linorder"
    and sort_by :: "'a list \<Rightarrow> 'a list"
  assumes sort_perm: "mset (sort_by xs) = mset xs"
    and sort_ordered: "sorted_wrt (\<lambda>a b. key b \<le> key a) (sort_by xs)"
begin

lemma sort_set [simp]: "set (sort_by xs) = set xs"
  by (rule mset_eq_set [OF sort_perm])

lemma sort_length [simp]: "length (sort_by xs) = length xs"
  by (metis size_mset sort_perm)

lemma sort_distinct [simp]: "distinct (sort_by xs) = distinct xs"
  by (rule mset_eq_distinct [OF sort_perm])

lemma sort_Nil_iff [simp]: "sort_by xs = [] \<longleftrightarrow> xs = []"
  by (metis sort_length length_0_conv)

text \<open>Where the keys differ, every list that meets the contract is the same list.\<close>

lemma sort_unique:
  assumes perm: "mset ys = mset xs" and ord: "sorted_wrt (\<lambda>a b. key b \<le> key a) ys"
    and inj: "inj_on key (set xs)"
  shows "ys = sort_by xs"
proof -
  have desc: "sorted (map key (rev zs))" if "sorted_wrt (\<lambda>a b. key b \<le> key a) zs" for zs
    using that by (simp add: sorted_map sorted_wrt_rev)
  have "mset (map key (rev ys)) = mset (map key (rev (sort_by xs)))"
    using perm sort_perm [of xs] by simp
  then have "map key (rev ys) = map key (rev (sort_by xs))"
    using desc [OF ord] desc [OF sort_ordered] by (metis properties_for_sort)
  moreover have "inj_on key (set (rev ys) \<union> set (rev (sort_by xs)))"
    using inj mset_eq_set [OF perm] by simp
  ultimately have "rev ys = rev (sort_by xs)" by (metis map_inj_on)
  then show ?thesis by simp
qed

text \<open>The result does not depend on the order of the input.\<close>

lemma sort_order_independent:
  assumes "mset xs = mset ys" and "inj_on key (set xs)"
  shows "sort_by xs = sort_by ys"
proof (rule sort_unique)
  show "mset (sort_by xs) = mset ys" using assms(1) sort_perm by simp
  show "inj_on key (set ys)" using assms by (metis mset_eq_set)
qed (rule sort_ordered)

lemma sort_hd_max: "x \<in> set xs \<Longrightarrow> key x \<le> key (hd (sort_by xs))"
proof -
  assume x: "x \<in> set xs"
  then obtain y ys where ys: "sort_by xs = y # ys" by (cases "sort_by xs") auto
  with x sort_set [of xs] have "x = y \<or> x \<in> set ys" by auto
  then show ?thesis using sort_ordered [of xs] ys by auto
qed

end

text \<open>Insertion sort meets the contract for \<open>Less(a, b) = key a > key b\<close>.\<close>

lemma sorted_sort_sink:
  fixes key :: "'a \<Rightarrow> 'k::linorder"
  shows "sorted_wrt (\<lambda>a b. key a \<le> key b) ys \<Longrightarrow>
    sorted_wrt (\<lambda>a b. key a \<le> key b) (sort_sink (\<lambda>a b. key a > key b) x ys)"
  by (induction ys) auto

lemma sorted_foldl_sink:
  fixes key :: "'a \<Rightarrow> 'k::linorder"
  shows "sorted_wrt (\<lambda>a b. key a \<le> key b) r \<Longrightarrow>
    sorted_wrt (\<lambda>a b. key a \<le> key b) (foldl (\<lambda>r x. sort_sink (\<lambda>a b. key a > key b) x r) r xs)"
  by (induction xs arbitrary: r) (auto simp: sorted_sort_sink)

interpretation sort_Sort: sort_contract key "sort_Sort (\<lambda>a b. key a > key b)"
  for key :: "'a \<Rightarrow> 'k::linorder"
proof
  fix xs :: "'a list"
  show "mset (sort_Sort (\<lambda>a b. key a > key b) xs) = mset xs"
    by (simp add: sort_Sort_def mset_foldl_sink)
  show "sorted_wrt (\<lambda>a b. key b \<le> key a) (sort_Sort (\<lambda>a b. key a > key b) xs)"
    using sorted_foldl_sink [of key "[]" xs] by (simp add: sort_Sort_def sorted_wrt_rev)
qed

text \<open>
  \<open>slices.Sort\<close> orders strings bytewise and lexicographically, which is the order of
  \<open>HOL-Library.List_Lexorder\<close> over \<open>Char_ord\<close>; equal strings are indistinguishable, so the
  algorithm does not matter.
\<close>

definition slices_Sort :: "string list \<Rightarrow> string list" where
  "slices_Sort xs = sort xs"

lemma slices_Sort_simps [simp]:
  "mset (slices_Sort xs) = mset xs" "set (slices_Sort xs) = set xs"
  "length (slices_Sort xs) = length xs" "sorted (slices_Sort xs)"
  "distinct (slices_Sort xs) = distinct xs"
  by (simp_all add: slices_Sort_def)

lemma slices_Sort_Nil: "slices_Sort xs = [] \<longleftrightarrow> xs = []"
  by (metis length_0_conv slices_Sort_simps(3))

lemma slices_Sort_eq_iff: "slices_Sort xs = slices_Sort ys \<longleftrightarrow> mset xs = mset ys"
  by (metis properties_for_sort slices_Sort_def slices_Sort_simps(1,4))

lemma slices_Sort_filter: "filter P (slices_Sort xs) = slices_Sort (filter P xs)"
  by (simp add: slices_Sort_def filter_sort)

end
