(* ===== verification/Messages.thy ===== *)
theory Messages
  imports GoStd
begin

text \<open>
  The wire vocabulary of the relayers: \<open>tss_util/comm/messages.go\<close> (the message types),
  \<open>tss_util/comm/communication.go\<close> (the wrapped message), \<open>tss_util/comm/errors.go\<close> and
  \<open>tss_util/tss/errors.go\<close> (the text of the typed errors), and \<open>tss_util/comm/subID.go\<close>
  (subscription identifiers and how they are taken apart again).
\<close>

subsection \<open>Message types\<close>

text \<open>\<open>MessageType\<close> is a \<open>uint8\<close>: a message read from the wire may hold any of the 256 values.\<close>

type_synonym message_type = "8 word"

definition TssKeyGenMsg :: message_type where "TssKeyGenMsg = 0"
definition TssKeySignMsg :: message_type where "TssKeySignMsg = 1"
definition TssInitiateMsg :: message_type where "TssInitiateMsg = 2"
definition TssStartMsg :: message_type where "TssStartMsg = 3"
definition TssFailMsg :: message_type where "TssFailMsg = 4"
definition TssReadyMsg :: message_type where "TssReadyMsg = 5"
definition TssReshareMsg :: message_type where "TssReshareMsg = 6"
definition CoordinatorElectionMsg :: message_type where "CoordinatorElectionMsg = 7"
definition CoordinatorAliveMsg :: message_type where "CoordinatorAliveMsg = 8"
definition CoordinatorLeaveMsg :: message_type where "CoordinatorLeaveMsg = 9"
definition CoordinatorSelectMsg :: message_type where "CoordinatorSelectMsg = 10"
definition CoordinatorPingMsg :: message_type where "CoordinatorPingMsg = 11"
definition CoordinatorPingResponseMsg :: message_type where "CoordinatorPingResponseMsg = 12"
definition UnknownMsg :: message_type where "UnknownMsg = 13"

lemmas message_type_defs = TssKeyGenMsg_def TssKeySignMsg_def TssInitiateMsg_def TssStartMsg_def
  TssFailMsg_def TssReadyMsg_def TssReshareMsg_def CoordinatorElectionMsg_def
  CoordinatorAliveMsg_def CoordinatorLeaveMsg_def CoordinatorSelectMsg_def CoordinatorPingMsg_def
  CoordinatorPingResponseMsg_def UnknownMsg_def

definition MessageType_String :: "message_type \<Rightarrow> string" where
  "MessageType_String t =
     (if t = TssKeyGenMsg then ''TssKeyGenMsg''
      else if t = TssKeySignMsg then ''TssKeySignMsg''
      else if t = TssInitiateMsg then ''TssInitiateMsg''
      else if t = TssStartMsg then ''TssStartMsg''
      else if t = TssFailMsg then ''TssFailMsg''
      else if t = TssReadyMsg then ''TssReadyMsg''
      else if t = TssReshareMsg then ''TssReshareMsg''
      else if t = CoordinatorElectionMsg then ''CoordinatorElectionMsg''
      else if t = CoordinatorAliveMsg then ''CoordinatorAliveMsg''
      else if t = CoordinatorLeaveMsg then ''CoordinatorLeaveMsg''
      else if t = CoordinatorSelectMsg then ''CoordinatorSelectMsg''
      else if t = CoordinatorPingMsg then ''CoordinatorPingMsg''
      else if t = CoordinatorPingResponseMsg then ''CoordinatorPingResponseMsg''
      else ''UnknownMsg'')"

record wrapped_message =
  wm_MessageType :: message_type
  wm_SessionID :: session_id
  wm_Payload :: bytes
  wm_From :: peer_id

subsection \<open>Errors\<close>

text \<open>
  \<open>Error()\<close> of the typed errors.  \<open>tss_text\<close> renders tss-lib's own error, a parameter.  The verb \<open>%s\<close>
  applied to a \<open>peer.ID\<close> calls its \<open>String\<close> method, which is \<open>Pretty\<close>.
\<close>

fun error_text :: "(peer_id \<Rightarrow> string) \<Rightarrow> (party_id list \<Rightarrow> string) \<Rightarrow> go_error \<Rightarrow> string" where
  "error_text pretty tss_text (Errorf s) = s"
| "error_text pretty tss_text (CommunicationError p e) =
     ''failed communicating with peer '' @ pretty p @ '' because of: '' @ error_text pretty tss_text e"
| "error_text pretty tss_text (CoordinatorError p) = ''coordinator '' @ pretty p @ '' non-responsive''"
| "error_text pretty tss_text (SubsetError p) = ''party '' @ pretty p @ '' not in signing subset''"
| "error_text pretty tss_text (TssError culprits) = tss_text culprits"
| "error_text pretty tss_text (ExternError s) = s"

subsection \<open>Subscription identifiers\<close>

text \<open>
  \<open>NewSubscriptionID\<close> reads the clock; \<open>now\<close> is \<open>time.Now().UnixNano()\<close>, a 64-bit signed
  integer of which the conversion to \<open>uint32\<close> keeps the low 32 bits.
\<close>

definition NewSubscriptionID :: "session_id \<Rightarrow> message_type \<Rightarrow> 64 word \<Rightarrow> string" where
  "NewSubscriptionID sessionID msgType now =
     sessionID @ ''-'' @ show_nat (unat msgType) @ ''-'' @ show_nat (unat (ucast now :: 32 word))"

definition subID_Unwrap :: "string \<Rightarrow> (session_id \<times> message_type \<times> string) result" where
  "subID_Unwrap sID =
     (let subIDParts = split_on (CHR ''-'') sID in
      if length subIDParts \<noteq> 3 then Inl (Errorf ''invalid subscriptionID'')
      else case parse_int (subIDParts ! 1) 10 8 of
             Inl err \<Rightarrow> Inl (ExternError ''strconv.ParseInt'')
           | Inr msgType \<Rightarrow>
               if msgType > uint UnknownMsg then Inl (Errorf ''invalid message type'')
               else Inr (subIDParts ! 0, word_of_int msgType, subIDParts ! 2))"

definition subID_SessionID :: "string \<Rightarrow> session_id" where
  "subID_SessionID sID = (case subID_Unwrap sID of Inl err \<Rightarrow> '''' | Inr (sessID, _, _) \<Rightarrow> sessID)"

definition subID_MessageType :: "string \<Rightarrow> message_type" where
  \<comment> \<open>\<open>Unwrap\<close> returns \<open>Unknown\<close> with its errors, and that is what \<open>MessageType\<close> returns then\<close>
  "subID_MessageType sID = (case subID_Unwrap sID of Inl err \<Rightarrow> UnknownMsg | Inr (_, msgType, _) \<Rightarrow> msgType)"

definition subID_SubscriptionIdentifier :: "string \<Rightarrow> string" where
  "subID_SubscriptionIdentifier sID = (case subID_Unwrap sID of Inl err \<Rightarrow> '''' | Inr (_, _, subID) \<Rightarrow> subID)"

lemma split_NewSubscriptionID:
  "CHR ''-'' \<notin> set sid \<Longrightarrow> split_on (CHR ''-'') (NewSubscriptionID sid mt now) =
     [sid, show_nat (unat mt), show_nat (unat (ucast now :: 32 word))]"
  by (simp add: NewSubscriptionID_def split_on_append split_on_no_sep)

lemma split_NewSubscriptionID_dash:
  "CHR ''-'' \<in> set sid \<Longrightarrow> length (split_on (CHR ''-'') (NewSubscriptionID sid mt now)) > 3"
  using count_list_pos [of "CHR ''-''" sid] by (simp add: NewSubscriptionID_def length_split_on)

lemma Unwrap_New [sub_simps]:
  assumes "CHR ''-'' \<notin> set sid" and "mt \<le> UnknownMsg"
  shows "subID_Unwrap (NewSubscriptionID sid mt now) =
           Inr (sid, mt, show_nat (unat (ucast now :: 32 word)))"
proof -
  have "unat mt \<le> 13" using assms(2) by (simp add: UnknownMsg_def word_le_nat_alt)
  then have "unat mt < 2 ^ (8 - 1)" by simp
  then have "parse_int (show_nat (unat mt)) 10 8 = Inr (int (unat mt))"
    by (rule parse_int_show_nat) simp
  moreover have "word_of_int (int (unat mt)) = mt" by simp
  ultimately show ?thesis
    using assms(2) by (simp add: subID_Unwrap_def split_NewSubscriptionID [OF assms(1)] UnknownMsg_def
        Let_def word_le_def)
qed

lemma Unwrap_New_dash [sub_simps]:
  "CHR ''-'' \<in> set sid \<Longrightarrow>
     subID_Unwrap (NewSubscriptionID sid mt now) = Inl (Errorf ''invalid subscriptionID'')"
  using split_NewSubscriptionID_dash [of sid mt now] by (simp add: subID_Unwrap_def Let_def)

lemma SubscriptionIdentifier_New [sub_simps]:
  "mt \<le> UnknownMsg \<Longrightarrow> subID_SubscriptionIdentifier (NewSubscriptionID sid mt now) =
     (if CHR ''-'' \<in> set sid then '''' else show_nat (unat (ucast now :: 32 word)))"
  by (simp add: subID_SubscriptionIdentifier_def sub_simps)

end
