(* ===== verification/Json.thy ===== *)
theory Json
  imports GoStd "HOL-Library.Countable"
begin

text \<open>
  The part of \<open>encoding/json\<close> the program relies on: JSON values as trees, the decoding of an
  object into the fields of a struct by their tags, and byte slices as base64 strings.  The text
  of a JSON value is left to two parameters of the definitions that use it, \<open>print_json\<close> and
  \<open>parse_json\<close>; what the program needs of them is \<open>json_text_ok\<close>: parsing inverts printing, and
  the printed text holds no newline, because \<open>encoding/json\<close> escapes control characters.
\<close>

datatype json =
    JNull
  | JBool bool
  | JNum int
  | JReal string  \<comment> \<open>a number that is not an integer, by its shortest text\<close>
  | JStr string
  | JArr "json list"
  | JObj "(string \<times> json) list"

definition newline :: char where "newline = CHR 0x0A"

definition json_text_ok :: "(json \<Rightarrow> bytes) \<Rightarrow> (bytes \<Rightarrow> json option) \<Rightarrow> bool" where
  "json_text_ok print_json parse_json \<longleftrightarrow>
     (\<forall>j. parse_json (print_json j) = Some j \<and> newline \<notin> set (print_json j))"

subsection \<open>base64\<close>

definition b64_char :: "nat \<Rightarrow> char" where
  "b64_char n = char_of (if n < 26 then 65 + n else if n < 52 then 71 + n
                         else if n < 62 then n - 4 else if n = 62 then 43 else 47)"

definition b64_val :: "char \<Rightarrow> nat option" where
  "b64_val c = (let k = of_char c :: nat in
     if 65 \<le> k \<and> k \<le> 90 then Some (k - 65)
     else if 97 \<le> k \<and> k \<le> 122 then Some (k - 71)
     else if 48 \<le> k \<and> k \<le> 57 then Some (k + 4)
     else if k = 43 then Some 62 else if k = 47 then Some 63 else None)"

abbreviation byte_nat :: "char \<Rightarrow> nat" where "byte_nat c \<equiv> of_char c"

fun b64_encode :: "bytes \<Rightarrow> string" where
  "b64_encode [] = []"
| "b64_encode [a] = [b64_char (byte_nat a div 4), b64_char (byte_nat a mod 4 * 16), CHR ''='', CHR ''='']"
| "b64_encode [a, b] = [b64_char (byte_nat a div 4), b64_char (byte_nat a mod 4 * 16 + byte_nat b div 16),
     b64_char (byte_nat b mod 16 * 4), CHR ''='']"
| "b64_encode (a # b # c # r) =
     b64_char (byte_nat a div 4) # b64_char (byte_nat a mod 4 * 16 + byte_nat b div 16) #
     b64_char (byte_nat b mod 16 * 4 + byte_nat c div 64) # b64_char (byte_nat c mod 64) # b64_encode r"

definition b64_bytes1 :: "nat \<Rightarrow> nat \<Rightarrow> bytes" where
  "b64_bytes1 w x = [char_of (w * 4 + x div 16)]"

definition b64_bytes2 :: "nat \<Rightarrow> nat \<Rightarrow> nat \<Rightarrow> bytes" where
  "b64_bytes2 w x y = [char_of (w * 4 + x div 16), char_of (x mod 16 * 16 + y div 4)]"

definition b64_bytes3 :: "nat \<Rightarrow> nat \<Rightarrow> nat \<Rightarrow> nat \<Rightarrow> bytes" where
  "b64_bytes3 w x y z =
     [char_of (w * 4 + x div 16), char_of (x mod 16 * 16 + y div 4), char_of (y mod 4 * 64 + z)]"

fun b64_quads :: "string \<Rightarrow> bytes option" where
  "b64_quads [] = Some []"
| "b64_quads (w # x # y # z # r) =
     (case (b64_val w, b64_val x) of
        (Some w', Some x') \<Rightarrow>
          (case b64_val y of
             Some y' \<Rightarrow>
               (case b64_val z of
                  Some z' \<Rightarrow> map_option (\<lambda>bs. b64_bytes3 w' x' y' z' @ bs) (b64_quads r)
                | None \<Rightarrow> if z = CHR ''='' \<and> r = [] then Some (b64_bytes2 w' x' y') else None)
           | None \<Rightarrow> if y = CHR ''='' \<and> z = CHR ''='' \<and> r = [] then Some (b64_bytes1 w' x') else None)
      | _ \<Rightarrow> None)"
| "b64_quads _ = None"

definition b64_decode :: "string \<Rightarrow> bytes option" where
  "b64_decode s = b64_quads (filter (\<lambda>c. c \<noteq> CHR 0x0A \<and> c \<noteq> CHR 0x0D) s)"

lemma of_char_b64_char: "n < 64 \<Longrightarrow> of_char (b64_char n) =
   (if n < 26 then 65 + n else if n < 52 then 71 + n else if n < 62 then n - 4 else if n = 62 then 43 else 47 :: nat)"
  by (simp add: b64_char_def of_char_of take_bit_eq_mod)

lemma b64_val_char [simp]: "n < 64 \<Longrightarrow> b64_val (b64_char n) = Some n"
  by (auto simp: b64_val_def of_char_b64_char Let_def)

lemma b64_char_no_eol: "n < 64 \<Longrightarrow> b64_char n \<noteq> CHR 0x0A \<and> b64_char n \<noteq> CHR 0x0D"
proof -
  assume n: "n < 64"
  have "b64_char n \<noteq> c" if "of_char c < (20::nat)" for c
  proof
    assume "b64_char n = c"
    then show False using of_char_b64_char [OF n] that by (auto split: if_splits)
  qed
  then show ?thesis by simp
qed

lemma byte_parts:
  "byte_nat a div 4 < 64" "byte_nat a mod 4 * 16 + byte_nat b div 16 < 64"
  "byte_nat b mod 16 * 4 + byte_nat c div 64 < 64" "byte_nat c mod 64 < 64"
  "byte_nat a mod 4 * 16 < 64" "byte_nat b mod 16 * 4 < 64"
proof -
  have l: "byte_nat a div 4 < 64" "byte_nat b div 16 < 16" "byte_nat c div 64 < 4"
    by (rule less_mult_imp_div_less, use of_char_less_256 in simp)+
  have m: "byte_nat a mod 4 < 4" "byte_nat b mod 16 < 16" by simp_all
  show "byte_nat a div 4 < 64" "byte_nat a mod 4 * 16 + byte_nat b div 16 < 64"
    "byte_nat b mod 16 * 4 + byte_nat c div 64 < 64" "byte_nat c mod 64 < 64"
    "byte_nat a mod 4 * 16 < 64" "byte_nat b mod 16 * 4 < 64"
    using l m by linarith+
qed

lemma b64_bytes:
  "b64_bytes1 (byte_nat a div 4) (byte_nat a mod 4 * 16) = [a]"
  "b64_bytes2 (byte_nat a div 4) (byte_nat a mod 4 * 16 + byte_nat b div 16) (byte_nat b mod 16 * 4) = [a, b]"
  "b64_bytes3 (byte_nat a div 4) (byte_nat a mod 4 * 16 + byte_nat b div 16)
     (byte_nat b mod 16 * 4 + byte_nat c div 64) (byte_nat c mod 64) = [a, b, c]"
proof -
  have l: "byte_nat b div 16 < 16" "byte_nat c div 64 < 4"
    by (rule less_mult_imp_div_less, use of_char_less_256 in simp)+
  have "byte_nat a div 4 * 4 + (byte_nat a mod 4 * 16 + byte_nat b div 16) div 16 = byte_nat a"
    using l by simp
  moreover have "(byte_nat a mod 4 * 16 + byte_nat b div 16) mod 16 * 16
      + (byte_nat b mod 16 * 4 + byte_nat c div 64) div 4 = byte_nat b"
    using l by simp
  moreover have "(byte_nat b mod 16 * 4 + byte_nat c div 64) mod 4 * 64 + byte_nat c mod 64 = byte_nat c"
    using l by simp
  moreover have "(byte_nat a mod 4 * 16 + byte_nat b div 16) mod 16 * 16 + byte_nat b mod 16 * 4 div 4 = byte_nat b"
    using l by simp
  ultimately show
    "b64_bytes1 (byte_nat a div 4) (byte_nat a mod 4 * 16) = [a]"
    "b64_bytes2 (byte_nat a div 4) (byte_nat a mod 4 * 16 + byte_nat b div 16) (byte_nat b mod 16 * 4) = [a, b]"
    "b64_bytes3 (byte_nat a div 4) (byte_nat a mod 4 * 16 + byte_nat b div 16)
       (byte_nat b mod 16 * 4 + byte_nat c div 64) (byte_nat c mod 64) = [a, b, c]"
    by (simp_all only: b64_bytes1_def b64_bytes2_def b64_bytes3_def char_of_char) simp_all
qed

lemma b64_val_eq_sign [simp]: "b64_val (CHR ''='') = None"
  by (simp add: b64_val_def)

lemma b64_quads_encode: "b64_quads (b64_encode bs) = Some bs"
  by (induction bs rule: b64_encode.induct) (simp_all add: byte_parts b64_bytes)

lemma b64_encode_no_eol: "c \<in> set (b64_encode bs) \<Longrightarrow> c \<noteq> CHR 0x0A \<and> c \<noteq> CHR 0x0D"
  by (induction bs rule: b64_encode.induct) (auto simp: b64_char_no_eol byte_parts)

lemma b64_decode_encode [go_std]: "b64_decode (b64_encode bs) = Some bs"
proof -
  have "filter (\<lambda>c. c \<noteq> CHR 0x0A \<and> c \<noteq> CHR 0x0D) (b64_encode bs) = b64_encode bs"
    by (rule filter_True) (use b64_encode_no_eol in blast)
  then show ?thesis by (simp add: b64_decode_def b64_quads_encode)
qed

subsection \<open>Decoding into Go values\<close>

text \<open>
  A decoder takes the value the Go variable holds and the JSON value read for it.  \<open>null\<close>
  leaves numbers, strings, booleans and structs as they are and empties slices (a nil slice and
  an empty one are the same list here).  Any failing field makes \<open>Unmarshal\<close> return an error,
  and every caller in the program then drops the value.
\<close>

type_synonym 'a decoder = "'a \<Rightarrow> json \<Rightarrow> 'a result"

definition json_error :: go_error where "json_error = ExternError ''json''"

definition dec_string :: "string decoder" where
  "dec_string cur j = (case j of JStr s \<Rightarrow> Inr s | JNull \<Rightarrow> Inr cur | _ \<Rightarrow> Inl json_error)"

definition dec_bool :: "bool decoder" where
  "dec_bool cur j = (case j of JBool b \<Rightarrow> Inr b | JNull \<Rightarrow> Inr cur | _ \<Rightarrow> Inl json_error)"

text \<open>A Go \<open>int\<close> has 64 bits; a number outside its range is a decoding error.\<close>

definition dec_int :: "int decoder" where
  "dec_int cur j = (case j of
      JNum n \<Rightarrow> if - (2 ^ 63) \<le> n \<and> n < 2 ^ 63 then Inr n else Inl json_error
    | JNull \<Rightarrow> Inr cur | _ \<Rightarrow> Inl json_error)"

definition dec_uint8 :: "8 word decoder" where
  "dec_uint8 cur j = (case j of
      JNum n \<Rightarrow> if 0 \<le> n \<and> n < 256 then Inr (word_of_int n) else Inl json_error
    | JNull \<Rightarrow> Inr cur | _ \<Rightarrow> Inl json_error)"

fun dec_elems :: "'a \<Rightarrow> 'a decoder \<Rightarrow> json list \<Rightarrow> 'a list result" where
  "dec_elems z d [] = Inr []"
| "dec_elems z d (j # js) =
     (case d z j of Inl e \<Rightarrow> Inl e
      | Inr x \<Rightarrow> (case dec_elems z d js of Inl e \<Rightarrow> Inl e | Inr xs \<Rightarrow> Inr (x # xs)))"

definition dec_list :: "'a \<Rightarrow> 'a decoder \<Rightarrow> 'a list decoder" where
  "dec_list z d cur j = (case j of JArr js \<Rightarrow> dec_elems z d js | JNull \<Rightarrow> Inr [] | _ \<Rightarrow> Inl json_error)"

definition dec_bytes :: "bytes decoder" where
  "dec_bytes cur j = (case j of
      JStr s \<Rightarrow> (case b64_decode s of Some b \<Rightarrow> Inr b | None \<Rightarrow> Inl json_error)
    | JNull \<Rightarrow> Inr []
    | JArr js \<Rightarrow> (case dec_elems 0 dec_uint8 js of Inl e \<Rightarrow> Inl e | Inr ws \<Rightarrow> Inr (map (\<lambda>w. char_of (unat w)) ws))
    | _ \<Rightarrow> Inl json_error)"

text \<open>\<open>peer.ID\<close> marshals as its base58 string and unmarshals through \<open>peer.Decode\<close>, here \<open>decode\<close>.\<close>

definition enc_peer :: "(peer_id \<Rightarrow> string) \<Rightarrow> peer_id \<Rightarrow> json" where
  "enc_peer pretty p = JStr (pretty p)"

definition dec_peer :: "(string \<Rightarrow> peer_id option) \<Rightarrow> peer_id decoder" where
  "dec_peer decode cur j = (case dec_string '''' j of Inl e \<Rightarrow> Inl e
     | Inr s \<Rightarrow> (case decode s of None \<Rightarrow> Inl (ExternError ''peer.Decode'') | Some p \<Rightarrow> Inr p))"

text \<open>Keys match a struct tag regardless of ASCII case; a later key overrides an earlier one.\<close>

definition ascii_lower :: "char \<Rightarrow> char" where
  "ascii_lower c = (if 65 \<le> byte_nat c \<and> byte_nat c \<le> 90 then char_of (byte_nat c + 32) else c)"

fun dec_field :: "'a decoder \<Rightarrow> string \<Rightarrow> 'a \<Rightarrow> (string \<times> json) list \<Rightarrow> 'a result" where
  "dec_field d tag cur [] = Inr cur"
| "dec_field d tag cur ((k, j) # fs) =
     (if map ascii_lower k = map ascii_lower tag
      then (case d cur j of Inl e \<Rightarrow> Inl e | Inr v \<Rightarrow> dec_field d tag v fs)
      else dec_field d tag cur fs)"

lemma ascii_letters:
  "ascii_lower CHR ''A'' = CHR ''a''" "ascii_lower CHR ''B'' = CHR ''b''" "ascii_lower CHR ''C'' = CHR ''c''" "ascii_lower CHR ''D'' = CHR ''d''"
  "ascii_lower CHR ''E'' = CHR ''e''" "ascii_lower CHR ''F'' = CHR ''f''" "ascii_lower CHR ''G'' = CHR ''g''" "ascii_lower CHR ''H'' = CHR ''h''"
  "ascii_lower CHR ''I'' = CHR ''i''" "ascii_lower CHR ''J'' = CHR ''j''" "ascii_lower CHR ''K'' = CHR ''k''" "ascii_lower CHR ''L'' = CHR ''l''"
  "ascii_lower CHR ''M'' = CHR ''m''" "ascii_lower CHR ''N'' = CHR ''n''" "ascii_lower CHR ''O'' = CHR ''o''" "ascii_lower CHR ''P'' = CHR ''p''"
  "ascii_lower CHR ''Q'' = CHR ''q''" "ascii_lower CHR ''R'' = CHR ''r''" "ascii_lower CHR ''S'' = CHR ''s''" "ascii_lower CHR ''T'' = CHR ''t''"
  "ascii_lower CHR ''U'' = CHR ''u''" "ascii_lower CHR ''V'' = CHR ''v''" "ascii_lower CHR ''W'' = CHR ''w''" "ascii_lower CHR ''X'' = CHR ''x''"
  "ascii_lower CHR ''Y'' = CHR ''y''" "ascii_lower CHR ''Z'' = CHR ''z''" "ascii_lower CHR ''a'' = CHR ''a''" "ascii_lower CHR ''b'' = CHR ''b''"
  "ascii_lower CHR ''c'' = CHR ''c''" "ascii_lower CHR ''d'' = CHR ''d''" "ascii_lower CHR ''e'' = CHR ''e''" "ascii_lower CHR ''f'' = CHR ''f''"
  "ascii_lower CHR ''g'' = CHR ''g''" "ascii_lower CHR ''h'' = CHR ''h''" "ascii_lower CHR ''i'' = CHR ''i''" "ascii_lower CHR ''j'' = CHR ''j''"
  "ascii_lower CHR ''k'' = CHR ''k''" "ascii_lower CHR ''l'' = CHR ''l''" "ascii_lower CHR ''m'' = CHR ''m''" "ascii_lower CHR ''n'' = CHR ''n''"
  "ascii_lower CHR ''o'' = CHR ''o''" "ascii_lower CHR ''p'' = CHR ''p''" "ascii_lower CHR ''q'' = CHR ''q''" "ascii_lower CHR ''r'' = CHR ''r''"
  "ascii_lower CHR ''s'' = CHR ''s''" "ascii_lower CHR ''t'' = CHR ''t''" "ascii_lower CHR ''u'' = CHR ''u''" "ascii_lower CHR ''v'' = CHR ''v''"
  "ascii_lower CHR ''w'' = CHR ''w''" "ascii_lower CHR ''x'' = CHR ''x''" "ascii_lower CHR ''y'' = CHR ''y''" "ascii_lower CHR ''z'' = CHR ''z''"
  by code_simp+

text \<open>The fields of the object, or none for \<open>null\<close>; anything else cannot fill a struct.\<close>

definition json_object :: "json \<Rightarrow> (string \<times> json) list result" where
  "json_object j = (case j of JObj fs \<Rightarrow> Inr fs | JNull \<Rightarrow> Inr [] | _ \<Rightarrow> Inl json_error)"

definition parse_object :: "(bytes \<Rightarrow> json option) \<Rightarrow> bytes \<Rightarrow> (string \<times> json) list result" where
  "parse_object parse_json bs = (case parse_json bs of None \<Rightarrow> Inl json_error | Some j \<Rightarrow> json_object j)"

lemma dec_bytes_encode [go_std]: "dec_bytes cur (JStr (b64_encode b)) = Inr b"
  by (simp add: dec_bytes_def b64_decode_encode)

lemma dec_uint8_encode [go_std]: "dec_uint8 cur (JNum (uint w)) = Inr w"
  using uint_bounded [of w] by (simp add: dec_uint8_def)

lemma dec_scalars [go_std]:
  "dec_string cur (JStr s) = Inr s" "dec_bool cur' (JBool b) = Inr b"
  "- (2 ^ 63) \<le> n \<Longrightarrow> n < 2 ^ 63 \<Longrightarrow> dec_int cur'' (JNum n) = Inr n"
  "json_object (JObj fs) = Inr fs"
  by (simp_all add: dec_string_def dec_bool_def dec_int_def json_object_def)

lemma dec_elems_map:
  "(\<And>x. x \<in> set xs \<Longrightarrow> d z (enc x) = Inr x) \<Longrightarrow> dec_elems z d (map enc xs) = Inr xs"
  by (induction xs) auto

definition codec_ok :: "(peer_id \<Rightarrow> string) \<Rightarrow> (string \<Rightarrow> peer_id option) \<Rightarrow> bool" where
  \<comment> \<open>what libp2p documents of \<open>String\<close>/\<open>Pretty\<close> and \<open>Decode\<close>: decoding inverts encoding\<close>
  "codec_ok pretty decode \<longleftrightarrow> (\<forall>p. decode (pretty p) = Some p)"

lemma codec_ok_inj: "codec_ok pretty decode \<Longrightarrow> inj pretty"
  by (metis codec_ok_def injI option.inject)

lemma dec_peer_encode [go_std]: "codec_ok pretty decode \<Longrightarrow> dec_peer decode cur (enc_peer pretty p) = Inr p"
  by (simp add: dec_peer_def enc_peer_def dec_string_def codec_ok_def)

lemma dec_peers_encode [go_std]:
  "codec_ok pretty decode \<Longrightarrow> dec_list '''' (dec_peer decode) cur (JArr (map (enc_peer pretty) ps)) = Inr ps"
  by (simp add: dec_list_def dec_elems_map dec_peer_encode)

lemma parse_object_print [go_std]:
  "json_text_ok pj qj \<Longrightarrow> parse_object qj (pj (JObj fs)) = Inr fs"
  by (simp add: parse_object_def json_text_ok_def json_object_def)

subsection \<open>An instance of the parameters\<close>

text \<open>
  JSON trees are countable, so a printer and parser with the two properties exist; the witnesses of
  the properties below use this one, which writes the number of the tree in unary.
\<close>

instance json :: countable
  by countable_datatype

definition unary_print :: "json \<Rightarrow> bytes" where
  "unary_print j = replicate (to_nat j) (CHR ''1'')"

definition unary_parse :: "bytes \<Rightarrow> json option" where
  "unary_parse s = Some (from_nat (length s))"

lemma json_text_ok_unary: "json_text_ok unary_print unary_parse"
  by (simp add: json_text_ok_def unary_print_def unary_parse_def newline_def)

lemma codec_ok_id: "codec_ok (\<lambda>p. p) Some"
  by (simp add: codec_ok_def)

end
