(* ===== verification/Wire.thy ===== *)
theory Wire
  imports Messages Json
begin

text \<open>
  The messages as JSON: \<open>tss_util/tss/message/message.go\<close> (the tss message and the start message)
  and the struct tags of \<open>WrappedMessage\<close> in \<open>tss_util/comm/communication.go\<close>.  The \<open>json.Marshal\<close>
  of these structs cannot fail, so the error branches of the source are not reachable.
\<close>

record tss_message =
  MsgBytes :: bytes
  IsBroadcast :: bool

definition MarshalTssMessage :: "(json \<Rightarrow> bytes) \<Rightarrow> bytes \<Rightarrow> bool \<Rightarrow> bytes result" where
  "MarshalTssMessage print_json msgBytes isBroadcast =
     Inr (print_json (JObj [(''msgBytes'', JStr (b64_encode msgBytes)), (''isBroadcast'', JBool isBroadcast)]))"

definition UnmarshalTssMessage :: "(bytes \<Rightarrow> json option) \<Rightarrow> bytes \<Rightarrow> tss_message result" where
  "UnmarshalTssMessage parse_json msgBytes =
     (case parse_object parse_json msgBytes of
        Inl err \<Rightarrow> Inl err
      | Inr fs \<Rightarrow>
          (case dec_field dec_bytes ''msgBytes'' '''' fs of Inl err \<Rightarrow> Inl err
           | Inr b \<Rightarrow> (case dec_field dec_bool ''isBroadcast'' False fs of Inl err \<Rightarrow> Inl err
              | Inr f \<Rightarrow> Inr \<lparr>MsgBytes = b, IsBroadcast = f\<rparr>)))"

record start_message =
  Params :: bytes

definition MarshalStartMessage :: "(json \<Rightarrow> bytes) \<Rightarrow> bytes \<Rightarrow> bytes result" where
  "MarshalStartMessage print_json params =
     Inr (print_json (JObj [(''params'', JStr (b64_encode params))]))"

definition UnmarshalStartMessage :: "(bytes \<Rightarrow> json option) \<Rightarrow> bytes \<Rightarrow> start_message result" where
  "UnmarshalStartMessage parse_json msgBytes =
     (case parse_object parse_json msgBytes of
        Inl err \<Rightarrow> Inl err
      | Inr fs \<Rightarrow> (case dec_field dec_bytes ''params'' '''' fs of Inl err \<Rightarrow> Inl err
                   | Inr b \<Rightarrow> Inr \<lparr>Params = b\<rparr>))"

text \<open>\<open>From\<close> is tagged \<open>json:"-"\<close>: it is neither written nor read.\<close>

definition marshal_wrapped :: "(json \<Rightarrow> bytes) \<Rightarrow> wrapped_message \<Rightarrow> bytes result" where
  "marshal_wrapped print_json m =
     Inr (print_json (JObj [(''message_type'', JNum (uint (wm_MessageType m))),
        (''message_id'', JStr (wm_SessionID m)), (''payload'', JStr (b64_encode (wm_Payload m)))]))"

definition unmarshal_wrapped :: "(bytes \<Rightarrow> json option) \<Rightarrow> bytes \<Rightarrow> wrapped_message result" where
  "unmarshal_wrapped parse_json bs =
     (case parse_object parse_json bs of
        Inl err \<Rightarrow> Inl err
      | Inr fs \<Rightarrow>
          (case dec_field dec_uint8 ''message_type'' 0 fs of Inl err \<Rightarrow> Inl err
           | Inr t \<Rightarrow> (case dec_field dec_string ''message_id'' '''' fs of Inl err \<Rightarrow> Inl err
              | Inr s \<Rightarrow> (case dec_field dec_bytes ''payload'' '''' fs of Inl err \<Rightarrow> Inl err
                 | Inr p \<Rightarrow> Inr \<lparr>wm_MessageType = t, wm_SessionID = s, wm_Payload = p, wm_From = ''''\<rparr>))))"

lemma tss_roundtrip [go_std]:
  "json_text_ok pj qj \<Longrightarrow> MarshalTssMessage pj b f = Inr bs \<Longrightarrow>
     UnmarshalTssMessage qj bs = Inr \<lparr>MsgBytes = b, IsBroadcast = f\<rparr>"
  by (auto simp: MarshalTssMessage_def UnmarshalTssMessage_def go_std ascii_lower_def)

lemma start_roundtrip [go_std]:
  "json_text_ok pj qj \<Longrightarrow> MarshalStartMessage pj b = Inr bs \<Longrightarrow>
     UnmarshalStartMessage qj bs = Inr \<lparr>Params = b\<rparr>"
  by (auto simp: MarshalStartMessage_def UnmarshalStartMessage_def go_std ascii_lower_def)

lemma wrapped_roundtrip [go_std]:
  "json_text_ok pj qj \<Longrightarrow> marshal_wrapped pj m = Inr bs \<Longrightarrow>
     unmarshal_wrapped qj bs = Inr (m\<lparr>wm_From := ''''\<rparr>)"
  by (auto simp: marshal_wrapped_def unmarshal_wrapped_def go_std ascii_lower_def)

lemma marshal_wrapped_line: "json_text_ok pj qj \<Longrightarrow> marshal_wrapped pj m = Inr bs \<Longrightarrow> newline \<notin> set bs"
  by (auto simp: marshal_wrapped_def json_text_ok_def)

text \<open>Fact (message_roundtrips): what one relayer marshals, another unmarshals unchanged: the tss
  message, the start message, and the wrapped message except for its sender, which is not sent.\<close>

theorem message_roundtrips:
  assumes "json_text_ok pj qj"
  shows "(case MarshalTssMessage pj b f of Inl e \<Rightarrow> False
            | Inr bs \<Rightarrow> UnmarshalTssMessage qj bs = Inr \<lparr>MsgBytes = b, IsBroadcast = f\<rparr>) \<and>
         (case MarshalStartMessage pj b of Inl e \<Rightarrow> False
            | Inr bs \<Rightarrow> UnmarshalStartMessage qj bs = Inr \<lparr>Params = b\<rparr>) \<and>
         (case marshal_wrapped pj m of Inl e \<Rightarrow> False
            | Inr bs \<Rightarrow> unmarshal_wrapped qj bs = Inr (m\<lparr>wm_From := []\<rparr>))"
  using assms tss_roundtrip start_roundtrip wrapped_roundtrip
  by (auto simp: MarshalTssMessage_def MarshalStartMessage_def marshal_wrapped_def)

theorem message_roundtrips_witness:
  "case MarshalStartMessage unary_print ''abc'' of Inl e \<Rightarrow> False
     | Inr bs \<Rightarrow> UnmarshalStartMessage unary_parse bs = Inr \<lparr>Params = ''abc''\<rparr>"
  by (rule message_roundtrips [OF json_text_ok_unary, THEN conjunct2, THEN conjunct1])

end
