(* ===== verification/PeerOrder.thy ===== *)
theory PeerOrder
  imports GoStd
begin

text \<open>
  The order in which every relayer ranks the peers of a session, and the static elector that
  picks the first of them: \<open>tss_util/tss/util/sort.go\<close>, \<open>tss_util/tss/util/util.go\<close> and
  \<open>tss_util/comm/elector/static.go\<close>.  \<open>keccak256\<close> stands for go-ethereum's \<open>crypto.Keccak256\<close>
  (its 32-byte digest makes \<open>binary.BigEndian.Uint64\<close> total) and \<open>pretty\<close> for libp2p's
  \<open>peer.ID.Pretty\<close>.
\<close>

record peer_msg =
  pm_ID :: peer_id
  pm_SessionID :: session_id

definition peer_hash :: "(bytes \<Rightarrow> bytes) \<Rightarrow> (peer_id \<Rightarrow> string) \<Rightarrow> peer_msg \<Rightarrow> 64 word" where
  "peer_hash keccak256 pretty m = be_uint64 (keccak256 (pretty (pm_ID m) @ pm_SessionID m))"

definition sps_Less :: "(bytes \<Rightarrow> bytes) \<Rightarrow> (peer_id \<Rightarrow> string) \<Rightarrow> peer_msg \<Rightarrow> peer_msg \<Rightarrow> bool" where
  "sps_Less keccak256 pretty i j \<longleftrightarrow>
     (let iHash = keccak256 (pretty (pm_ID i) @ pm_SessionID i);
          jHash = keccak256 (pretty (pm_ID j) @ pm_SessionID j)
      in be_uint64 iHash > be_uint64 jHash)"

definition sps_Len :: "peer_msg list \<Rightarrow> nat" where
  "sps_Len sps = length sps"

definition sps_Swap :: "peer_msg list \<Rightarrow> nat \<Rightarrow> nat \<Rightarrow> peer_msg list" where
  "sps_Swap sps i j = sps[i := sps ! j, j := sps ! i]"

text \<open>What \<open>sort.Sort\<close> needs of the two: swapping keeps the elements, so a sort by swaps is a permutation.\<close>

lemma sps_Swap_perm: "i < sps_Len sps \<Longrightarrow> j < sps_Len sps \<Longrightarrow> mset (sps_Swap sps i j) = mset sps"
  unfolding sps_Swap_def sps_Len_def by (rule mset_swap)

definition GetPeerIDs :: "peer_msg list \<Rightarrow> peer_id list" where
  "GetPeerIDs sps = map pm_ID sps"

definition SortPeersForSession ::
  "(bytes \<Rightarrow> bytes) \<Rightarrow> (peer_id \<Rightarrow> string) \<Rightarrow> peer_id list \<Rightarrow> session_id \<Rightarrow> peer_msg list" where
  "SortPeersForSession keccak256 pretty peers sessionID =
     sort_Sort (sps_Less keccak256 pretty)
       (map (\<lambda>p. \<lparr>pm_ID = p, pm_SessionID = sessionID\<rparr>) peers)"

fun IsParticipant :: "(peer_id \<Rightarrow> string) \<Rightarrow> peer_id \<Rightarrow> peer_id list \<Rightarrow> bool" where
  "IsParticipant pretty peer [] = False"
| "IsParticipant pretty peer (p # ps) =
     (if pretty p = pretty peer then True else IsParticipant pretty peer ps)"

text \<open>\<open>staticCoordinatorElector.Coordinator\<close>; it never returns an error.\<close>

definition static_Coordinator ::
  "(bytes \<Rightarrow> bytes) \<Rightarrow> (peer_id \<Rightarrow> string) \<Rightarrow> session_id \<Rightarrow> peer_id list \<Rightarrow> peer_id" where
  "static_Coordinator keccak256 pretty sessionID peers =
     (let sortedPeers = SortPeersForSession keccak256 pretty peers sessionID
      in if length sortedPeers = 0 then ''''
         else pm_ID (hd (SortPeersForSession keccak256 pretty peers sessionID)))"

subsection \<open>Properties of the order\<close>

lemma sps_Less_key: "sps_Less k pr = (\<lambda>a b. peer_hash k pr a > peer_hash k pr b)"
  by (simp add: fun_eq_iff sps_Less_def peer_hash_def Let_def)

lemma IsParticipant_iff [peer_simps]: "IsParticipant pr p ps \<longleftrightarrow> pr p \<in> pr ` set ps"
  by (induction ps) auto

lemma IsParticipant_inj: "inj pr \<Longrightarrow> IsParticipant pr p ps \<longleftrightarrow> p \<in> set ps"
  by (simp add: IsParticipant_iff inj_image_mem_iff)

text \<open>The rank key of a peer identity in a session.\<close>

definition session_key ::
  "(bytes \<Rightarrow> bytes) \<Rightarrow> (peer_id \<Rightarrow> string) \<Rightarrow> session_id \<Rightarrow> peer_id \<Rightarrow> 64 word" where
  "session_key k pr sid p = peer_hash k pr \<lparr>pm_ID = p, pm_SessionID = sid\<rparr>"

definition sorted_ids ::
  "(bytes \<Rightarrow> bytes) \<Rightarrow> (peer_id \<Rightarrow> string) \<Rightarrow> session_id \<Rightarrow> peer_id list \<Rightarrow> peer_id list" where
  "sorted_ids k pr sid ps = GetPeerIDs (SortPeersForSession k pr ps sid)"

lemma SortPeers_SessionID:
  "m \<in> set (SortPeersForSession k pr ps sid) \<Longrightarrow> pm_SessionID m = sid"
  by (auto simp: SortPeersForSession_def sps_Less_key)

lemma SortPeers_from_ids:
  "SortPeersForSession k pr ps sid = map (\<lambda>p. \<lparr>pm_ID = p, pm_SessionID = sid\<rparr>) (sorted_ids k pr sid ps)"
proof -
  have "map (\<lambda>m. \<lparr>pm_ID = pm_ID m, pm_SessionID = sid\<rparr>) (SortPeersForSession k pr ps sid)
      = map (\<lambda>m. m) (SortPeersForSession k pr ps sid)"
    by (rule map_cong [OF refl]) (metis SortPeers_SessionID peer_msg.surjective old.unit.exhaust)
  then show ?thesis by (simp add: sorted_ids_def GetPeerIDs_def comp_def)
qed

text \<open>Ranking peer identities meets the contract of a sort by \<open>session_key\<close>.\<close>

interpretation rank: sort_contract "session_key k pr sid" "sorted_ids k pr sid"
  for k :: "bytes \<Rightarrow> bytes" and pr :: "peer_id \<Rightarrow> string" and sid :: session_id
proof
  fix ps
  show "mset (sorted_ids k pr sid ps) = mset ps"
    unfolding sorted_ids_def GetPeerIDs_def SortPeersForSession_def sps_Less_key mset_map
      sort_Sort.sort_perm by (simp add: multiset.map_comp comp_def)
  have "sorted_wrt (\<lambda>a b. peer_hash k pr b \<le> peer_hash k pr a) (SortPeersForSession k pr ps sid)"
    unfolding SortPeersForSession_def sps_Less_key by (rule sort_Sort.sort_ordered)
  then show "sorted_wrt (\<lambda>a b. session_key k pr sid b \<le> session_key k pr sid a) (sorted_ids k pr sid ps)"
    by (simp add: SortPeers_from_ids sorted_wrt_map session_key_def)
qed

lemma static_Coordinator_hd [peer_simps]:
  "static_Coordinator k pr sid ps = (if ps = [] then '''' else hd (sorted_ids k pr sid ps))"
  by (auto simp: static_Coordinator_def Let_def SortPeers_from_ids hd_map)

subsection \<open>Properties\<close>

text \<open>Fact (static_member): the static elector picks one of the peers it is given, and one whose
  hash no other peer exceeds; without peers it answers the empty identity.\<close>

theorem static_member:
  "(ps = [] \<and> static_Coordinator k pr sid ps = '''') \<or>
   (static_Coordinator k pr sid ps \<in> set ps \<and>
    list_all (\<lambda>p. session_key k pr sid p \<le> session_key k pr sid (static_Coordinator k pr sid ps)) ps)"
  using rank.sort_hd_max [of _ ps k pr sid] hd_in_mset_eq [OF rank.sort_perm, of k pr sid ps]
  by (auto simp: static_Coordinator_hd list_all_iff)

lemma order_agreement:
  assumes "mset ps = mset qs" and "inj_on (session_key k pr sid) (set ps)"
  shows "SortPeersForSession k pr ps sid = SortPeersForSession k pr qs sid \<and>
         static_Coordinator k pr sid ps = static_Coordinator k pr sid qs"
proof -
  have "sorted_ids k pr sid ps = sorted_ids k pr sid qs"
    by (rule rank.sort_order_independent [OF assms])
  moreover have "ps = [] \<longleftrightarrow> qs = []" using assms(1) by auto
  ultimately show ?thesis by (simp add: SortPeers_from_ids static_Coordinator_hd)
qed

text \<open>C18 (static_agreement): relayers that know the same peers, in whatever order their
  peerstores list them, rank them identically and elect the same static coordinator, provided the
  64-bit hash prefixes of the peers differ.\<close>

theorem static_agreement:
  assumes "mset ps = mset qs" and "inj_on (session_key k pr sid) (set ps)"
  shows "SortPeersForSession k pr ps sid = SortPeersForSession k pr qs sid \<and>
         static_Coordinator k pr sid ps = static_Coordinator k pr sid qs"
  by (rule order_agreement [OF assms])

text \<open>Three peers whose hash is the first eight bytes of their name.\<close>

lemma session_key_example:
  "session_key (\<lambda>b. b) (\<lambda>p. p) ''s'' ''aaaaaaa1'' < session_key (\<lambda>b. b) (\<lambda>p. p) ''s'' ''aaaaaaa2''"
  "session_key (\<lambda>b. b) (\<lambda>p. p) ''s'' ''aaaaaaa2'' < session_key (\<lambda>b. b) (\<lambda>p. p) ''s'' ''aaaaaaa3''"
  by (simp_all add: session_key_def peer_hash_def be_uint64_def)

theorem static_agreement_witness:
  "static_Coordinator (\<lambda>b. b) (\<lambda>p. p) ''s'' [''aaaaaaa1'', ''aaaaaaa3'', ''aaaaaaa2''] =
   static_Coordinator (\<lambda>b. b) (\<lambda>p. p) ''s'' [''aaaaaaa3'', ''aaaaaaa2'', ''aaaaaaa1'']"
proof -
  have "inj_on (session_key (\<lambda>b. b) (\<lambda>p. p) ''s'') (set [''aaaaaaa1'', ''aaaaaaa3'', ''aaaaaaa2''])"
    using session_key_example by (auto simp: inj_on_def)
  moreover have "mset [''aaaaaaa1'', ''aaaaaaa3'', ''aaaaaaa2''] = mset [''aaaaaaa3'', ''aaaaaaa2'', ''aaaaaaa1'']"
    by simp
  ultimately show ?thesis using static_agreement by blast
qed

end
