(* ===== verification/Pool.thy ===== *)
theory Pool
  imports Prelude
begin

text \<open>
  A pool of goroutines, as the program creates it with
  \<open>pool.New().WithContext(ctx).WithCancelOnError()\<close> and waits for with \<open>p.Wait()\<close>.  What the
  program relies on is the documented behaviour of the conc library: the tasks share a context;
  the context is cancelled when its parent is, or as soon as a task returns an error, and not
  otherwise; \<open>Wait\<close> returns when every task has returned, with an error exactly when some task
  returned one.  How several errors are combined is a parameter of the users of this theory.

  A task of the program is a \<open>select\<close> loop: each round it either takes an event of its own or,
  once the context is cancelled, may take \<open>ctx.Done()\<close> and return \<open>nil\<close>.  A schedule lists which
  task takes which event; \<open>ParentDone\<close> in it is the moment the caller cancels the parent context.
  \<open>pool_run\<close> plays the schedule and is \<open>None\<close> when a step of it is not possible.
\<close>

datatype 'e task_event = CtxDone | Event 'e | ParentDone

datatype task_result =
    Continue
  | Finish "go_error option"
  | FinishCancel "go_error option"  \<comment> \<open>the task also cancels the parent context\<close>

record pool =
  pool_live :: "nat list"
  pool_cancelled :: bool
  pool_errs :: "go_error list"

definition new_pool :: "nat list \<Rightarrow> pool" where
  "new_pool ts = \<lparr>pool_live = ts, pool_cancelled = False, pool_errs = []\<rparr>"

definition task_done :: "nat \<Rightarrow> go_error option \<Rightarrow> pool \<Rightarrow> pool" where
  "task_done t r p = p\<lparr>pool_live := removeAll t (pool_live p),
     pool_cancelled := (pool_cancelled p \<or> r \<noteq> None),
     pool_errs := pool_errs p @ (case r of None \<Rightarrow> [] | Some e \<Rightarrow> [e])\<rparr>"

definition pool_step ::
  "(nat \<Rightarrow> 'e \<Rightarrow> 's \<Rightarrow> 's \<times> task_result) \<Rightarrow> nat \<times> 'e task_event \<Rightarrow> pool \<times> 's \<Rightarrow> (pool \<times> 's) option" where
  "pool_step task te ps =
     (let t = fst te; p = fst ps; s = snd ps in
      if snd te = ParentDone then Some (p\<lparr>pool_cancelled := True\<rparr>, s)
      else if t \<notin> set (pool_live p) then None
      else case snd te of
             ParentDone \<Rightarrow> None
           | CtxDone \<Rightarrow> if pool_cancelled p then Some (task_done t None p, s) else None
           | Event e \<Rightarrow>
               (case task t e s of
                  (s', Continue) \<Rightarrow> Some (p, s')
                | (s', Finish r) \<Rightarrow> Some (task_done t r p, s')
                | (s', FinishCancel r) \<Rightarrow> Some ((task_done t r p)\<lparr>pool_cancelled := True\<rparr>, s')))"

fun pool_run ::
  "(nat \<Rightarrow> 'e \<Rightarrow> 's \<Rightarrow> 's \<times> task_result) \<Rightarrow> (nat \<times> 'e task_event) list \<Rightarrow> pool \<times> 's \<Rightarrow> (pool \<times> 's) option" where
  "pool_run task [] ps = Some ps"
| "pool_run task (te # tes) ps =
     (case pool_step task te ps of None \<Rightarrow> None | Some ps' \<Rightarrow> pool_run task tes ps')"

abbreviation pool_finished :: "pool \<times> 's \<Rightarrow> bool" where
  "pool_finished ps \<equiv> pool_live (fst ps) = []"

subsection \<open>Invariants of a pool\<close>

text \<open>An invariant of pool and shared state, kept by every step, holds after every schedule.\<close>

lemma pool_run_invariant_on:
  assumes step: "\<And>te ps ps'. te \<in> T \<Longrightarrow> P ps \<Longrightarrow> pool_step task te ps = Some ps' \<Longrightarrow> P ps'"
  shows "set tes \<subseteq> T \<Longrightarrow> P ps \<Longrightarrow> pool_run task tes ps = Some ps' \<Longrightarrow> P ps'"
  by (induction tes arbitrary: ps) (auto split: option.splits intro: step)

lemma pool_run_invariant:
  assumes step: "\<And>te ps ps'. P ps \<Longrightarrow> pool_step task te ps = Some ps' \<Longrightarrow> P ps'"
  shows "P ps \<Longrightarrow> pool_run task tes ps = Some ps' \<Longrightarrow> P ps'"
  by (rule pool_run_invariant_on [where T = UNIV]) (auto intro: step)

lemma pool_step_state:
  assumes task: "\<And>t e s s' r. (t, Event e) = te \<Longrightarrow> Q s \<Longrightarrow> task t e s = (s', r) \<Longrightarrow> Q s'"
  shows "Q (snd ps) \<Longrightarrow> pool_step task te ps = Some ps' \<Longrightarrow> Q (snd ps')"
  using task by (cases te) (auto simp: pool_step_def Let_def split: prod.splits task_event.splits task_result.splits if_splits)

text \<open>An invariant of the shared state alone.\<close>

lemma pool_run_state:
  assumes "pool_run task tes ps = Some ps'" and "Q (snd ps)"
    and task: "\<And>t e s s' r. (t, Event e) \<in> set tes \<Longrightarrow> Q s \<Longrightarrow> task t e s = (s', r) \<Longrightarrow> Q s'"
  shows "Q (snd ps')"
  by (rule pool_run_invariant_on [where P = "\<lambda>x. Q (snd x)" and T = "set tes", OF _ subset_refl assms(2,1)])
    (rule pool_step_state [of _ Q task], auto intro: task)

text \<open>Schedules in which the caller does not cancel the parent.\<close>

abbreviation uncancelled :: "(nat \<times> 'e task_event) list \<Rightarrow> bool" where
  "uncancelled tes \<equiv> ParentDone \<notin> snd ` set tes"

lemma uncancelled_subset: "uncancelled tes \<longleftrightarrow> set tes \<subseteq> {te. snd te \<noteq> ParentDone}"
  by (auto simp: image_iff)

lemma pool_stepE:
  assumes "pool_step task te ps = Some ps'"
  obtains (parent) t where "te = (t, ParentDone)" "ps' = ((fst ps)\<lparr>pool_cancelled := True\<rparr>, snd ps)"
  | (ctx) t where "te = (t, CtxDone)" "t \<in> set (pool_live (fst ps))" "pool_cancelled (fst ps)"
      "ps' = (task_done t None (fst ps), snd ps)"
  | (cont) t e s' where "te = (t, Event e)" "t \<in> set (pool_live (fst ps))"
      "task t e (snd ps) = (s', Continue)" "ps' = (fst ps, s')"
  | (fin) t e s' r where "te = (t, Event e)" "t \<in> set (pool_live (fst ps))"
      "task t e (snd ps) = (s', Finish r)" "ps' = (task_done t r (fst ps), s')"
  | (cancel) t e s' r where "te = (t, Event e)" "t \<in> set (pool_live (fst ps))"
      "task t e (snd ps) = (s', FinishCancel r)"
      "ps' = ((task_done t r (fst ps))\<lparr>pool_cancelled := True\<rparr>, s')"
proof -
  obtain t x where te: "te = (t, x)" by (cases te)
  show thesis
  proof (cases x)
    case ParentDone
    with assms te parent show thesis by (auto simp: pool_step_def Let_def)
  next
    case CtxDone
    with assms te have live: "t \<in> set (pool_live (fst ps))"
      by (auto simp: pool_step_def Let_def split: if_splits)
    from CtxDone assms te live ctx show thesis by (auto simp: pool_step_def Let_def split: if_splits)
  next
    case (Event e)
    with assms te have live: "t \<in> set (pool_live (fst ps))"
      by (auto simp: pool_step_def Let_def split: if_splits)
    obtain s' r where r: "task t e (snd ps) = (s', r)" by (cases "task t e (snd ps)")
    with assms te live Event cont fin cancel show thesis
      by (cases r) (auto simp: pool_step_def Let_def)
  qed
qed

lemma task_done_simps [simp]:
  "pool_live (task_done t r p) = removeAll t (pool_live p)"
  "pool_cancelled (task_done t r p) = (pool_cancelled p \<or> r \<noteq> None)"
  "pool_errs (task_done t r p) = pool_errs p @ (case r of None \<Rightarrow> [] | Some e \<Rightarrow> [e])"
  by (simp_all add: task_done_def)

lemma new_pool_simps [simp]:
  "pool_live (new_pool ts) = ts" "pool_cancelled (new_pool ts) = False" "pool_errs (new_pool ts) = []"
  by (simp_all add: new_pool_def)

text \<open>A part of the state that no task changes.\<close>

lemma pool_run_frame:
  assumes frame: "\<And>t e s s' r. task t e s = (s', r) \<Longrightarrow> g s' = g s"
    and run: "pool_run task tes ps = Some ps'"
  shows "g (snd ps') = g (snd ps)"
proof (rule pool_run_invariant [where P = "\<lambda>x. g (snd x) = g (snd ps)", OF _ refl run])
  fix te p1 p2 assume P: "g (snd p1) = g (snd ps)" and "pool_step task te p1 = Some p2"
  from this(2) show "g (snd p2) = g (snd ps)" by (cases rule: pool_stepE) (simp_all add: P frame)
qed

text \<open>Liveness of tasks only shrinks, errors only accumulate.\<close>

lemma pool_run_live_subset:
  "pool_run task tes ps = Some ps' \<Longrightarrow> set (pool_live (fst ps')) \<subseteq> set (pool_live (fst ps))"
  by (rule pool_run_invariant [where P = "\<lambda>x. set (pool_live (fst x)) \<subseteq> set (pool_live (fst ps))" and ps = ps])
    (auto elim!: pool_stepE)

lemma pool_run_append:
  "pool_run task (xs @ ys) ps = (case pool_run task xs ps of None \<Rightarrow> None | Some ps' \<Rightarrow> pool_run task ys ps')"
  by (induction xs arbitrary: ps) (auto split: option.split)

text \<open>
  A task that never cancels the parent: the context is cancelled only by an error, so a task
  that ends without one of its own events shows that some task returned an error.
\<close>

lemma pool_cancelled_only_by_error:
  assumes no_cancel: "\<And>t e s s' r. task t e s \<noteq> (s', FinishCancel r)"
  shows "uncancelled tes \<Longrightarrow> (pool_cancelled (fst ps) \<longrightarrow> pool_errs (fst ps) \<noteq> []) \<Longrightarrow> pool_run task tes ps = Some ps' \<Longrightarrow>
    (pool_cancelled (fst ps') \<longrightarrow> pool_errs (fst ps') \<noteq> [])"
  unfolding uncancelled_subset
  by (rule pool_run_invariant_on [where P = "\<lambda>x. pool_cancelled (fst x) \<longrightarrow> pool_errs (fst x) \<noteq> []" and ps = ps])
    (auto elim!: pool_stepE simp: no_cancel split: option.splits)

text \<open>
  If a task never returns \<open>nil\<close> of its own accord and nothing cancels the parent, then once that
  task has returned the pool has an error.
\<close>

lemma pool_task_never_nil:
  assumes no_cancel: "\<And>t e s s' r. task t e s \<noteq> (s', FinishCancel r)"
    and never_nil: "\<And>e s s'. task w e s \<noteq> (s', Finish None)" and un: "uncancelled tes"
    and run: "pool_run task tes (new_pool ts, s) = Some ps'" and w: "w \<in> set ts" "w \<notin> set (pool_live (fst ps'))"
  shows "pool_errs (fst ps') \<noteq> []"
proof -
  let ?P = "\<lambda>x. (pool_cancelled (fst x) \<longrightarrow> pool_errs (fst x) \<noteq> []) \<and>
                (w \<notin> set (pool_live (fst x)) \<longrightarrow> pool_errs (fst x) \<noteq> [])"
  have "?P ps'"
  proof (rule pool_run_invariant_on [where P = ?P and T = "{te. snd te \<noteq> ParentDone}", OF _ _ _ run])
    show "?P (new_pool ts, s)" using w(1) by simp
    show "set tes \<subseteq> {te. snd te \<noteq> ParentDone}" using un unfolding uncancelled_subset .
    fix te ps ps'
    assume "te \<in> {te. snd te \<noteq> ParentDone}" and "?P ps" and "pool_step task te ps = Some ps'"
    from this(3,1,2) show "?P ps'"
      by (cases rule: pool_stepE)
        (auto simp: no_cancel split: option.splits dest: never_nil [THEN notE])
  qed
  with w(2) show ?thesis by blast
qed

text \<open>
  How a pool ends well: if only task \<open>w\<close> may end with \<open>nil\<close> or cancel the parent without an
  error, and then leaves the shared state in \<open>Q\<close>, and no other task destroys \<open>Q\<close>, then once \<open>w\<close>
  has returned and no task has failed, \<open>Q\<close> holds.
\<close>

lemma pool_goal_reached:
  assumes cancel: "\<And>t e s s' r. task t e s = (s', FinishCancel r) \<Longrightarrow> r \<noteq> None \<or> (t = w \<and> Q s')"
    and nil: "\<And>e s s'. task w e s = (s', Finish None) \<Longrightarrow> Q s'"
    and stable: "\<And>t e s s' r. t \<noteq> w \<Longrightarrow> task t e s = (s', r) \<Longrightarrow> Q s \<Longrightarrow> Q s'"
    and run: "pool_run task tes (new_pool ts, s0) = Some ps'" and un: "uncancelled tes"
    and w: "w \<in> set ts" "w \<notin> set (pool_live (fst ps'))"
  shows "pool_errs (fst ps') \<noteq> [] \<or> Q (snd ps')"
proof -
  let ?P = "\<lambda>x. pool_errs (fst x) \<noteq> [] \<or>
      ((pool_cancelled (fst x) \<longrightarrow> w \<notin> set (pool_live (fst x))) \<and> (w \<notin> set (pool_live (fst x)) \<longrightarrow> Q (snd x)))"
  have "?P ps'"
  proof (rule pool_run_invariant_on [where P = ?P and T = "{te. snd te \<noteq> ParentDone}", OF _ _ _ run])
    show "?P (new_pool ts, s0)" using w(1) by simp
    show "set tes \<subseteq> {te. snd te \<noteq> ParentDone}" using un unfolding uncancelled_subset .
    fix te ps ps'
    assume ne: "te \<in> {te. snd te \<noteq> ParentDone}" and P: "?P ps" and step: "pool_step task te ps = Some ps'"
    from step show "?P ps'"
    proof (cases rule: pool_stepE)
      case (parent t)
      with ne show ?thesis by simp
    next
      case (ctx t)
      with P show ?thesis by auto
    next
      case (cont t e s')
      with P show ?thesis by (cases "t = w") (auto dest: stable)
    next
      case (fin t e s' r)
      with P show ?thesis by (cases "t = w"; cases r) (auto dest: nil stable)
    next
      case (cancel t e s' r)
      with P assms(1) [OF cancel(3)] show ?thesis by (cases "t = w"; cases r) auto
    qed
  qed
  with w(2) show ?thesis by blast
qed

text \<open>A schedule, played to the end: the answer of \<open>Wait\<close>, or \<open>None\<close> while a task still runs.\<close>

definition pool_wait ::
  "(go_error list \<Rightarrow> go_error option) \<Rightarrow> (nat \<Rightarrow> 'e \<Rightarrow> 's \<Rightarrow> 's \<times> task_result) \<Rightarrow> nat list \<Rightarrow>
   (nat \<times> 'e task_event) list \<Rightarrow> 's \<Rightarrow> (go_error option \<times> 's) option" where
  "pool_wait wait_error task ts sched s =
     (case pool_run task sched (new_pool ts, s) of
        None \<Rightarrow> None
      | Some (p, s') \<Rightarrow> if pool_live p = [] then Some (wait_error (pool_errs p), s') else None)"

definition wait_ok :: "(go_error list \<Rightarrow> go_error option) \<Rightarrow> bool" where
  \<comment> \<open>what conc documents of \<open>Wait\<close>: an error exactly when a task returned one\<close>
  "wait_ok wait_error \<longleftrightarrow> (\<forall>errs. wait_error errs = None \<longleftrightarrow> errs = [])"

lemma pool_wait_nil:
  assumes "wait_ok we" and "pool_wait we task ts sched s = Some (None, s')"
  obtains p where "pool_run task sched (new_pool ts, s) = Some (p, s')" "pool_live p = []" "pool_errs p = []"
  using assms by (auto simp: pool_wait_def wait_ok_def split: option.splits if_splits)

text \<open>The instance the witnesses use: the first error.\<close>

definition first_error :: "go_error list \<Rightarrow> go_error option" where
  "first_error errs = (case errs of [] \<Rightarrow> None | e # _ \<Rightarrow> Some e)"

lemma wait_ok_first_error: "wait_ok first_error"
  by (simp add: wait_ok_def first_error_def split: list.split)

subsection \<open>Tasks that block outside their select\<close>

text \<open>
  A task that has left its \<open>select\<close> to send on a channel, or to wait for a pool of its own, does not
  see that the context is done.  \<open>sel t s\<close> says whether task \<open>t\<close> is at its \<open>select\<close>; only then may it
  take \<open>ctx.Done()\<close>.  The functions above are the case of tasks that always are.
\<close>

definition pool_step_at ::
  "(nat \<Rightarrow> 's \<Rightarrow> bool) \<Rightarrow> (nat \<Rightarrow> 'e \<Rightarrow> 's \<Rightarrow> 's \<times> task_result) \<Rightarrow> nat \<times> 'e task_event \<Rightarrow> pool \<times> 's \<Rightarrow> (pool \<times> 's) option" where
  "pool_step_at sel task te ps =
     (if snd te = CtxDone \<and> \<not> sel (fst te) (snd ps) then None else pool_step task te ps)"

fun pool_run_at ::
  "(nat \<Rightarrow> 's \<Rightarrow> bool) \<Rightarrow> (nat \<Rightarrow> 'e \<Rightarrow> 's \<Rightarrow> 's \<times> task_result) \<Rightarrow> (nat \<times> 'e task_event) list \<Rightarrow> pool \<times> 's \<Rightarrow> (pool \<times> 's) option" where
  "pool_run_at sel task [] ps = Some ps"
| "pool_run_at sel task (te # tes) ps =
     (case pool_step_at sel task te ps of None \<Rightarrow> None | Some ps' \<Rightarrow> pool_run_at sel task tes ps')"

definition pool_wait_at ::
  "(nat \<Rightarrow> 's \<Rightarrow> bool) \<Rightarrow> (go_error list \<Rightarrow> go_error option) \<Rightarrow> (nat \<Rightarrow> 'e \<Rightarrow> 's \<Rightarrow> 's \<times> task_result) \<Rightarrow> nat list \<Rightarrow>
   (nat \<times> 'e task_event) list \<Rightarrow> 's \<Rightarrow> (go_error option \<times> 's) option" where
  "pool_wait_at sel wait_error task ts sched s =
     (case pool_run_at sel task sched (new_pool ts, s) of
        None \<Rightarrow> None
      | Some (p, s') \<Rightarrow> if pool_live p = [] then Some (wait_error (pool_errs p), s') else None)"

lemma pool_step_at_step:
  "pool_step_at sel task te ps = Some ps' \<longleftrightarrow> pool_step task te ps = Some ps' \<and> (snd te = CtxDone \<longrightarrow> sel (fst te) (snd ps))"
  by (simp add: pool_step_at_def)

text \<open>What holds of every run in which a task may always see the context holds of these.\<close>

lemma pool_run_at_run: "pool_run_at sel task tes ps = Some ps' \<Longrightarrow> pool_run task tes ps = Some ps'"
  by (induction tes arbitrary: ps) (auto simp: pool_step_at_step split: option.splits)

lemma pool_wait_at_wait: "pool_wait_at sel we task ts sched s = Some x \<Longrightarrow> pool_wait we task ts sched s = Some x"
  by (auto simp: pool_wait_at_def pool_wait_def dest: pool_run_at_run split: option.splits)

lemma pool_wait_at_selecting: "pool_wait_at (\<lambda>_ _. True) we task ts sched s = pool_wait we task ts sched s"
proof -
  have "pool_run_at (\<lambda>_ _. True) task tes ps = pool_run task tes ps" for tes ps
    by (induction tes arbitrary: ps) (auto simp: pool_step_at_def split: option.split)
  then show ?thesis by (simp add: pool_wait_at_def pool_wait_def)
qed

lemma pool_run_at_append:
  "pool_run_at sel task (xs @ ys) ps = (case pool_run_at sel task xs ps of None \<Rightarrow> None | Some ps' \<Rightarrow> pool_run_at sel task ys ps')"
  by (induction xs arbitrary: ps) (auto split: option.split)

text \<open>
  A task that is blocked in a way that no other task of the pool can end never returns, and neither
  does \<open>Wait\<close>.  \<open>T\<close> are the steps that are left, \<open>L\<close> the tasks that still run.
\<close>

lemma pool_stuck:
  assumes blocked: "\<And>s. P s \<Longrightarrow> \<not> sel t s"
    and stays: "\<And>e s s' r. (t, Event e) \<in> T \<Longrightarrow> P s \<Longrightarrow> task t e s = (s', r) \<Longrightarrow> r = Continue"
    and stable: "\<And>t' e s s' r. (t', Event e) \<in> T \<Longrightarrow> t' \<in> L \<Longrightarrow> P s \<Longrightarrow> task t' e s = (s', r) \<Longrightarrow> P s'"
  shows "set tes \<subseteq> T \<Longrightarrow> t \<in> set (pool_live (fst ps)) \<Longrightarrow> set (pool_live (fst ps)) \<subseteq> L \<Longrightarrow> P (snd ps) \<Longrightarrow>
    pool_run_at sel task tes ps = Some ps' \<Longrightarrow> t \<in> set (pool_live (fst ps'))"
proof (induction tes arbitrary: ps)
  case Nil
  then show ?case by simp
next
  case (Cons te tes)
  from Cons.prems(5) obtain ps1 where step: "pool_step task te ps = Some ps1" and ctx: "snd te = CtxDone \<longrightarrow> sel (fst te) (snd ps)"
    and run: "pool_run_at sel task tes ps1 = Some ps'"
    by (auto simp: pool_step_at_step split: option.splits)
  have te: "te \<in> T" and live: "t \<in> set (pool_live (fst ps))" "set (pool_live (fst ps)) \<subseteq> L" and P: "P (snd ps)"
    using Cons.prems by simp_all
  have "t \<in> set (pool_live (fst ps1)) \<and> set (pool_live (fst ps1)) \<subseteq> L \<and> P (snd ps1)"
    using step
  proof (cases rule: pool_stepE)
    case (parent u)
    then show ?thesis using live P by simp
  next
    case (ctx u)
    then show ?thesis using \<open>snd te = CtxDone \<longrightarrow> sel (fst te) (snd ps)\<close> blocked [OF P] live P by auto
  next
    case (cont u e s')
    then show ?thesis using te live P stable [of u e "snd ps" s'] by auto
  next
    case (fin u e s' r)
    then show ?thesis using te live P stable [of u e "snd ps" s'] stays [of e "snd ps" s' "Finish r"] by auto
  next
    case (cancel u e s' r)
    then show ?thesis using te live P stable [of u e "snd ps" s'] stays [of e "snd ps" s' "FinishCancel r"] by auto
  qed
  with Cons.IH [of ps1] Cons.prems(1) run show ?case by simp
qed

lemma pool_wait_at_stuck:
  assumes "pool_run_at sel task sched0 (new_pool ts, s0) = Some ps"
    and "\<And>ps'. pool_run_at sel task sched ps = Some ps' \<Longrightarrow> t \<in> set (pool_live (fst ps'))"
  shows "pool_wait_at sel we task ts (sched0 @ sched) s0 = None"
  using assms by (fastforce simp: pool_wait_at_def pool_run_at_append split: option.splits)

text \<open>Once the context is cancelled, tasks that are all at their select can end.\<close>

lemma pool_drains:
  assumes "pool_cancelled p" and "\<And>t. t \<in> set (pool_live p) \<Longrightarrow> sel t s"
  shows "\<exists>p'. pool_run_at sel task (map (\<lambda>t. (t, CtxDone)) (remdups (pool_live p))) (p, s) = Some (p', s) \<and>
    pool_live p' = [] \<and> pool_errs p' = pool_errs p"
proof -
  have "\<exists>p'. pool_run_at sel task (map (\<lambda>t. (t, CtxDone)) ts) (p, s) = Some (p', s) \<and> pool_live p' = [] \<and> pool_errs p' = pool_errs p"
    if "distinct ts" "set ts = set (pool_live p)" "pool_cancelled p" "\<And>t. t \<in> set (pool_live p) \<Longrightarrow> sel t s" for ts p
    using that
  proof (induction ts arbitrary: p)
    case Nil
    then show ?case by simp
  next
    case (Cons t ts)
    let ?p = "task_done t None p"
    have "\<exists>p'. pool_run_at sel task (map (\<lambda>t. (t, CtxDone)) ts) (?p, s) = Some (p', s) \<and> pool_live p' = [] \<and> pool_errs p' = pool_errs ?p"
      using Cons.prems by (intro Cons.IH) auto
    moreover have "pool_step_at sel task (t, CtxDone) (p, s) = Some (?p, s)"
      using Cons.prems by (auto simp: pool_step_at_def pool_step_def Let_def)
    ultimately show ?case by simp
  qed
  from this [of "remdups (pool_live p)" p] assms show ?thesis by simp
qed

end
