(* ===== verification/Parties.thy ===== *)
theory Parties
  imports Wire PeerOrder Pool
begin

text \<open>
  Peers and tss parties: \<open>tss_util/tss/ecdsa/common/utils.go\<close> and \<open>base.go\<close>,
  \<open>tss_util/tss/frost/common/util.go\<close> and \<open>base.go\<close>.  tss-lib's \<open>NewPartyID\<close> and
  \<open>SortPartyIDs\<close> are the fields of \<open>tss_lib\<close>; \<open>tss_lib_ok\<close> is what tss-lib documents of them:
  a new party carries the given identity and key, and sorting orders by key and numbers the
  parties from 0.
\<close>

record tss_lib =
  tl_NewPartyID :: "string \<Rightarrow> string \<Rightarrow> nat \<Rightarrow> party_id"
  tl_SortPartyIDs :: "party_id list \<Rightarrow> party_id list"

definition tss_lib_ok :: "tss_lib \<Rightarrow> bool" where
  "tss_lib_ok L \<longleftrightarrow>
     (\<forall>i m k. party_Id (tl_NewPartyID L i m k) = i \<and> party_Key (tl_NewPartyID L i m k) = k) \<and>
     (\<forall>ps. mset (map party_Id (tl_SortPartyIDs L ps)) = mset (map party_Id ps) \<and>
           map party_Index (tl_SortPartyIDs L ps) = map int [0..<length ps])"

definition CreatePartyID :: "tss_lib \<Rightarrow> string \<Rightarrow> party_id" where
  "CreatePartyID L peerID = (let key = big_set_bytes peerID in tl_NewPartyID L peerID peerID key)"

fun decode_all :: "(string \<Rightarrow> peer_id option) \<Rightarrow> string list \<Rightarrow> peer_id list result" where
  "decode_all decode [] = Inr []"
| "decode_all decode (i # is) =
     (case decode i of
        None \<Rightarrow> Inl (ExternError ''peer.Decode'')
      | Some peerID \<Rightarrow>
          (case decode_all decode is of Inl err \<Rightarrow> Inl err | Inr peers \<Rightarrow> Inr (peerID # peers)))"

definition PeersFromParties :: "(string \<Rightarrow> peer_id option) \<Rightarrow> party_id list \<Rightarrow> peer_id list result" where
  "PeersFromParties decode parties = decode_all decode (map party_Id parties)"

definition PeersFromIDS :: "(string \<Rightarrow> peer_id option) \<Rightarrow> string list \<Rightarrow> peer_id list result" where
  "PeersFromIDS decode peerIDS = decode_all decode peerIDS"

definition PartiesFromPeers :: "tss_lib \<Rightarrow> (peer_id \<Rightarrow> string) \<Rightarrow> peer_id list \<Rightarrow> party_id list" where
  "PartiesFromPeers L pretty peers = tl_SortPartyIDs L (map (\<lambda>p. CreatePartyID L (pretty p)) peers)"

fun ExcludePeers :: "peer_id list \<Rightarrow> peer_id list \<Rightarrow> peer_id list" where
  "ExcludePeers [] excludedPeers = []"
| "ExcludePeers (p # ps) excludedPeers =
     (if p \<in> set excludedPeers then ExcludePeers ps excludedPeers else p # ExcludePeers ps excludedPeers)"

fun PeersIntersection :: "peer_id list \<Rightarrow> peer_id list \<Rightarrow> peer_id list" where
  "PeersIntersection [] newPeers = []"
| "PeersIntersection (p # ps) newPeers =
     (if p \<notin> set newPeers then PeersIntersection ps newPeers else p # PeersIntersection ps newPeers)"

text \<open>The frost processes name parties by the peers' strings; \<open>to_slice\<close> is the set library's
  \<open>NewSet(\<dots>).ToSlice()\<close>, which lists each peer once in an unspecified order.\<close>

definition PartyIDSFromPeers :: "(peer_id list \<Rightarrow> peer_id list) \<Rightarrow> (peer_id \<Rightarrow> string) \<Rightarrow> peer_id list \<Rightarrow> string list" where
  "PartyIDSFromPeers to_slice pretty peers = map pretty (to_slice peers)"

lemma ExcludePeers_filter: "ExcludePeers ps ex = filter (\<lambda>p. p \<notin> set ex) ps"
  by (induction ps) auto

lemma PeersIntersection_filter: "PeersIntersection ps qs = filter (\<lambda>p. p \<in> set qs) ps"
  by (induction ps) auto

lemma decode_all_pretty:
  "codec_ok pretty decode \<Longrightarrow> decode_all decode (map pretty ps) = Inr ps"
  by (induction ps) (auto simp: codec_ok_def)

lemma decode_all_None:
  "(\<exists>i\<in>set is. decode i = None) \<Longrightarrow> decode_all decode is = Inl (ExternError ''peer.Decode'')"
  by (induction "is") (fastforce split: option.split sum.split)+

lemma decode_all_Some:
  "(\<And>i. i \<in> set is \<Longrightarrow> decode i \<noteq> None) \<Longrightarrow> decode_all decode is = Inr (map (the \<circ> decode) is)"
  by (induction "is") (fastforce split: option.split)+

lemma CreatePartyID_Id: "tss_lib_ok L \<Longrightarrow> party_Id (CreatePartyID L s) = s"
  by (simp add: CreatePartyID_def tss_lib_ok_def Let_def)

lemma PartiesFromPeers_Ids:
  assumes "tss_lib_ok L"
  shows "mset (map party_Id (PartiesFromPeers L pretty ps)) = mset (map pretty ps)"
proof -
  have "mset (map party_Id (PartiesFromPeers L pretty ps)) =
      mset (map party_Id (map (\<lambda>p. CreatePartyID L (pretty p)) ps))"
    using assms unfolding PartiesFromPeers_def tss_lib_ok_def by blast
  also have "map party_Id (map (\<lambda>p. CreatePartyID L (pretty p)) ps) = map pretty ps"
    using CreatePartyID_Id [OF assms] by simp
  finally show ?thesis .
qed

lemma PartiesFromPeers_length:
  "tss_lib_ok L \<Longrightarrow> length (PartiesFromPeers L pretty ps) = length ps"
  using PartiesFromPeers_Ids [of L pretty ps] by (metis length_map size_mset)

lemma PartiesFromPeers_Index:
  "tss_lib_ok L \<Longrightarrow> map party_Index (PartiesFromPeers L pretty ps) = map int [0..<length ps]"
  by (simp add: PartiesFromPeers_def tss_lib_ok_def)

lemma PartiesFromPeers_Nil [simp]: "tss_lib_ok L \<Longrightarrow> PartiesFromPeers L pretty [] = []"
  using PartiesFromPeers_length [of L pretty "[]"] by simp

lemma PeersFromParties_PartiesFromPeers:
  assumes L: "tss_lib_ok L" and co: "codec_ok pretty decode"
  shows "\<exists>qs. PeersFromParties decode (PartiesFromPeers L pretty ps) = Inr qs \<and> mset qs = mset ps \<and>
    map party_Id (PartiesFromPeers L pretty ps) = map pretty qs"
proof -
  define js where "js = map party_Id (PartiesFromPeers L pretty ps)"
  have m: "mset js = mset (map pretty ps)" unfolding js_def by (rule PartiesFromPeers_Ids [OF L])
  have "\<And>i. i \<in> set js \<Longrightarrow> \<exists>p. i = pretty p \<and> decode i = Some p"
    using mset_eq_set [OF m] co by (auto simp: codec_ok_def)
  then have d: "\<And>i. i \<in> set js \<Longrightarrow> decode i \<noteq> None" "\<And>i. i \<in> set js \<Longrightarrow> pretty (the (decode i)) = i"
    by force+
  have "PeersFromParties decode (PartiesFromPeers L pretty ps) = Inr (map (the \<circ> decode) js)"
    using decode_all_Some [of js decode, OF d(1)] by (simp add: PeersFromParties_def js_def)
  moreover have "mset (map (the \<circ> decode) js) = mset ps"
  proof -
    have "mset (map (the \<circ> decode) js) = mset (map (the \<circ> decode) (map pretty ps))"
      using m by (simp only: mset_map)
    also have "map (the \<circ> decode) (map pretty ps) = ps" using co by (simp add: codec_ok_def comp_def)
    finally show ?thesis .
  qed
  moreover have "js = map pretty (map (the \<circ> decode) js)"
    using d(2) by (simp add: comp_def map_idI)
  ultimately show ?thesis unfolding js_def by blast
qed

subsection \<open>The base of the ECDSA processes\<close>

record base_tss =
  bt_SID :: session_id
  bt_PartyStore :: "string \<Rightarrow> party_id option"
  bt_Peers :: "peer_id list"

fun PopulatePartyStore :: "party_id list \<Rightarrow> (string \<Rightarrow> party_id option) \<Rightarrow> (string \<Rightarrow> party_id option)" where
  "PopulatePartyStore [] store = store"
| "PopulatePartyStore (party # parties) store = PopulatePartyStore parties (store(party_Id party \<mapsto> party))"

text \<open>
  One round of the loop of \<open>ProcessInboundMessages\<close>.  \<open>update\<close> is tss-lib's
  \<open>Party.UpdateFromBytes\<close>: it may panic (a message from outside the committee is passed with a nil
  party), and the deferred \<open>recover\<close> turns the panic into an error.  It answers \<open>ok = false\<close>
  exactly with an error.
\<close>

definition inbound_event ::
  "(bytes \<Rightarrow> json option) \<Rightarrow> (peer_id \<Rightarrow> string) \<Rightarrow>
   (bytes \<Rightarrow> party_id option \<Rightarrow> bool \<Rightarrow> nat \<Rightarrow> 'p \<Rightarrow> ('p \<times> go_error option) outcome) \<Rightarrow>
   base_tss \<Rightarrow> wrapped_message \<Rightarrow> 'p \<Rightarrow> 'p \<times> task_result" where
  "inbound_event parse_json pretty update b wMsg party =
     (case UnmarshalTssMessage parse_json (wm_Payload wMsg) of
        Inl err \<Rightarrow> (party, Finish (Some err))
      | Inr msg \<Rightarrow>
          (case update (MsgBytes msg) (bt_PartyStore b (pretty (wm_From wMsg))) (IsBroadcast msg)
                  (big_set_bytes (bt_SID b)) party of
             Panics stack \<Rightarrow> (party, Finish (Some (Errorf stack)))
           | Returns (party', None) \<Rightarrow> (party', Continue)
           | Returns (party', Some err) \<Rightarrow> (party', Finish (Some err))))"

record tss_out =
  out_WireBytes :: "(bytes \<times> bool) result"
  out_IsBroadcast :: bool
  out_To :: "party_id list"

definition BroadcastPeers :: "(string \<Rightarrow> peer_id option) \<Rightarrow> base_tss \<Rightarrow> tss_out \<Rightarrow> peer_id list result" where
  "BroadcastPeers decode b msg =
     (if out_IsBroadcast msg then Inr (bt_Peers b) else PeersFromParties decode (out_To msg))"

text \<open>One round of \<open>ProcessOutboundMessages\<close>; \<open>broadcast\<close> is the communication's \<open>Broadcast\<close>.\<close>

definition outbound_event ::
  "(json \<Rightarrow> bytes) \<Rightarrow> (string \<Rightarrow> peer_id option) \<Rightarrow>
   (peer_id list \<Rightarrow> bytes \<Rightarrow> message_type \<Rightarrow> session_id \<Rightarrow> 'c \<Rightarrow> go_error option \<times> 'c) \<Rightarrow>
   base_tss \<Rightarrow> message_type \<Rightarrow> tss_out \<Rightarrow> 'c \<Rightarrow> 'c \<times> task_result" where
  "outbound_event print_json decode broadcast b messageType msg c =
     (case out_WireBytes msg of
        Inl err \<Rightarrow> (c, Finish (Some err))
      | Inr (wireBytes, routingIsBroadcast) \<Rightarrow>
          (case MarshalTssMessage print_json wireBytes routingIsBroadcast of
             Inl err \<Rightarrow> (c, Finish (Some err))
           | Inr msgBytes \<Rightarrow>
               (case BroadcastPeers decode b msg of
                  Inl err \<Rightarrow> (c, Finish (Some err))
                | Inr peers \<Rightarrow>
                    (case broadcast peers msgBytes messageType (bt_SID b) c of
                       (Some err, c') \<Rightarrow> (c', Finish (Some err))
                     | (None, c') \<Rightarrow> (c', Continue)))))"

subsection \<open>The base of the frost processes\<close>

record frost_base =
  fb_SID :: session_id
  fb_Peers :: "peer_id list"

record frost_msg =
  fm_Broadcast :: bool
  fm_To :: string
  fm_Bytes :: "bytes result"  \<comment> \<open>what \<open>MarshalBinary\<close> answers\<close>

text \<open>\<open>unmarshal\<close>, \<open>can_accept\<close> and \<open>accept\<close> are the protocol library's; a panic of \<open>CanAccept\<close> is
  recovered.  \<open>Accept\<close> runs in a goroutine of its own; its effect is taken at once.\<close>

definition frost_inbound_event ::
  "(bytes \<Rightarrow> 'm result) \<Rightarrow> ('m \<Rightarrow> 'h \<Rightarrow> bool outcome) \<Rightarrow> ('m \<Rightarrow> 'h \<Rightarrow> 'h) \<Rightarrow>
   wrapped_message \<Rightarrow> 'h \<Rightarrow> 'h \<times> task_result" where
  "frost_inbound_event unmarshal can_accept accept wMsg h =
     (case unmarshal (wm_Payload wMsg) of
        Inl err \<Rightarrow> (h, Finish (Some err))
      | Inr msg \<Rightarrow>
          (case can_accept msg h of
             Panics stack \<Rightarrow> (h, Finish (Some (Errorf stack)))
           | Returns False \<Rightarrow> (h, Continue)
           | Returns True \<Rightarrow> (accept msg h, Continue)))"

definition frost_BroadcastPeers :: "(string \<Rightarrow> peer_id option) \<Rightarrow> frost_base \<Rightarrow> frost_msg \<Rightarrow> peer_id list result" where
  "frost_BroadcastPeers decode k msg =
     (if fm_Broadcast msg then Inr (fb_Peers k)
      else if fm_To msg = '''' then Inr (fb_Peers k)
      else (case decode (fm_To msg) of
              None \<Rightarrow> Inl (ExternError ''peer.Decode'')
            | Some p \<Rightarrow> Inr [p]))"

text \<open>One round of the frost \<open>ProcessOutboundMessages\<close>: \<open>None\<close> is the closed channel of the protocol
  handler, after which the loop sends on \<open>Done\<close> (the second component) and ends when that is received.\<close>

definition frost_outbound_event ::
  "(string \<Rightarrow> peer_id option) \<Rightarrow>
   (peer_id list \<Rightarrow> bytes \<Rightarrow> message_type \<Rightarrow> session_id \<Rightarrow> 'c \<Rightarrow> go_error option \<times> 'c) \<Rightarrow>
   frost_base \<Rightarrow> message_type \<Rightarrow> frost_msg option \<Rightarrow> 'c \<Rightarrow> ('c \<times> bool) \<times> task_result" where
  "frost_outbound_event decode broadcast k messageType m c =
     (case m of
        None \<Rightarrow> ((c, True), Continue)
      | Some msg \<Rightarrow>
          (case fm_Bytes msg of
             Inl err \<Rightarrow> ((c, False), Finish (Some err))
           | Inr msgBytes \<Rightarrow>
               (case frost_BroadcastPeers decode k msg of
                  Inl err \<Rightarrow> ((c, False), Finish (Some err))
                | Inr peers \<Rightarrow>
                    (case broadcast peers msgBytes messageType (fb_SID k) c of
                       (Some err, c') \<Rightarrow> ((c', False), Finish (Some err))
                     | (None, c') \<Rightarrow> ((c', False), Continue)))))"

subsection \<open>Properties\<close>

lemma PopulatePartyStore_lookup:
  "PopulatePartyStore parties store i =
     (case find (\<lambda>p. party_Id p = i) (rev parties) of None \<Rightarrow> store i | Some p \<Rightarrow> Some p)"
proof (induction parties arbitrary: store)
  case (Cons p ps)
  have f: "find P (xs @ [x]) = (case find P xs of None \<Rightarrow> if P x then Some x else None | Some y \<Rightarrow> Some y)"
    for P and xs :: "party_id list" and x
    by (induction xs) auto
  show ?case by (simp add: Cons f split: option.split)
qed simp


text \<open>Fact (parties_roundtrip): turning peers into sorted parties and back gives the same peers, each as
  often as before, and numbers the parties from 0.\<close>

theorem parties_roundtrip:
  assumes "tss_lib_ok L" and "codec_ok pretty decode"
  shows "map party_Index (PartiesFromPeers L pretty ps) = map int [0..<length ps] \<and>
    (case PeersFromParties decode (PartiesFromPeers L pretty ps) of Inl e \<Rightarrow> False | Inr qs \<Rightarrow> mset qs = mset ps)"
  using PeersFromParties_PartiesFromPeers [OF assms, of ps] PartiesFromPeers_Index [OF assms(1)] by auto

text \<open>Fact (exclude_intersection_partition): excluding and intersecting with the same peers split a list
  in two: nothing is lost, nothing appears twice, and the order is kept.\<close>

theorem exclude_intersection_partition:
  "mset (ExcludePeers ps qs) + mset (PeersIntersection ps qs) = mset ps \<and>
   set (ExcludePeers ps qs) = set ps - set qs \<and> set (PeersIntersection ps qs) = set ps \<inter> set qs \<and>
   ExcludePeers ps qs = filter (\<lambda>p. p \<notin> set qs) ps \<and> PeersIntersection ps qs = filter (\<lambda>p. p \<in> set qs) ps"
  by (auto simp: ExcludePeers_filter PeersIntersection_filter add.commute)

subsection \<open>An instance of the tss library\<close>

definition plain_tss_lib :: tss_lib where
  "plain_tss_lib = \<lparr>
     tl_NewPartyID = (\<lambda>i m k. \<lparr>party_Id = i, party_Moniker = m, party_Key = k, party_Index = -1\<rparr>),
     tl_SortPartyIDs = (\<lambda>ps. map (\<lambda>(n, p). p\<lparr>party_Index := int n\<rparr>) (enumerate 0 (sort_key party_Key ps)))\<rparr>"

lemma map_enumerate_snd: "map (\<lambda>(n, p). f p) (enumerate k xs) = map f xs"
  by (induction xs arbitrary: k) auto

lemma map_enumerate_fst: "map (\<lambda>(n, p). f n) (enumerate k xs) = map f [k..<k + length xs]"
proof -
  have "map (\<lambda>(n, p). f n) (enumerate k xs) = map (f \<circ> fst) (enumerate k xs)"
    by (rule map_cong) auto
  also have "\<dots> = map f (map fst (enumerate k xs))" by (simp only: map_map)
  finally show ?thesis by (simp only: map_fst_enumerate)
qed

lemma plain_tss_lib_ok: "tss_lib_ok plain_tss_lib"
proof -
  let ?e = "\<lambda>ps. enumerate 0 (sort_key party_Key ps)"
  have "map party_Id (tl_SortPartyIDs plain_tss_lib ps) = map (\<lambda>(n, p). party_Id p) (?e ps)"
    and "map party_Index (tl_SortPartyIDs plain_tss_lib ps) = map (\<lambda>(n, p). int n) (?e ps)" for ps
    by (auto simp: plain_tss_lib_def)
  then have "map party_Id (tl_SortPartyIDs plain_tss_lib ps) = map party_Id (sort_key party_Key ps)"
    and "map party_Index (tl_SortPartyIDs plain_tss_lib ps) = map int [0..<length ps]" for ps
    by (simp_all only: map_enumerate_snd map_enumerate_fst length_sort add_0)
  then show ?thesis by (simp add: tss_lib_ok_def) (simp add: plain_tss_lib_def)
qed

theorem parties_roundtrip_witness:
  "case PeersFromParties Some (PartiesFromPeers plain_tss_lib (\<lambda>p. p) [''b'', ''a'']) of
     Inl e \<Rightarrow> False | Inr qs \<Rightarrow> mset qs = {#''a'', ''b''#}"
  using parties_roundtrip [OF plain_tss_lib_ok codec_ok_id, of "[''b'', ''a'']"]
  by (auto split: sum.splits)


end
