(* ===== verification/Streams.thy ===== *)
theory Streams
  imports Wire "HOL-Library.AList"
begin

text \<open>
  \<open>tss_util/comm/p2p/util.go\<close> (newline framing on a stream) and \<open>tss_util/comm/p2p/manager.go\<close>
  (the stream manager: one open stream per session and peer).  A \<open>network.Stream\<close> of libp2p is an
  opaque handle; what it reads is the sequence of bytes that arrive before it ends.
\<close>

type_synonym stream = nat

subsection \<open>Framing\<close>

text \<open>
  \<open>ReadStream\<close> on the bytes still to arrive: the message and what is left, or the error of
  \<open>ReadString\<close> when the stream ends before a newline.  (The test for an empty \<open>msg\<close> can not
  succeed, since a successful \<open>ReadString\<close> returns the delimiter.)
\<close>

definition ReadStream :: "bytes \<Rightarrow> (bytes \<times> bytes) result" where
  "ReadStream r =
     (case dropWhile (\<lambda>c. c \<noteq> newline) r of
        [] \<Rightarrow> Inl (ExternError ''EOF'')
      | d # rest \<Rightarrow>
          let msg = takeWhile (\<lambda>c. c \<noteq> newline) r @ [d]
          in if msg = [] then Inl (Errorf ''end of stream reached'')
             else Inr (trim_char newline msg, rest))"

text \<open>
  \<open>WriteStream\<close> hands the framed message to a buffered writer and flushes it; \<open>writeString\<close> and
  \<open>flush\<close> are the writer's answers.  The second component is what has been sent when both
  succeed (what a failing writer has sent is not modelled).
\<close>

definition WriteStream :: "(bytes \<Rightarrow> go_error option) \<Rightarrow> (bytes \<Rightarrow> go_error option) \<Rightarrow> bytes \<Rightarrow> go_error option \<times> bytes" where
  "WriteStream writeString flush msg =
     (let framed = msg @ [newline] in
      case writeString framed of
        Some err \<Rightarrow> (Some err, [])
      | None \<Rightarrow> (case flush framed of
            Some err \<Rightarrow> (Some (Errorf ''fail to flush stream''), [])
          | None \<Rightarrow> (None, framed)))"

lemma ReadStream_frame:
  "newline \<notin> set msg \<Longrightarrow> ReadStream (msg @ newline # rest) = Inr (msg, rest)"
proof -
  assume m: "newline \<notin> set msg"
  then have "dropWhile (\<lambda>c. c \<noteq> newline) (msg @ newline # rest) = newline # rest"
    "takeWhile (\<lambda>c. c \<noteq> newline) (msg @ newline # rest) = msg"
    by (induction msg) auto
  with m show ?thesis by (simp add: ReadStream_def trim_char_snoc)
qed

lemma ReadStream_shorter: "ReadStream r = Inr (m, rest) \<Longrightarrow> length rest < length r"
proof -
  assume "ReadStream r = Inr (m, rest)"
  then obtain d where "dropWhile (\<lambda>c. c \<noteq> newline) r = d # rest"
    by (auto simp: ReadStream_def Let_def split: list.splits)
  then have "length (dropWhile (\<lambda>c. c \<noteq> newline) r) = Suc (length rest)" by simp
  then show ?thesis using length_dropWhile_le [of "\<lambda>c. c \<noteq> newline" r] by linarith
qed

lemma ReadStream_no_newline: "newline \<notin> set r \<Longrightarrow> ReadStream r = Inl (ExternError ''EOF'')"
proof -
  assume "newline \<notin> set r"
  then have dw: "dropWhile (\<lambda>c. c \<noteq> newline) r = []" by auto
  show ?thesis unfolding ReadStream_def dw by simp
qed

text \<open>Fact (frame_roundtrip): a message without a newline that is written to a stream is read back
  unchanged at the other end, whatever follows it; on a stream that ends inside a frame, the reader
  gets an error and no message.\<close>

theorem frame_roundtrip:
  assumes "newline \<notin> set msg"
  shows "(case WriteStream (\<lambda>_. None) (\<lambda>_. None) msg of
            (err, sent) \<Rightarrow> err = None \<and> ReadStream (sent @ rest) = Inr (msg, rest)) \<and>
         ReadStream msg = Inl (ExternError ''EOF'')"
  using assms ReadStream_frame [of msg rest]
  by (simp add: WriteStream_def ReadStream_no_newline)

theorem frame_roundtrip_witness:
  "ReadStream (''abc'' @ newline # ''de'') = Inr (''abc'', ''de'')"
proof -
  have "newline \<notin> set ''abc''" by (simp add: newline_def)
  from frame_roundtrip [OF this, of "''de''"] show ?thesis by (simp add: WriteStream_def)
qed

subsection \<open>The stream manager\<close>

type_synonym peer_streams = "(peer_id \<times> stream) list"
type_synonym stream_map = "(session_id \<times> peer_streams) list"

definition NewStreamManager :: stream_map where
  "NewStreamManager = []"

definition session_streams :: "stream_map \<Rightarrow> session_id \<Rightarrow> peer_streams" where
  "session_streams sm sid = (case map_of sm sid of None \<Rightarrow> [] | Some ps \<Rightarrow> ps)"

text \<open>\<open>ReleaseStreams\<close> closes every stream of the session (a failing \<open>Close\<close> is only logged) and
  forgets them; the first component is the streams closed.\<close>

definition ReleaseStreams :: "session_id \<Rightarrow> stream_map \<Rightarrow> stream list \<times> stream_map" where
  "ReleaseStreams sessionID sm =
     (case map_of sm sessionID of
        None \<Rightarrow> ([], sm)
      | Some streams \<Rightarrow> (map snd streams, AList.delete sessionID sm))"

definition AddStream :: "session_id \<Rightarrow> peer_id \<Rightarrow> stream \<Rightarrow> stream_map \<Rightarrow> stream_map" where
  "AddStream sessionID peerID s sm0 =
     (let sm = (if map_of sm0 sessionID = None then AList.update sessionID [] sm0 else sm0)
      in if map_of (session_streams sm sessionID) peerID \<noteq> None then sm
         else AList.update sessionID (AList.update peerID s (session_streams sm sessionID)) sm)"

definition Stream :: "(peer_id \<Rightarrow> string) \<Rightarrow> session_id \<Rightarrow> peer_id \<Rightarrow> stream_map \<Rightarrow> stream result" where
  "Stream pretty sessionID peerID sm =
     (case map_of (session_streams sm sessionID) peerID of
        None \<Rightarrow> Inl (Errorf (''no stream for peerID '' @ pretty peerID))
      | Some s \<Rightarrow> Inr s)"

definition stream_view :: "stream_map \<Rightarrow> (session_id \<times> peer_id) \<Rightarrow> stream option" where
  "stream_view sm k = (case k of (sid, p) \<Rightarrow> map_of (session_streams sm sid) p)"

lemma session_streams_update:
  "session_streams (AList.update sid ps sm) sid' = (if sid' = sid then ps else session_streams sm sid')"
  by (simp add: session_streams_def update_conv')

lemma Stream_view: "Stream pretty sid p sm =
    (case stream_view sm (sid, p) of None \<Rightarrow> Inl (Errorf (''no stream for peerID '' @ pretty p)) | Some s \<Rightarrow> Inr s)"
  by (simp add: Stream_def stream_view_def)

lemma AddStream_view:
  "stream_view (AddStream sid p s sm) =
     (if stream_view sm (sid, p) = None then (stream_view sm)((sid, p) \<mapsto> s) else stream_view sm)"
proof -
  have "map_of sm sid = None \<Longrightarrow> session_streams sm sid = []" by (simp add: session_streams_def)
  then show ?thesis
    by (auto simp: fun_eq_iff stream_view_def AddStream_def Let_def session_streams_update update_conv')
qed

lemma ReleaseStreams_view:
  "stream_view (snd (ReleaseStreams sid sm)) = (\<lambda>k. if fst k = sid then None else stream_view sm k)"
proof -
  have "map_of sm sid = None \<Longrightarrow> session_streams sm sid = []" by (simp add: session_streams_def)
  then show ?thesis
    by (auto simp: fun_eq_iff stream_view_def ReleaseStreams_def session_streams_def delete_conv'
        split: option.split)
qed

lemma ReleaseStreams_closed:
  "fst (ReleaseStreams sid sm) = map snd (session_streams sm sid)"
  by (simp add: ReleaseStreams_def session_streams_def split: option.split)

text \<open>The interface a sender relies on: at most one stream per session and peer, reused until the
  session is closed.\<close>

locale stream_cache =
  fixes add :: "'k \<Rightarrow> 'st \<Rightarrow> 'm \<Rightarrow> 'm"
    and look :: "'k \<Rightarrow> 'm \<Rightarrow> 'st option"
    and release :: "'s \<Rightarrow> 'm \<Rightarrow> 'm"
    and session :: "'k \<Rightarrow> 's"
  assumes look_add: "look k' (add k s m) = (if k' = k \<and> look k m = None then Some s else look k' m)"
    and look_release: "look k (release sid m) = (if session k = sid then None else look k m)"
begin

lemma add_keeps_first: "look k m = Some s \<Longrightarrow> look k (add k s' m) = Some s"
  by (simp add: look_add)

lemma add_other: "k' \<noteq> k \<Longrightarrow> look k' (add k s m) = look k' m"
  by (simp add: look_add)

lemma add_present: "look k (add k s m) \<noteq> None"
  by (simp add: look_add)

lemma released: "session k = sid \<Longrightarrow> look k (release sid m) = None"
  by (simp add: look_release)

lemma release_other: "session k \<noteq> sid \<Longrightarrow> look k (release sid m) = look k m"
  by (simp add: look_release)

end

interpretation streams: stream_cache "\<lambda>(sid, p). AddStream sid p" "\<lambda>k sm. stream_view sm k"
  "\<lambda>sid sm. snd (ReleaseStreams sid sm)" fst
proof
  fix k' k :: "session_id \<times> peer_id" and s :: stream and m :: stream_map
  show "stream_view ((case k of (sid, p) \<Rightarrow> AddStream sid p) s m) k' =
      (if k' = k \<and> stream_view m k = None then Some s else stream_view m k')"
    by (cases k) (simp add: AddStream_view)
next
  fix k :: "session_id \<times> peer_id" and sid :: session_id and m :: stream_map
  show "stream_view (snd (ReleaseStreams sid m)) k = (if fst k = sid then None else stream_view m k)"
    by (simp add: ReleaseStreams_view)
qed

text \<open>Fact (stream_manager_refines): the stream manager is a map from session and peer to a stream;
  adding keeps a stream that is already there, releasing a session closes exactly its streams and
  forgets them, and a lookup fails with the peer's name exactly when there is no stream.\<close>

theorem stream_manager_refines:
  "stream_view (AddStream sid p s sm) =
      (if stream_view sm (sid, p) = None then (stream_view sm)((sid, p) \<mapsto> s) else stream_view sm) \<and>
   stream_view (snd (ReleaseStreams sid sm)) = (\<lambda>k. if fst k = sid then None else stream_view sm k) \<and>
   fst (ReleaseStreams sid sm) = map snd (session_streams sm sid) \<and>
   (Stream pretty sid p sm = (case stream_view sm (sid, p) of
        None \<Rightarrow> Inl (Errorf (''no stream for peerID '' @ pretty p)) | Some s' \<Rightarrow> Inr s'))"
  by (simp add: AddStream_view ReleaseStreams_view ReleaseStreams_closed Stream_view)

end
