(* ===== verification/Subscriptions.thy ===== *)
theory Subscriptions
  imports Messages "HOL-Library.AList"
begin

text \<open>
  \<open>tss_util/comm/p2p/subscription.go\<close>: the session subscription manager, a map from session to
  message type to subscription identifier to channel.  The Go maps are association lists with
  distinct keys (their order stands for the unspecified iteration order); \<open>sub_view\<close> is the
  abstract map they stand for.  Channels are of any type.
\<close>

type_synonym 'c sub_by_id = "(string \<times> 'c) list"
type_synonym 'c sub_by_type = "(message_type \<times> 'c sub_by_id) list"
type_synonym 'c subscribers_map = "(session_id \<times> 'c sub_by_type) list"

definition NewSessionSubscriptionManager :: "'c subscribers_map" where
  "NewSessionSubscriptionManager = []"

text \<open>A nil Go map reads as an empty one.\<close>

definition sub_types :: "'c subscribers_map \<Rightarrow> session_id \<Rightarrow> 'c sub_by_type" where
  "sub_types m sid = (case map_of m sid of None \<Rightarrow> [] | Some tm \<Rightarrow> tm)"

definition sub_chans :: "'c subscribers_map \<Rightarrow> session_id \<Rightarrow> message_type \<Rightarrow> 'c sub_by_id" where
  "sub_chans m sid mt = (case map_of (sub_types m sid) mt of None \<Rightarrow> [] | Some cs \<Rightarrow> cs)"

definition GetSubscribers :: "'c subscribers_map \<Rightarrow> session_id \<Rightarrow> message_type \<Rightarrow> 'c list" where
  "GetSubscribers m sessionID msgType =
     (case map_of (sub_types m sessionID) msgType of
        None \<Rightarrow> []
      | Some subsAsMap \<Rightarrow> map snd subsAsMap)"

definition SubscribeTo ::
  "session_id \<Rightarrow> message_type \<Rightarrow> 64 word \<Rightarrow> 'c \<Rightarrow> 'c subscribers_map \<Rightarrow> string \<times> 'c subscribers_map" where
  "SubscribeTo sessionID msgType now channel m0 =
     (let m1 = (if map_of m0 sessionID = None then AList.update sessionID [] m0 else m0);
          m2 = (if map_of (sub_types m1 sessionID) msgType = None
                then AList.update sessionID (AList.update msgType [] (sub_types m1 sessionID)) m1
                else m1);
          subID = NewSubscriptionID sessionID msgType now;
          cs = AList.update (subID_SubscriptionIdentifier subID) channel (sub_chans m2 sessionID msgType)
      in (subID, AList.update sessionID (AList.update msgType cs (sub_types m2 sessionID)) m2))"

definition UnSubscribeFrom :: "string \<Rightarrow> 'c subscribers_map \<Rightarrow> 'c subscribers_map" where
  "UnSubscribeFrom subscriptionID m =
     (case subID_Unwrap subscriptionID of
        Inl err \<Rightarrow> m
      | Inr (sessionID, msgType, subID) \<Rightarrow>
          if map_of (sub_chans m sessionID msgType) subID = None then m
          else AList.update sessionID
                 (AList.update msgType (AList.delete subID (sub_chans m sessionID msgType))
                    (sub_types m sessionID)) m)"

subsection \<open>The abstract map\<close>

definition sub_view :: "'c subscribers_map \<Rightarrow> (session_id \<times> message_type \<times> string) \<Rightarrow> 'c option" where
  "sub_view m k = (case k of (sid, mt, i) \<Rightarrow> map_of (sub_chans m sid mt) i)"

definition sub_wf :: "'c subscribers_map \<Rightarrow> bool" where
  "sub_wf m \<longleftrightarrow> distinct (map fst m) \<and>
     list_all (\<lambda>(sid, tm). distinct (map fst tm) \<and> list_all (\<lambda>(mt, cs). distinct (map fst cs)) tm) m"

lemma sub_types_update [sub_simps]:
  "sub_types (AList.update sid tm m) sid' = (if sid' = sid then tm else sub_types m sid')"
  by (simp add: sub_types_def update_conv')

lemma sub_chans_update [sub_simps]:
  "sub_chans (AList.update sid (AList.update mt cs (sub_types m sid)) m) sid' mt' =
     (if sid' = sid \<and> mt' = mt then cs else sub_chans m sid' mt')"
  by (simp add: sub_chans_def sub_types_update update_conv')

lemma sub_types_None: "map_of m sid = None \<Longrightarrow> sub_types m sid = []"
  by (simp add: sub_types_def)

lemma sub_chans_None: "map_of (sub_types m sid) mt = None \<Longrightarrow> sub_chans m sid mt = []"
  by (simp add: sub_chans_def)

lemma sub_chans_None_session: "map_of m sid = None \<Longrightarrow> sub_chans m sid mt = []"
  by (simp add: sub_chans_def sub_types_None)

lemma GetSubscribers_chans: "GetSubscribers m sid mt = map snd (sub_chans m sid mt)"
  by (simp add: GetSubscribers_def sub_chans_def split: option.split)

lemma sub_chans_open_session:
  "map_of m sid = None \<Longrightarrow> sub_chans (AList.update sid [] m) sid' mt' = sub_chans m sid' mt'"
  by (simp add: sub_chans_def sub_types_update sub_types_None)

lemma sub_chans_open_type:
  "map_of (sub_types m sid) mt = None \<Longrightarrow>
     sub_chans (AList.update sid (AList.update mt [] (sub_types m sid)) m) sid' mt' = sub_chans m sid' mt'"
  by (simp add: sub_chans_update sub_chans_None)

lemma SubscribeTo_fst [sub_simps]:
  "fst (SubscribeTo sid mt now c m) = NewSubscriptionID sid mt now"
  by (simp add: SubscribeTo_def Let_def)

lemma SubscribeTo_chans [sub_simps]:
  "sub_chans (snd (SubscribeTo sid mt now c m)) sid' mt' =
     (if sid' = sid \<and> mt' = mt
      then AList.update (subID_SubscriptionIdentifier (NewSubscriptionID sid mt now)) c (sub_chans m sid mt)
      else sub_chans m sid' mt')"
  by (auto simp: SubscribeTo_def Let_def sub_chans_update sub_chans_open_session sub_chans_open_type
      sub_types_update sub_chans_None sub_chans_None_session)

lemma UnSubscribeFrom_chans [sub_simps]:
  "sub_chans (UnSubscribeFrom s m) sid' mt' =
     (case subID_Unwrap s of
        Inl e \<Rightarrow> sub_chans m sid' mt'
      | Inr (sid, mt, i) \<Rightarrow>
          if sid' = sid \<and> mt' = mt then AList.delete i (sub_chans m sid mt) else sub_chans m sid' mt')"
  by (auto simp: UnSubscribeFrom_def sub_chans_update map_of_eq_None_iff delete_id split: sum.split)


text \<open>Fact (unsubscribe_refines): unsubscribing removes exactly the subscription the identifier
  names, and does nothing when the identifier cannot be taken apart.\<close>

theorem unsubscribe_refines:
  "sub_view (UnSubscribeFrom s m) =
     (case subID_Unwrap s of Inl err \<Rightarrow> sub_view m | Inr k \<Rightarrow> (sub_view m)(k := None))"
  by (auto simp: fun_eq_iff sub_view_def UnSubscribeFrom_chans delete_conv' split: sum.split)

lemma sub_wf_empty: "sub_wf NewSessionSubscriptionManager"
  by (simp add: sub_wf_def NewSessionSubscriptionManager_def)

lemma sub_wf_types: "sub_wf m \<Longrightarrow> distinct (map fst (sub_types m sid)) \<and>
    list_all (\<lambda>(mt, cs). distinct (map fst cs)) (sub_types m sid)"
  by (fastforce simp: sub_wf_def sub_types_def list_all_iff split: option.split dest: map_of_SomeD)

lemma sub_wf_chans: "sub_wf m \<Longrightarrow> distinct (map fst (sub_chans m sid mt))"
  using sub_wf_types [of m sid]
  by (fastforce simp: sub_chans_def list_all_iff split: option.split dest: map_of_SomeD)

lemma set_AList_update: "set (AList.update k v al) \<subseteq> insert (k, v) (set al)"
  by (induction al) auto

lemma sub_wf_update:
  assumes "sub_wf m" and "distinct (map fst tm)" and "list_all (\<lambda>(mt, cs). distinct (map fst cs)) tm"
  shows "sub_wf (AList.update sid tm m)"
  using assms set_AList_update [of sid tm m]
  by (fastforce simp: sub_wf_def list_all_iff distinct_update)

lemma sub_wf_update_type:
  assumes "sub_wf m" and "distinct (map fst cs)"
  shows "sub_wf (AList.update sid (AList.update mt cs (sub_types m sid)) m)"
proof (rule sub_wf_update [OF assms(1)])
  show "distinct (map fst (AList.update mt cs (sub_types m sid)))"
    using sub_wf_types [OF assms(1)] by (simp add: distinct_update)
  show "list_all (\<lambda>(mt, cs). distinct (map fst cs)) (AList.update mt cs (sub_types m sid))"
    using sub_wf_types [OF assms(1), of sid] set_AList_update [of mt cs "sub_types m sid"] assms(2)
    by (fastforce simp: list_all_iff)
qed

lemma sub_wf_SubscribeTo: "sub_wf m \<Longrightarrow> sub_wf (snd (SubscribeTo sid mt now c m))"
  by (simp add: SubscribeTo_def Let_def sub_wf_update_type sub_wf_update distinct_update sub_wf_chans)

lemma sub_wf_UnSubscribeFrom: "sub_wf m \<Longrightarrow> sub_wf (UnSubscribeFrom s m)"
  by (auto simp: UnSubscribeFrom_def sub_wf_update_type sub_wf_chans distinct_delete split: sum.split)

subsection \<open>The subscription interface\<close>

text \<open>
  What the tss processes and the coordinator rely on when they subscribe on entry and
  unsubscribe on exit.  \<open>key\<close> is the place a subscription is stored at, \<open>unkey\<close> the place an
  identifier leads back to; the interface does not promise that the two agree.
\<close>

locale subscription_bus =
  fixes sub :: "session_id \<Rightarrow> message_type \<Rightarrow> 64 word \<Rightarrow> 'c \<Rightarrow> 's \<Rightarrow> string \<times> 's"
    and unsub :: "string \<Rightarrow> 's \<Rightarrow> 's"
    and view :: "'s \<Rightarrow> 'k \<Rightarrow> 'c option"
    and key :: "session_id \<Rightarrow> message_type \<Rightarrow> 64 word \<Rightarrow> 'k"
    and unkey :: "string \<Rightarrow> 'k option"
  assumes view_sub: "view (snd (sub sid mt now c s)) = (view s)(key sid mt now \<mapsto> c)"
    and view_unsub: "view (unsub i s) = (case unkey i of None \<Rightarrow> view s | Some k \<Rightarrow> (view s)(k := None))"
begin

lemma sub_here: "view (snd (sub sid mt now c s)) (key sid mt now) = Some c"
  by (simp add: view_sub)

lemma sub_elsewhere: "k \<noteq> key sid mt now \<Longrightarrow> view (snd (sub sid mt now c s)) k = view s k"
  by (simp add: view_sub)

lemma unsub_restores:
  assumes "unkey (fst (sub sid mt now c s)) = Some (key sid mt now)" and "view s (key sid mt now) = None"
  shows "view (unsub (fst (sub sid mt now c s)) (snd (sub sid mt now c s))) = view s"
  using assms by (auto simp: view_unsub view_sub)

lemma unsub_lost:
  "unkey i = None \<Longrightarrow> view (unsub i s) = view s"
  by (simp add: view_unsub)

text \<open>Two subscriptions, released in either order, as \<open>waitForStart\<close> uses them.\<close>

lemma unsub_two_restores:
  assumes "unkey i1 = Some k1" "unkey i2 = Some k2" "k1 \<noteq> k2" "view s k1 = None" "view s k2 = None"
    and "view s' = (view s)(k1 \<mapsto> c1, k2 \<mapsto> c2)"
  shows "view (unsub i1 (unsub i2 s')) = view s" "view (unsub i2 (unsub i1 s')) = view s"
  using assms by (auto simp: view_unsub)

end

definition sub_unkey :: "string \<Rightarrow> (session_id \<times> message_type \<times> string) option" where
  "sub_unkey sID = (case subID_Unwrap sID of Inl err \<Rightarrow> None | Inr k \<Rightarrow> Some k)"

definition sub_key :: "session_id \<Rightarrow> message_type \<Rightarrow> 64 word \<Rightarrow> session_id \<times> message_type \<times> string" where
  "sub_key sid mt now = (sid, mt, subID_SubscriptionIdentifier (NewSubscriptionID sid mt now))"

interpretation bus: subscription_bus SubscribeTo UnSubscribeFrom sub_view sub_key sub_unkey
proof
  fix sid mt now and c :: 'c and m :: "'c subscribers_map" and i
  show "sub_view (snd (SubscribeTo sid mt now c m)) = (sub_view m)(sub_key sid mt now \<mapsto> c)"
    by (auto simp: fun_eq_iff sub_view_def sub_key_def SubscribeTo_chans update_conv')
  show "sub_view (UnSubscribeFrom i m) =
      (case sub_unkey i of None \<Rightarrow> sub_view m | Some k \<Rightarrow> (sub_view m)(k := None))"
    by (auto simp: fun_eq_iff sub_unkey_def sub_view_def UnSubscribeFrom_chans delete_conv' split: sum.split)
qed

lemma sub_unkey_New [sub_simps]:
  "mt \<le> UnknownMsg \<Longrightarrow> sub_unkey (NewSubscriptionID sid mt now) =
     (if CHR ''-'' \<in> set sid then None else Some (sub_key sid mt now))"
  by (simp add: sub_unkey_def sub_key_def sub_simps)

lemma GetSubscribers_view:
  "sub_wf m \<Longrightarrow> set (GetSubscribers m sid mt) = {c. \<exists>i. sub_view m (sid, mt, i) = Some c}"
  using sub_wf_chans [of m sid mt]
  by (force simp: GetSubscribers_chans sub_view_def dest: map_of_SomeD)

subsection \<open>Properties\<close>


lemma clean_session:
  assumes "CHR ''-'' \<notin> set sid" and "mt \<le> UnknownMsg" and "sub_view m (sub_key sid mt now) = None"
  shows "sub_view (UnSubscribeFrom (fst (SubscribeTo sid mt now c m)) (snd (SubscribeTo sid mt now c m))) = sub_view m"
proof -
  have "sub_unkey (fst (SubscribeTo sid mt now c m)) = Some (sub_key sid mt now)"
    using assms(1,2) by (simp add: SubscribeTo_fst sub_unkey_New)
  then show ?thesis using assms(3) by (rule bus.unsub_restores)
qed

text \<open>Fact (subscription_lifecycle): for a session whose name has no dash, a subscription delivers
  to its channel until it is released, and releasing it gives back the subscriptions there were,
  when the clock gave it an identifier not yet in use.\<close>

theorem subscription_lifecycle:
  assumes "CHR ''-'' \<notin> set sid" and "mt \<le> UnknownMsg" and "sub_view m (sub_key sid mt now) = None"
  shows "c \<in> set (GetSubscribers (snd (SubscribeTo sid mt now c m)) sid mt) \<and>
    sub_view (UnSubscribeFrom (fst (SubscribeTo sid mt now c m)) (snd (SubscribeTo sid mt now c m))) = sub_view m"
proof
  have "map_of (sub_chans (snd (SubscribeTo sid mt now c m)) sid mt)
      (subID_SubscriptionIdentifier (NewSubscriptionID sid mt now)) = Some c"
    using bus.sub_here [of sid mt now c m] by (simp add: sub_view_def sub_key_def)
  then show "c \<in> set (GetSubscribers (snd (SubscribeTo sid mt now c m)) sid mt)"
    by (force simp: GetSubscribers_chans dest: map_of_SomeD)
  show "sub_view (UnSubscribeFrom (fst (SubscribeTo sid mt now c m)) (snd (SubscribeTo sid mt now c m))) = sub_view m"
    by (rule clean_session [OF assms])
qed

lemma dashed_session:
  assumes "CHR ''-'' \<in> set sid" and "mt \<le> UnknownMsg"
  shows "UnSubscribeFrom (fst (SubscribeTo sid mt now c m)) (snd (SubscribeTo sid mt now c m)) =
           snd (SubscribeTo sid mt now c m) \<and>
         c \<in> set (GetSubscribers (snd (SubscribeTo sid mt now c m)) sid mt) \<and>
         sub_view (snd (SubscribeTo sid mt now' c' (snd (SubscribeTo sid mt now c m)))) =
           (sub_view m)((sid, mt, '''') \<mapsto> c')"
proof (intro conjI)
  show "UnSubscribeFrom (fst (SubscribeTo sid mt now c m)) (snd (SubscribeTo sid mt now c m)) =
      snd (SubscribeTo sid mt now c m)"
    using assms by (simp add: UnSubscribeFrom_def SubscribeTo_fst Unwrap_New_dash)
  have k: "sub_key sid mt t = (sid, mt, '''')" for t
    using assms by (simp add: sub_key_def SubscriptionIdentifier_New)
  show "c \<in> set (GetSubscribers (snd (SubscribeTo sid mt now c m)) sid mt)"
    using bus.sub_here [of sid mt now c m] k [of now]
    by (force simp: GetSubscribers_chans sub_view_def dest: map_of_SomeD)
  show "sub_view (snd (SubscribeTo sid mt now' c' (snd (SubscribeTo sid mt now c m)))) =
      (sub_view m)((sid, mt, '''') \<mapsto> c')"
    by (simp add: bus.view_sub k)
qed

text \<open>Fact (dashed_session_leaks): for a session whose name has a dash (every signing session is
  called \<open>sid-sign-<hash>\<close>), releasing a subscription does nothing: the channel stays subscribed.
  And a second subscription to the same session and message type replaces the first, since both
  are stored under the empty identifier.\<close>

theorem dashed_session_leaks:
  assumes "CHR ''-'' \<in> set sid" and "mt \<le> UnknownMsg"
  shows "UnSubscribeFrom (fst (SubscribeTo sid mt now c m)) (snd (SubscribeTo sid mt now c m)) =
           snd (SubscribeTo sid mt now c m) \<and>
         c \<in> set (GetSubscribers (snd (SubscribeTo sid mt now c m)) sid mt) \<and>
         sub_view (snd (SubscribeTo sid mt now' c' (snd (SubscribeTo sid mt now c m)))) =
           (sub_view m)((sid, mt, '''') \<mapsto> c')"
  by (rule dashed_session [OF assms])


theorem subscription_lifecycle_witness:
  "sub_view (UnSubscribeFrom (fst (SubscribeTo ''keygen'' TssFailMsg 7 (1::nat) NewSessionSubscriptionManager))
     (snd (SubscribeTo ''keygen'' TssFailMsg 7 (1::nat) NewSessionSubscriptionManager))) =
   sub_view (NewSessionSubscriptionManager :: nat subscribers_map)"
proof -
  have "CHR ''-'' \<notin> set ''keygen''" "TssFailMsg \<le> UnknownMsg"
    "sub_view (NewSessionSubscriptionManager :: nat subscribers_map) (sub_key ''keygen'' TssFailMsg 7) = None"
    by (simp_all add: TssFailMsg_def UnknownMsg_def NewSessionSubscriptionManager_def sub_view_def
        sub_chans_def sub_types_def split: prod.split)
  from subscription_lifecycle [OF this] show ?thesis by blast
qed

theorem dashed_session_leaks_witness:
  "(1::nat) \<in> set (GetSubscribers (UnSubscribeFrom
      (fst (SubscribeTo ''sid-sign-00'' TssFailMsg 7 (1::nat) NewSessionSubscriptionManager))
      (snd (SubscribeTo ''sid-sign-00'' TssFailMsg 7 (1::nat) NewSessionSubscriptionManager)))
    ''sid-sign-00'' TssFailMsg)"
proof -
  have "CHR ''-'' \<in> set ''sid-sign-00''" "TssFailMsg \<le> UnknownMsg"
    by (simp_all add: TssFailMsg_def UnknownMsg_def)
  from dashed_session_leaks [OF this, of 7 "1::nat" NewSessionSubscriptionManager] show ?thesis by simp
qed

end
