(* ===== verification/Network.thy ===== *)
theory Network
  imports Streams Subscriptions
begin

text \<open>
  \<open>tss_util/comm/p2p/libp2p.go\<close> (sending, broadcasting, delivering), \<open>tss_util/comm/health.go\<close>,
  \<open>tss_util/jobs/jobs.go\<close> and the relayer counters of \<open>tss_util/metrics/mpc.go\<close>.  libp2p and the
  DNS resolver are the fields of \<open>net_env\<close>: what each call answers at that moment.
\<close>

record net_env =
  ne_resolver :: "go_error option"
  ne_addrs :: "peer_id \<Rightarrow> string list"
  ne_resolve :: "string \<Rightarrow> string list result"
  ne_connect :: "peer_id \<Rightarrow> string list \<Rightarrow> go_error option"
  ne_newStream :: "peer_id \<Rightarrow> stream result"
  ne_writeString :: "stream \<Rightarrow> bytes \<Rightarrow> go_error option"
  ne_flush :: "stream \<Rightarrow> bytes \<Rightarrow> go_error option"

text \<open>
  The state of a \<open>Libp2pCommunication\<close>: the host's identity, the stream manager and the
  subscriptions; \<open>cs_wire\<close> records every byte sequence sent, with its stream, oldest first.
\<close>

record 'c comm_state =
  cs_hostID :: peer_id
  cs_streams :: stream_map
  cs_subs :: "'c subscribers_map"
  cs_wire :: "(stream \<times> bytes) list"

definition NewCommunication :: "peer_id \<Rightarrow> 'c comm_state" where
  "NewCommunication h = \<lparr>cs_hostID = h, cs_streams = NewStreamManager,
     cs_subs = NewSessionSubscriptionManager, cs_wire = []\<rparr>"

definition CloseSession :: "session_id \<Rightarrow> 'c comm_state \<Rightarrow> 'c comm_state" where
  "CloseSession sessionID c = c\<lparr>cs_streams := snd (ReleaseStreams sessionID (cs_streams c))\<rparr>"

definition Subscribe :: "session_id \<Rightarrow> message_type \<Rightarrow> 64 word \<Rightarrow> 'c \<Rightarrow> 'c comm_state \<Rightarrow> string \<times> 'c comm_state" where
  "Subscribe sessionID msgType now channel c =
     (let (subID, m) = SubscribeTo sessionID msgType now channel (cs_subs c)
      in (subID, c\<lparr>cs_subs := m\<rparr>))"

definition UnSubscribe :: "string \<Rightarrow> 'c comm_state \<Rightarrow> 'c comm_state" where
  "UnSubscribe subID c = c\<lparr>cs_subs := UnSubscribeFrom subID (cs_subs c)\<rparr>"

definition resolveDNS :: "net_env \<Rightarrow> (peer_id \<Rightarrow> string) \<Rightarrow> peer_id \<Rightarrow> go_error option" where
  "resolveDNS env pretty peerID =
     (let addrs = ne_addrs env peerID in
      case ne_resolver env of
        Some err \<Rightarrow> Some err
      | None \<Rightarrow>
          if addrs = [] then Some (Errorf (''peer '' @ pretty peerID @ '' has no defined addresses''))
          else case ne_resolve env (hd addrs) of
                 Inl err \<Rightarrow> Some err
               | Inr addr \<Rightarrow> ne_connect env peerID addr)"

definition sendMessage ::
  "net_env \<Rightarrow> (peer_id \<Rightarrow> string) \<Rightarrow> peer_id \<Rightarrow> bytes \<Rightarrow> session_id \<Rightarrow> 'c comm_state \<Rightarrow> go_error option \<times> 'c comm_state" where
  "sendMessage env pretty to msg sessionID c =
     (case resolveDNS env pretty to of
        Some err \<Rightarrow> (Some err, c)
      | None \<Rightarrow>
          (case (case Stream pretty sessionID to (cs_streams c) of
                   Inr s \<Rightarrow> Inr (s, c)
                 | Inl _ \<Rightarrow> (case ne_newStream env to of
                       Inl err \<Rightarrow> Inl err
                     | Inr s \<Rightarrow> Inr (s, c\<lparr>cs_streams := AddStream sessionID to s (cs_streams c)\<rparr>))) of
             Inl err \<Rightarrow> (Some err, c)
           | Inr (s, c1) \<Rightarrow>
               (case WriteStream (ne_writeString env s) (ne_flush env s) msg of
                  (Some err, _) \<Rightarrow> (Some err, c1)
                | (None, sent) \<Rightarrow> (None, c1\<lparr>cs_wire := cs_wire c1 @ [(s, sent)]\<rparr>))))"

text \<open>
  The sends of one broadcast run in goroutines of a pool \<open>WithFirstError\<close>: all of them run, and
  the pool returns the error of the send that failed first.  Sends to different peers share only
  the stream manager, at different keys, so they are taken one after the other, in the order in
  which they complete.
\<close>

fun send_all ::
  "net_env \<Rightarrow> (peer_id \<Rightarrow> string) \<Rightarrow> bytes \<Rightarrow> session_id \<Rightarrow> peer_id list \<Rightarrow> 'c comm_state \<Rightarrow> go_error option \<times> 'c comm_state" where
  "send_all env pretty msg sid [] c = (None, c)"
| "send_all env pretty msg sid (p # ps) c =
     (case sendMessage env pretty p msg sid c of
        (None, c1) \<Rightarrow> send_all env pretty msg sid ps c1
      | (Some err, c1) \<Rightarrow> (Some (CommunicationError p err), snd (send_all env pretty msg sid ps c1)))"

text \<open>\<open>sched\<close> is the completion order of the sends, a reordering of the peers sent to.\<close>

definition Broadcast ::
  "net_env \<Rightarrow> (peer_id \<Rightarrow> string) \<Rightarrow> (json \<Rightarrow> bytes) \<Rightarrow> (peer_id list \<Rightarrow> peer_id list) \<Rightarrow>
   peer_id list \<Rightarrow> bytes \<Rightarrow> message_type \<Rightarrow> session_id \<Rightarrow> 'c comm_state \<Rightarrow> go_error option \<times> 'c comm_state" where
  "Broadcast env pretty print_json sched peers msg msgType sessionID c =
     (let hostID = cs_hostID c;
          wMsg = \<lparr>wm_MessageType = msgType, wm_SessionID = sessionID, wm_Payload = msg, wm_From = hostID\<rparr>
      in case marshal_wrapped print_json wMsg of
           Inl err \<Rightarrow> (Some err, c)
         | Inr marshaledMsg \<Rightarrow>
             send_all env pretty marshaledMsg sessionID (sched (filter (\<lambda>peerID. \<not> hostID = peerID) peers)) c)"

text \<open>
  \<open>ProcessMessagesFromStream\<close>: read, unmarshal, stamp the sender with the peer at the other end of
  the connection, hand a copy to every subscriber; stop at the first error.  The result lists the
  deliveries in order (the goroutines that perform them may reorder what one subscriber sees).
\<close>

function ProcessMessagesFromStream ::
  "(bytes \<Rightarrow> json option) \<Rightarrow> 'c subscribers_map \<Rightarrow> peer_id \<Rightarrow> bytes \<Rightarrow> ('c \<times> wrapped_message) list" where
  "ProcessMessagesFromStream parse_json subs remotePeerID r =
     (case ReadStream r of
        Inl err \<Rightarrow> []
      | Inr (msgBytes, rest) \<Rightarrow>
          (case unmarshal_wrapped parse_json msgBytes of
             Inl err \<Rightarrow> []
           | Inr m \<Rightarrow>
               let wrappedMsg = m\<lparr>wm_From := remotePeerID\<rparr>
               in map (\<lambda>sub. (sub, wrappedMsg)) (GetSubscribers subs (wm_SessionID wrappedMsg) (wm_MessageType wrappedMsg))
                  @ ProcessMessagesFromStream parse_json subs remotePeerID rest))"
  by pat_completeness auto
termination
  by (relation "measure (\<lambda>(_, _, _, r). length r)") (auto simp: ReadStream_shorter)

declare ProcessMessagesFromStream.simps [simp del]

text \<open>The handler the host calls with every incoming stream: it closes the stream when the loop ends (an
  error of \<open>Close\<close> is only logged).\<close>

record incoming_stream =
  is_RemotePeer :: peer_id
  is_bytes :: bytes
  is_closed :: bool

definition StreamHandlerFunc ::
  "(bytes \<Rightarrow> json option) \<Rightarrow> 'c subscribers_map \<Rightarrow> incoming_stream \<Rightarrow> ('c \<times> wrapped_message) list \<times> incoming_stream" where
  "StreamHandlerFunc parse_json subs s =
     (ProcessMessagesFromStream parse_json subs (is_RemotePeer s) (is_bytes s), s\<lparr>is_closed := True\<rparr>)"

subsection \<open>Health check\<close>

text \<open>\<open>err.(*CommunicationError)\<close> panics on any other error.\<close>

fun health_loop ::
  "(peer_id \<Rightarrow> 'c comm_state \<Rightarrow> go_error option \<times> 'c comm_state) \<Rightarrow> peer_id list \<Rightarrow> 'c comm_state \<Rightarrow>
   (go_error list \<times> 'c comm_state) outcome" where
  "health_loop bcast [] c = Returns ([], c)"
| "health_loop bcast (p # ps) c =
     (case bcast p c of
        (None, c1) \<Rightarrow> health_loop bcast ps c1
      | (Some err, c1) \<Rightarrow>
          (case err of
             CommunicationError q e \<Rightarrow>
               (case health_loop bcast ps c1 of
                  Returns (es, c2) \<Rightarrow> Returns (err # es, c2)
                | Panics s \<Rightarrow> Panics s)
           | _ \<Rightarrow> Panics ''interface conversion''))"

definition ExecuteCommHealthCheck ::
  "net_env \<Rightarrow> (peer_id \<Rightarrow> string) \<Rightarrow> (json \<Rightarrow> bytes) \<Rightarrow> (peer_id list \<Rightarrow> peer_id list) \<Rightarrow> peer_id list \<Rightarrow>
   'c comm_state \<Rightarrow> (go_error list \<times> 'c comm_state) outcome" where
  "ExecuteCommHealthCheck env pretty print_json sched peers c =
     (let sessionID = ''health-session'' in
      case health_loop (\<lambda>p. Broadcast env pretty print_json sched [p] [] UnknownMsg sessionID) peers c of
        Returns (errors, c1) \<Rightarrow> Returns (errors, CloseSession sessionID c1)
      | Panics s \<Rightarrow> Panics s)"

fun error_peer :: "go_error \<Rightarrow> peer_id" where
  "error_peer (CommunicationError p e) = p"
| "error_peer _ = ''''"

record mpc_metrics =
  totalRelayerCount :: int
  availableRelayerCount :: int

definition TrackRelayerStatus :: "peer_id list \<Rightarrow> peer_id list \<Rightarrow> mpc_metrics \<Rightarrow> mpc_metrics" where
  "TrackRelayerStatus unavailable all m =
     m\<lparr>totalRelayerCount := int (length all),
       availableRelayerCount := int (length all) - int (length unavailable)\<rparr>"

text \<open>One round of the loop of \<open>StartCommunicationHealthCheckJob\<close>; \<open>peers\<close> is the peerstore.\<close>

definition health_round ::
  "net_env \<Rightarrow> (peer_id \<Rightarrow> string) \<Rightarrow> (json \<Rightarrow> bytes) \<Rightarrow> (peer_id list \<Rightarrow> peer_id list) \<Rightarrow> peer_id list \<Rightarrow>
   'c comm_state \<times> mpc_metrics \<Rightarrow> ('c comm_state \<times> mpc_metrics) outcome" where
  "health_round env pretty print_json sched peers s =
     (case ExecuteCommHealthCheck env pretty print_json sched peers (fst s) of
        Panics e \<Rightarrow> Panics e
      | Returns (communicationErrors, c1) \<Rightarrow>
          Returns (c1, TrackRelayerStatus (map error_peer communicationErrors) peers (snd s)))"

subsection \<open>What one send changes\<close>

abbreviation conn_view :: "'c comm_state \<Rightarrow> (session_id \<times> peer_id) \<Rightarrow> stream option" where
  "conn_view c \<equiv> stream_view (cs_streams c)"

definition send_error ::
  "net_env \<Rightarrow> (peer_id \<Rightarrow> string) \<Rightarrow> bytes \<Rightarrow> session_id \<Rightarrow> 'c comm_state \<Rightarrow> peer_id \<Rightarrow> go_error option" where
  "send_error env pretty msg sid c p = fst (sendMessage env pretty p msg sid c)"

text \<open>The stream a successful send uses.\<close>

definition used_stream :: "net_env \<Rightarrow> session_id \<Rightarrow> 'c comm_state \<Rightarrow> peer_id \<Rightarrow> stream" where
  "used_stream env sid c p = (case conn_view c (sid, p) of Some s \<Rightarrow> s
     | None \<Rightarrow> (case ne_newStream env p of Inr s \<Rightarrow> s | Inl _ \<Rightarrow> 0))"

lemmas send_defs = sendMessage_def Stream_view WriteStream_def

lemma sendMessage_frame:
  "cs_hostID (snd (sendMessage env pr p msg sid c)) = cs_hostID c"
  "cs_subs (snd (sendMessage env pr p msg sid c)) = cs_subs c"
  by (auto simp: send_defs Let_def split: option.split sum.split)

lemma sendMessage_view_other:
  "k \<noteq> (sid, p) \<Longrightarrow> conn_view (snd (sendMessage env pr p msg sid c)) k = conn_view c k"
  by (auto simp: send_defs Let_def AddStream_view split: option.split sum.split)

lemma sendMessage_view_same:
  "conn_view c (sid, p) = Some s \<Longrightarrow> conn_view (snd (sendMessage env pr p msg sid c)) (sid, p) = Some s"
  by (auto simp: send_defs Let_def split: option.split)

lemma send_error_cong:
  "conn_view c (sid, p) = conn_view c' (sid, p) \<Longrightarrow> send_error env pr msg sid c p = send_error env pr msg sid c' p"
  by (auto simp: send_error_def send_defs Let_def split: option.split sum.split)

lemma send_error_after:
  "q \<noteq> p \<Longrightarrow> send_error env pr msg sid (snd (sendMessage env pr p msg sid c)) q = send_error env pr msg sid c q"
  by (rule send_error_cong) (simp add: sendMessage_view_other)

lemma used_stream_after:
  "q \<noteq> p \<Longrightarrow> used_stream env sid (snd (sendMessage env pr p msg sid c)) q = used_stream env sid c q"
  by (simp add: used_stream_def sendMessage_view_other)

lemma sendMessage_wire:
  "cs_wire (snd (sendMessage env pr p msg sid c)) =
     cs_wire c @ (if send_error env pr msg sid c p = None
                  then [(used_stream env sid c p, msg @ [newline])] else [])"
  by (auto simp: send_error_def used_stream_def send_defs Let_def split: option.split sum.split)

subsection \<open>What a broadcast does\<close>

lemma send_all_Cons:
  "send_all env pr msg sid (p # ps) c =
     ((case send_error env pr msg sid c p of
         None \<Rightarrow> fst (send_all env pr msg sid ps (snd (sendMessage env pr p msg sid c)))
       | Some err \<Rightarrow> Some (CommunicationError p err)),
      snd (send_all env pr msg sid ps (snd (sendMessage env pr p msg sid c))))"
  by (auto simp: send_error_def split: prod.split option.split)

lemma send_all_frame:
  "cs_hostID (snd (send_all env pr msg sid ps c)) = cs_hostID c"
  "cs_subs (snd (send_all env pr msg sid ps c)) = cs_subs c"
  by (induction ps arbitrary: c) (simp_all add: send_all_Cons sendMessage_frame del: send_all.simps(2))

lemma send_all_view_other:
  "fst k \<noteq> sid \<or> snd k \<notin> set ps \<Longrightarrow> conn_view (snd (send_all env pr msg sid ps c)) k = conn_view c k"
proof (induction ps arbitrary: c)
  case (Cons p ps)
  then have "k \<noteq> (sid, p)" by auto
  with Cons show ?case by (simp add: send_all_Cons sendMessage_view_other del: send_all.simps(2))
qed simp

lemma send_all_error:
  "distinct ps \<Longrightarrow> fst (send_all env pr msg sid ps c) =
     (case find (\<lambda>p. send_error env pr msg sid c p \<noteq> None) ps of
        None \<Rightarrow> None
      | Some p \<Rightarrow> Some (CommunicationError p (the (send_error env pr msg sid c p))))"
proof (induction ps arbitrary: c)
  case (Cons p ps)
  let ?c1 = "snd (sendMessage env pr p msg sid c)"
  have "send_error env pr msg sid ?c1 q = send_error env pr msg sid c q" if "q \<in> set ps" for q
    using that Cons.prems by (metis distinct.simps(2) send_error_after)
  then have "find (\<lambda>p. send_error env pr msg sid ?c1 p \<noteq> None) ps = find (\<lambda>p. send_error env pr msg sid c p \<noteq> None) ps"
    and "\<And>q. find (\<lambda>p. send_error env pr msg sid c p \<noteq> None) ps = Some q \<Longrightarrow>
           send_error env pr msg sid ?c1 q = send_error env pr msg sid c q"
    by (auto intro: find_cong simp: find_Some_iff)
  with Cons show ?case
    by (auto simp: send_all_Cons simp del: send_all.simps(2) split: option.split)
qed simp

lemma send_all_wire:
  "distinct ps \<Longrightarrow> cs_wire (snd (send_all env pr msg sid ps c)) =
     cs_wire c @ map (\<lambda>p. (used_stream env sid c p, msg @ [newline]))
                   (filter (\<lambda>p. send_error env pr msg sid c p = None) ps)"
proof (induction ps arbitrary: c)
  case (Cons p ps)
  let ?c1 = "snd (sendMessage env pr p msg sid c)"
  have same: "send_error env pr msg sid ?c1 q = send_error env pr msg sid c q"
    "used_stream env sid ?c1 q = used_stream env sid c q" if "q \<in> set ps" for q
    using that Cons.prems by (metis distinct.simps(2) send_error_after, metis distinct.simps(2) used_stream_after Cons.prems that)
  have "filter (\<lambda>p. send_error env pr msg sid ?c1 p = None) ps = filter (\<lambda>p. send_error env pr msg sid c p = None) ps"
    by (rule filter_cong) (simp_all add: same)
  moreover have "map (\<lambda>p. (used_stream env sid ?c1 p, msg @ [newline])) (filter (\<lambda>p. send_error env pr msg sid c p = None) ps)
     = map (\<lambda>p. (used_stream env sid c p, msg @ [newline])) (filter (\<lambda>p. send_error env pr msg sid c p = None) ps)"
    by (simp add: same)
  ultimately show ?case
    using Cons by (simp add: send_all_Cons sendMessage_wire del: send_all.simps(2))
qed simp

subsection \<open>Properties of broadcasting and delivery\<close>

text \<open>The peers a broadcast is sent to: all but the host itself.\<close>

definition broadcast_targets :: "'c comm_state \<Rightarrow> peer_id list \<Rightarrow> peer_id list" where
  "broadcast_targets c peers = filter (\<lambda>p. cs_hostID c \<noteq> p) peers"

definition wire_message :: "(json \<Rightarrow> bytes) \<Rightarrow> bytes \<Rightarrow> message_type \<Rightarrow> session_id \<Rightarrow> bytes" where
  "wire_message print_json msg mt sid =
     print_json (JObj [(''message_type'', JNum (uint mt)), (''message_id'', JStr sid), (''payload'', JStr (b64_encode msg))])"

lemma Broadcast_send_all:
  "Broadcast env pr pj sched peers msg mt sid c =
     send_all env pr (wire_message pj msg mt sid) sid (sched (broadcast_targets c peers)) c"
  by (simp add: Broadcast_def marshal_wrapped_def wire_message_def broadcast_targets_def Let_def)

lemma find_None_iff_all: "find P xs = None \<longleftrightarrow> filter P xs = []"
  by (auto simp: find_None_iff filter_empty_conv)


lemma marshal_wrapped_wire:
  "marshal_wrapped pj m = Inr (wire_message pj (wm_Payload m) (wm_MessageType m) (wm_SessionID m))"
  by (simp add: marshal_wrapped_def wire_message_def)

text \<open>C27 (sender_authenticated): whatever bytes a peer sends, a message is delivered only with that
  peer as its sender, and only to channels subscribed to the message's session and type.\<close>

theorem sender_authenticated:
  assumes "(ch, w) \<in> set (ProcessMessagesFromStream qj subs remote r)"
  shows "wm_From w = remote \<and> ch \<in> set (GetSubscribers subs (wm_SessionID w) (wm_MessageType w))"
  using assms
proof (induction qj subs remote r rule: ProcessMessagesFromStream.induct)
  case (1 qj subs remote r)
  show ?case
  proof (cases "ReadStream r")
    case (Inl e)
    with "1.prems" show ?thesis by (simp add: ProcessMessagesFromStream.simps [of qj subs remote r])
  next
    case (Inr a)
    obtain b rest where a: "a = (b, rest)" by (cases a)
    show ?thesis
    proof (cases "unmarshal_wrapped qj b")
      case (Inl e)
      with Inr a "1.prems" show ?thesis by (simp add: ProcessMessagesFromStream.simps [of qj subs remote r])
    next
      case (Inr m)
      note u = this
      from "1.prems" \<open>ReadStream r = Inr a\<close> a u
      have "(ch, w) \<in> set (map (\<lambda>sub. (sub, m\<lparr>wm_From := remote\<rparr>))
              (GetSubscribers subs (wm_SessionID m) (wm_MessageType m)))
          \<or> (ch, w) \<in> set (ProcessMessagesFromStream qj subs remote rest)"
        by (simp add: ProcessMessagesFromStream.simps [of qj subs remote r] Let_def)
      then show ?thesis
        using "1.IH" [OF \<open>ReadStream r = Inr a\<close> a [symmetric] u refl] by auto
    qed
  qed
qed


text \<open>Fact (stale_stream_sticks): a cached stream whose writes fail stays cached, so every later send
  of the session to that peer fails too; closing the session makes the next send open a new stream.\<close>

theorem stale_stream_sticks:
  assumes "conn_view c (sid, p) = Some s" and "ne_writeString env s (msg @ [newline]) = Some err"
  shows "send_error env pr msg sid c p \<noteq> None \<and>
         conn_view (snd (sendMessage env pr p msg sid c)) (sid, p) = Some s \<and>
         send_error env pr msg sid (snd (sendMessage env pr p msg sid c)) p \<noteq> None \<and>
         conn_view (CloseSession sid c) (sid, p) = None"
proof -
  have bad: "send_error env pr msg sid c' p \<noteq> None" if "conn_view c' (sid, p) = Some s" for c' :: "'a comm_state"
    using that assms(2) by (auto simp: send_error_def send_defs Let_def split: option.split)
  show ?thesis
    using bad assms(1) sendMessage_view_same [OF assms(1)]
    by (simp add: CloseSession_def streams.released)
qed

subsection \<open>Properties of the health check\<close>

lemma Broadcast_one:
  assumes "\<And>xs. mset (sched xs) = mset xs"
  shows "Broadcast env pr pj sched [p] msg mt sid c =
    (if cs_hostID c = p then (None, c)
     else (map_option (CommunicationError p) (send_error env pr (wire_message pj msg mt sid) sid c p),
           snd (sendMessage env pr p (wire_message pj msg mt sid) sid c)))"
proof -
  have s: "sched [] = []" "sched [p] = [p]" using assms [of "[]"] assms [of "[p]"] by simp_all
  then show ?thesis
    by (auto simp: Broadcast_send_all broadcast_targets_def send_error_def split: prod.split option.split)
qed

definition health_message :: "(json \<Rightarrow> bytes) \<Rightarrow> bytes" where
  "health_message pj = wire_message pj [] UnknownMsg ''health-session''"

lemma health_loop_result:
  assumes bc: "\<And>p c. bc p c = (if cs_hostID c = p then (None, c)
     else (map_option (CommunicationError p) (send_error env pr m sid c p), snd (sendMessage env pr p m sid c)))"
  shows "distinct peers \<Longrightarrow> \<exists>c'. health_loop bc peers c =
    Returns (map (\<lambda>p. CommunicationError p (the (send_error env pr m sid c p)))
       (filter (\<lambda>p. send_error env pr m sid c p \<noteq> None) (broadcast_targets c peers)), c')"
proof (induction peers arbitrary: c)
  case Nil
  then show ?case by (simp add: broadcast_targets_def)
next
  case (Cons p ps)
  show ?case
  proof (cases "cs_hostID c = p")
    case True
    then have "health_loop bc (p # ps) c = health_loop bc ps c"
      and "broadcast_targets c (p # ps) = broadcast_targets c ps"
      by (simp_all add: bc broadcast_targets_def)
    then show ?thesis using Cons.IH [of c] Cons.prems by simp
  next
    case False
    let ?c1 = "snd (sendMessage env pr p m sid c)"
    let ?bad = "\<lambda>c q. send_error env pr m sid c q \<noteq> None"
    let ?err = "\<lambda>c q. CommunicationError q (the (send_error env pr m sid c q))"
    have same: "send_error env pr m sid ?c1 q = send_error env pr m sid c q" if "q \<in> set ps" for q
      using that Cons.prems by (metis distinct.simps(2) send_error_after)
    have "broadcast_targets ?c1 ps = broadcast_targets c ps"
      by (simp add: broadcast_targets_def sendMessage_frame)
    moreover have "filter (?bad ?c1) (broadcast_targets c ps) = filter (?bad c) (broadcast_targets c ps)"
      by (rule filter_cong) (auto simp: same broadcast_targets_def)
    moreover have "map (?err ?c1) (filter (?bad c) (broadcast_targets c ps)) =
        map (?err c) (filter (?bad c) (broadcast_targets c ps))"
      by (rule map_cong) (auto simp: same broadcast_targets_def)
    ultimately obtain c' where ih: "health_loop bc ps ?c1 =
        Returns (map (?err c) (filter (?bad c) (broadcast_targets c ps)), c')"
      using Cons.IH [of ?c1] Cons.prems by auto
    have "broadcast_targets c (p # ps) = p # broadcast_targets c ps"
      using False by (simp add: broadcast_targets_def)
    moreover have "bc p c = (map_option (CommunicationError p) (send_error env pr m sid c p), ?c1)"
      using False by (simp add: bc)
    ultimately show ?thesis using ih by (cases "send_error env pr m sid c p") simp_all
  qed
qed

text \<open>C29 (health_reports_failures): a health check never panics, reports one communication error for
  each peer other than the host that could not be sent to and none for the others, closes the
  streams it opened, and the round of the job then counts as available the peers not reported.\<close>

theorem health_reports_failures:
  assumes "\<And>xs. mset (sched xs) = mset xs" and "distinct peers"
  shows "let bad = filter (\<lambda>p. send_error env pr (health_message pj) ''health-session'' c p \<noteq> None)
                     (broadcast_targets c peers) in
    (case ExecuteCommHealthCheck env pr pj sched peers c of
       Panics s \<Rightarrow> False
     | Returns (es, c') \<Rightarrow> map error_peer es = bad \<and> conn_view c' (''health-session'', q) = None) \<and>
    (case health_round env pr pj sched peers (c, mt) of
       Panics s \<Rightarrow> False
     | Returns (c', mt') \<Rightarrow> totalRelayerCount mt' = int (length peers) \<and>
         availableRelayerCount mt' = int (length peers) - int (length bad))"
proof -
  obtain c' where "health_loop (\<lambda>p. Broadcast env pr pj sched [p] [] UnknownMsg ''health-session'') peers c =
    Returns (map (\<lambda>p. CommunicationError p (the (send_error env pr (health_message pj) ''health-session'' c p)))
       (filter (\<lambda>p. send_error env pr (health_message pj) ''health-session'' c p \<noteq> None)
          (broadcast_targets c peers)), c')"
    using health_loop_result [OF Broadcast_one [OF assms(1), where mt = UnknownMsg and msg = "[]" and sid = "''health-session''"] assms(2)]
    unfolding health_message_def by blast
  then show ?thesis
    by (simp add: ExecuteCommHealthCheck_def health_round_def TrackRelayerStatus_def
        CloseSession_def streams.released comp_def Let_def)
qed

subsection \<open>A concrete network\<close>

text \<open>A network in which every call succeeds but writing to the stream of peer \<open>bb\<close>, number 2.\<close>

definition lan_env :: net_env where
  "lan_env = \<lparr>ne_resolver = None, ne_addrs = (\<lambda>_. [''addr'']), ne_resolve = (\<lambda>a. Inr [a]),
     ne_connect = (\<lambda>_ _. None), ne_newStream = (\<lambda>p. Inr (length p)),
     ne_writeString = (\<lambda>s _. if s = 2 then Some (ExternError ''reset'') else None),
     ne_flush = (\<lambda>_ _. None)\<rparr>"

lemma lan_send_error:
  "send_error lan_env pr msg sid (NewCommunication h :: nat comm_state) p =
     (if length p = 2 then Some (ExternError ''reset'') else None)"
  by (simp add: send_error_def send_defs Let_def resolveDNS_def lan_env_def NewCommunication_def
      NewStreamManager_def stream_view_def session_streams_def)


definition lan_subs :: "nat subscribers_map" where
  "lan_subs = snd (SubscribeTo ''s'' TssFailMsg 7 5 NewSessionSubscriptionManager)"

lemma sub_chans_new: "sub_chans NewSessionSubscriptionManager sid mt = []"
  by (simp add: sub_chans_def sub_types_def NewSessionSubscriptionManager_def)

lemma lan_subscribers: "GetSubscribers lan_subs ''s'' TssFailMsg = [5]"
  by (simp add: lan_subs_def GetSubscribers_chans SubscribeTo_chans sub_chans_new)

abbreviation fail_message :: wrapped_message where
  "fail_message \<equiv> \<lparr>wm_MessageType = TssFailMsg, wm_SessionID = ''s'', wm_Payload = [], wm_From = ''evil''\<rparr>"


theorem sender_authenticated_witness:
  "wm_From (snd (hd (ProcessMessagesFromStream unary_parse lan_subs ''peer''
     (wire_message unary_print [] TssFailMsg ''s'' @ [newline])))) = ''peer''"
proof -
  let ?d = "ProcessMessagesFromStream unary_parse lan_subs ''peer'' (wire_message unary_print [] TssFailMsg ''s'' @ [newline])"
  have "?d \<noteq> []"
  proof -
    have "ReadStream (wire_message unary_print [] TssFailMsg ''s'' @ newline # []) =
        Inr (wire_message unary_print [] TssFailMsg ''s'', [])"
      by (rule ReadStream_frame, rule marshal_wrapped_line [OF json_text_ok_unary])
        (use marshal_wrapped_wire [of unary_print fail_message] in simp)
    moreover have "unmarshal_wrapped unary_parse (wire_message unary_print [] TssFailMsg ''s'') =
        Inr (fail_message\<lparr>wm_From := ''''\<rparr>)"
      using wrapped_roundtrip [OF json_text_ok_unary marshal_wrapped_wire, of fail_message] by simp
    ultimately show ?thesis
      by (simp add: ProcessMessagesFromStream.simps [of unary_parse lan_subs "''peer''"
            "wire_message unary_print [] TssFailMsg ''s'' @ [newline]"] lan_subscribers)
  qed
  then have "(fst (hd ?d), snd (hd ?d)) \<in> set ?d" by simp
  then show ?thesis by (rule sender_authenticated [THEN conjunct1])
qed

theorem stale_stream_sticks_witness:
  "send_error lan_env (\<lambda>p. p) ''m'' ''s'' (NewCommunication ''a'' \<lparr>cs_streams := AddStream ''s'' ''bb'' 2 NewStreamManager\<rparr> :: nat comm_state) ''bb'' \<noteq> None"
proof -
  have "conn_view (NewCommunication ''a'' \<lparr>cs_streams := AddStream ''s'' ''bb'' 2 NewStreamManager\<rparr> :: nat comm_state) (''s'', ''bb'') = Some 2"
    by (simp add: AddStream_view) (simp add: stream_view_def session_streams_def NewStreamManager_def)
  moreover have "ne_writeString lan_env 2 (''m'' @ [newline]) = Some (ExternError ''reset'')"
    by (simp add: lan_env_def)
  ultimately show ?thesis by (rule stale_stream_sticks [THEN conjunct1])
qed

theorem health_reports_failures_witness:
  "case ExecuteCommHealthCheck lan_env (\<lambda>p. p) unary_print (\<lambda>xs. xs) [''a'', ''bb'', ''ccc'']
      (NewCommunication ''a'' :: nat comm_state) of
    Panics s \<Rightarrow> False | Returns (es, c') \<Rightarrow> map error_peer es = [''bb'']"
proof -
  have "distinct [''a'', ''bb'', ''ccc'']" by simp
  from health_reports_failures [OF refl this, of lan_env "\<lambda>p. p" unary_print
      "NewCommunication ''a'' :: nat comm_state" "''a''" "\<lparr>totalRelayerCount = 0, availableRelayerCount = 0\<rparr>"]
  show ?thesis
    by (simp add: Let_def lan_send_error broadcast_targets_def split: outcome.splits)
      (simp add: NewCommunication_def split: prod.splits)
qed

end
