(* ===== verification/Keyshares.thy ===== *)
theory Keyshares
  imports Json "HOL-Library.AList"
begin

text \<open>
  The keyshare stores, \<open>tss_util/keyshare/ecdsa.go\<close> and \<open>tss_util/keyshare/frost.go\<close>: a file that
  holds the node's share of the key as JSON, and a mutex that keygen and resharing hold while they
  run.  The file at the store's path is \<open>bytes option\<close> (\<open>None\<close>: it does not exist).
\<close>

type_synonym keyfile = "bytes option"

subsection \<open>The mutex\<close>

text \<open>
  \<open>sync.Mutex\<close>: \<open>Lock\<close> blocks while the mutex is locked (\<open>None\<close>); \<open>Unlock\<close> of a mutex that is not
  locked is a fatal error, which no \<open>recover\<close> catches and which ends the process.
\<close>

definition LockKeyshare :: "bool \<Rightarrow> bool option" where
  "LockKeyshare mu = (if mu then None else Some True)"

definition UnlockKeyshare :: "bool \<Rightarrow> bool outcome" where
  "UnlockKeyshare mu = (if mu then Returns False else Panics ''fatal error: sync: unlock of unlocked mutex'')"

definition frost_LockKeyshare :: "bool \<Rightarrow> bool option" where
  "frost_LockKeyshare mu = (if mu then None else Some True)"

definition frost_UnlockKeyshare :: "bool \<Rightarrow> bool outcome" where
  "frost_UnlockKeyshare mu = (if mu then Returns False else Panics ''fatal error: sync: unlock of unlocked mutex'')"

text \<open>A store is the path of its file and its mutex.\<close>

record keyshare_store =
  ks_path :: string
  ks_mu :: bool

definition NewECDSAKeyshareStore :: "string \<Rightarrow> keyshare_store" where
  "NewECDSAKeyshareStore filePath = \<lparr>ks_path = filePath, ks_mu = False\<rparr>"

definition NewFrostKeyshareStore :: "string \<Rightarrow> keyshare_store" where
  "NewFrostKeyshareStore filePath = \<lparr>ks_path = filePath, ks_mu = False\<rparr>"

subsection \<open>The ECDSA store\<close>

text \<open>The key itself is tss-lib's \<open>LocalPartySaveData\<close>, any type \<open>'k\<close> with its JSON codec.\<close>

record 'k key_codec =
  kc_enc :: "'k \<Rightarrow> json result"
  kc_dec :: "'k decoder"
  kc_zero :: 'k

definition key_codec_ok :: "'k key_codec \<Rightarrow> bool" where
  "key_codec_ok K \<longleftrightarrow> (\<forall>k j cur. kc_enc K k = Inr j \<longrightarrow> kc_dec K cur j = Inr k)"

record 'k ecdsa_keyshare =
  ek_Key :: 'k
  ek_Threshold :: int
  ek_Peers :: "peer_id list"

definition NewECDSAKeyshare :: "'k \<Rightarrow> int \<Rightarrow> peer_id list \<Rightarrow> 'k ecdsa_keyshare" where
  "NewECDSAKeyshare key threshold peers = \<lparr>ek_Key = key, ek_Threshold = threshold, ek_Peers = peers\<rparr>"

text \<open>
  How the operating system answers: the error of \<open>os.OpenFile\<close>, and for \<open>f.Write\<close> what part of the
  data reached the file and with which error.  A write without error is complete.
\<close>

record file_io =
  io_open :: "go_error option"
  io_write :: "bytes \<Rightarrow> bytes \<times> go_error option"

definition file_io_ok :: "file_io \<Rightarrow> bool" where
  "file_io_ok io \<longleftrightarrow> (\<forall>b. snd (io_write io b) = None \<longrightarrow> fst (io_write io b) = b)"

text \<open>
  The common tail of both \<open>StoreKeyshare\<close>s: the file is opened with \<open>O_TRUNC\<close> before the keyshare is
  marshalled, so from then on the previous content is gone.
\<close>

definition store_truncating :: "file_io \<Rightarrow> bytes result \<Rightarrow> keyfile \<Rightarrow> go_error option \<times> keyfile" where
  "store_truncating io marshaled f0 =
     (case io_open io of
        Some err \<Rightarrow> (Some err, f0)
      | None \<Rightarrow>
          (case marshaled of
             Inl err \<Rightarrow> (Some err, Some [])
           | Inr kb \<Rightarrow> (snd (io_write io kb), Some (fst (io_write io kb)))))"

definition ecdsa_marshal :: "'k key_codec \<Rightarrow> (json \<Rightarrow> bytes) \<Rightarrow> (peer_id \<Rightarrow> string) \<Rightarrow> 'k ecdsa_keyshare \<Rightarrow> bytes result" where
  "ecdsa_marshal K print_json pretty keyshare =
     (case kc_enc K (ek_Key keyshare) of
        Inl err \<Rightarrow> Inl err
      | Inr j \<Rightarrow> Inr (print_json (JObj [(''Key'', j), (''Threshold'', JNum (ek_Threshold keyshare)),
                   (''Peers'', JArr (map (enc_peer pretty) (ek_Peers keyshare)))])))"

definition ecdsa_StoreKeyshare ::
  "'k key_codec \<Rightarrow> (json \<Rightarrow> bytes) \<Rightarrow> (peer_id \<Rightarrow> string) \<Rightarrow> file_io \<Rightarrow> 'k ecdsa_keyshare \<Rightarrow> keyfile \<Rightarrow> go_error option \<times> keyfile" where
  "ecdsa_StoreKeyshare K print_json pretty io keyshare f0 =
     store_truncating io (ecdsa_marshal K print_json pretty keyshare) f0"

definition ecdsa_GetKeyshare ::
  "'k key_codec \<Rightarrow> (bytes \<Rightarrow> json option) \<Rightarrow> (string \<Rightarrow> peer_id option) \<Rightarrow> keyfile \<Rightarrow> 'k ecdsa_keyshare result" where
  "ecdsa_GetKeyshare K parse_json decode f =
     (case f of
        None \<Rightarrow> Inl (Errorf ''error on reading keyshare file'')
      | Some kb \<Rightarrow>
          (case (case parse_object parse_json kb of Inl err \<Rightarrow> Inl err
                 | Inr fs \<Rightarrow> (case dec_field (kc_dec K) ''Key'' (kc_zero K) fs of Inl err \<Rightarrow> Inl err
                    | Inr key \<Rightarrow> (case dec_field dec_int ''Threshold'' 0 fs of Inl err \<Rightarrow> Inl err
                       | Inr t \<Rightarrow> (case dec_field (dec_list '''' (dec_peer decode)) ''Peers'' [] fs of Inl err \<Rightarrow> Inl err
                          | Inr ps \<Rightarrow> Inr \<lparr>ek_Key = key, ek_Threshold = t, ek_Peers = ps\<rparr>)))) of
             Inl err \<Rightarrow> Inl (Errorf ''error on unmarshaling keyshare file'')
           | Inr k \<Rightarrow> Inr k))"

subsection \<open>The frost store\<close>

text \<open>\<open>frost.TaprootConfig\<close> with the scalar and point types of the curve library, which come with
  binary codecs; the map of verification shares is an association list.\<close>

record ('sc, 'pt) taproot_config =
  tc_ID :: string
  tc_Threshold :: int
  tc_PrivateShare :: 'sc
  tc_PublicKey :: bytes
  tc_ChainKey :: bytes
  tc_VerificationShares :: "(string \<times> 'pt) list"

record ('sc, 'pt) frost_keyshare =
  fk_Key :: "('sc, 'pt) taproot_config"
  fk_Threshold :: int
  fk_Peers :: "peer_id list"

record ('sc, 'pt) curve_codec =
  cc_sc_marshal :: "'sc \<Rightarrow> bytes result"
  cc_sc_unmarshal :: "bytes \<Rightarrow> 'sc result"
  cc_pt_marshal :: "'pt \<Rightarrow> bytes result"
  cc_pt_unmarshal :: "bytes \<Rightarrow> 'pt result"

definition curve_codec_ok :: "('sc, 'pt) curve_codec \<Rightarrow> bool" where
  "curve_codec_ok C \<longleftrightarrow> (\<forall>s b. cc_sc_marshal C s = Inr b \<longrightarrow> cc_sc_unmarshal C b = Inr s) \<and>
     (\<forall>p b. cc_pt_marshal C p = Inr b \<longrightarrow> cc_pt_unmarshal C b = Inr p)"

definition NewFrostKeyshare :: "('sc, 'pt) taproot_config \<Rightarrow> int \<Rightarrow> peer_id list \<Rightarrow> ('sc, 'pt) frost_keyshare" where
  "NewFrostKeyshare key threshold peers = \<lparr>fk_Key = key, fk_Threshold = threshold, fk_Peers = peers\<rparr>"

text \<open>The JSON form \<open>frostKey\<close>, with scalars and points as bytes.\<close>

record frost_key =
  fkey_ID :: string
  fkey_Threshold :: int
  fkey_PrivateShare :: bytes
  fkey_PublicKey :: bytes
  fkey_ChainKey :: bytes
  fkey_VerificationShares :: "(string \<times> bytes) list"

record frost_keyshare_store =
  fks_Key :: frost_key
  fks_Threshold :: int
  fks_Peers :: "peer_id list"

text \<open>The loops that convert a map entry by entry, filling a new map.\<close>

fun convert_shares :: "('a \<Rightarrow> 'b result) \<Rightarrow> (string \<times> 'b) list \<Rightarrow> (string \<times> 'a) list \<Rightarrow> (string \<times> 'b) list result" where
  "convert_shares conv m [] = Inr m"
| "convert_shares conv m ((i, x) # xs) =
     (case conv x of Inl err \<Rightarrow> Inl err | Inr y \<Rightarrow> convert_shares conv (AList.update i y m) xs)"

definition enc_frost_store :: "(peer_id \<Rightarrow> string) \<Rightarrow> frost_keyshare_store \<Rightarrow> json" where
  "enc_frost_store pretty s = JObj [
     (''Key'', JObj [(''ID'', JStr (fkey_ID (fks_Key s))), (''Threshold'', JNum (fkey_Threshold (fks_Key s))),
        (''PrivateShare'', JStr (b64_encode (fkey_PrivateShare (fks_Key s)))),
        (''PublicKey'', JStr (b64_encode (fkey_PublicKey (fks_Key s)))),
        (''ChainKey'', JStr (b64_encode (fkey_ChainKey (fks_Key s)))),
        (''VerificationShares'', JObj (map (\<lambda>(i, b). (i, JStr (b64_encode b))) (fkey_VerificationShares (fks_Key s))))]),
     (''Threshold'', JNum (fks_Threshold s)),
     (''Peers'', JArr (map (enc_peer pretty) (fks_Peers s)))]"

definition frost_marshal ::
  "('sc, 'pt) curve_codec \<Rightarrow> (json \<Rightarrow> bytes) \<Rightarrow> (peer_id \<Rightarrow> string) \<Rightarrow> ('sc, 'pt) frost_keyshare \<Rightarrow> bytes result" where
  "frost_marshal C print_json pretty keyshare =
     (let key = fk_Key keyshare in
      case cc_sc_marshal C (tc_PrivateShare key) of
        Inl err \<Rightarrow> Inl err
      | Inr privateShareBytes \<Rightarrow>
          (case convert_shares (cc_pt_marshal C) [] (tc_VerificationShares key) of
             Inl err \<Rightarrow> Inl err
           | Inr verificationShares \<Rightarrow>
               Inr (print_json (enc_frost_store pretty
                 \<lparr>fks_Key = \<lparr>fkey_ID = tc_ID key, fkey_Threshold = tc_Threshold key,
                    fkey_PrivateShare = privateShareBytes, fkey_PublicKey = tc_PublicKey key,
                    fkey_ChainKey = tc_ChainKey key, fkey_VerificationShares = verificationShares\<rparr>,
                  fks_Threshold = fk_Threshold keyshare, fks_Peers = fk_Peers keyshare\<rparr>))))"

definition frost_StoreKeyshare ::
  "('sc, 'pt) curve_codec \<Rightarrow> (json \<Rightarrow> bytes) \<Rightarrow> (peer_id \<Rightarrow> string) \<Rightarrow> file_io \<Rightarrow> ('sc, 'pt) frost_keyshare \<Rightarrow> keyfile \<Rightarrow>
   go_error option \<times> keyfile" where
  "frost_StoreKeyshare C print_json pretty io keyshare f0 =
     store_truncating io (frost_marshal C print_json pretty keyshare) f0"

definition dec_byte_map :: "(string \<times> bytes) list decoder" where
  "dec_byte_map cur j = (case j of
      JObj fs \<Rightarrow> convert_shares (dec_bytes '''') [] fs
    | JNull \<Rightarrow> Inr [] | _ \<Rightarrow> Inl json_error)"

definition dec_frost_key :: "frost_key decoder" where
  "dec_frost_key cur j =
     (case json_object j of Inl err \<Rightarrow> Inl err
      | Inr fs \<Rightarrow> (case dec_field dec_string ''ID'' (fkey_ID cur) fs of Inl err \<Rightarrow> Inl err
         | Inr i \<Rightarrow> (case dec_field dec_int ''Threshold'' (fkey_Threshold cur) fs of Inl err \<Rightarrow> Inl err
            | Inr t \<Rightarrow> (case dec_field dec_bytes ''PrivateShare'' (fkey_PrivateShare cur) fs of Inl err \<Rightarrow> Inl err
               | Inr s \<Rightarrow> (case dec_field dec_bytes ''PublicKey'' (fkey_PublicKey cur) fs of Inl err \<Rightarrow> Inl err
                  | Inr p \<Rightarrow> (case dec_field dec_bytes ''ChainKey'' (fkey_ChainKey cur) fs of Inl err \<Rightarrow> Inl err
                     | Inr c \<Rightarrow> (case dec_field dec_byte_map ''VerificationShares'' (fkey_VerificationShares cur) fs of
                          Inl err \<Rightarrow> Inl err
                        | Inr v \<Rightarrow> Inr \<lparr>fkey_ID = i, fkey_Threshold = t, fkey_PrivateShare = s,
                            fkey_PublicKey = p, fkey_ChainKey = c, fkey_VerificationShares = v\<rparr>)))))))"

definition zero_frost_key :: frost_key where
  "zero_frost_key = \<lparr>fkey_ID = '''', fkey_Threshold = 0, fkey_PrivateShare = '''', fkey_PublicKey = '''',
     fkey_ChainKey = '''', fkey_VerificationShares = []\<rparr>"

definition dec_frost_store :: "(string \<Rightarrow> peer_id option) \<Rightarrow> (string \<times> json) list \<Rightarrow> frost_keyshare_store result" where
  "dec_frost_store decode fs =
     (case dec_field dec_frost_key ''Key'' zero_frost_key fs of Inl err \<Rightarrow> Inl err
      | Inr key \<Rightarrow> (case dec_field dec_int ''Threshold'' 0 fs of Inl err \<Rightarrow> Inl err
         | Inr t \<Rightarrow> (case dec_field (dec_list '''' (dec_peer decode)) ''Peers'' [] fs of Inl err \<Rightarrow> Inl err
            | Inr ps \<Rightarrow> Inr \<lparr>fks_Key = key, fks_Threshold = t, fks_Peers = ps\<rparr>)))"

definition frost_GetKeyshare ::
  "('sc, 'pt) curve_codec \<Rightarrow> (bytes \<Rightarrow> json option) \<Rightarrow> (string \<Rightarrow> peer_id option) \<Rightarrow> keyfile \<Rightarrow> ('sc, 'pt) frost_keyshare result" where
  "frost_GetKeyshare C parse_json decode f =
     (case f of
        None \<Rightarrow> Inl (Errorf ''error on reading keyshare file'')
      | Some kb \<Rightarrow>
          (case (case parse_object parse_json kb of Inl err \<Rightarrow> Inl err | Inr fs \<Rightarrow> dec_frost_store decode fs) of
             Inl err \<Rightarrow> Inl (Errorf ''error on unmarshaling keyshare file'')
           | Inr fStore \<Rightarrow>
               (case cc_sc_unmarshal C (fkey_PrivateShare (fks_Key fStore)) of
                  Inl err \<Rightarrow> Inl err
                | Inr privateShare \<Rightarrow>
                    (case convert_shares (cc_pt_unmarshal C) [] (fkey_VerificationShares (fks_Key fStore)) of
                       Inl err \<Rightarrow> Inl err
                     | Inr verificationShares \<Rightarrow>
                         Inr \<lparr>fk_Key = \<lparr>tc_ID = fkey_ID (fks_Key fStore), tc_Threshold = fkey_Threshold (fks_Key fStore),
                                tc_PrivateShare = privateShare, tc_PublicKey = fkey_PublicKey (fks_Key fStore),
                                tc_ChainKey = fkey_ChainKey (fks_Key fStore), tc_VerificationShares = verificationShares\<rparr>,
                              fk_Threshold = fks_Threshold fStore, fk_Peers = fks_Peers fStore\<rparr>))))"

subsection \<open>Converting maps\<close>

lemma AList_update_new: "i \<notin> fst ` set m \<Longrightarrow> AList.update i y m = m @ [(i, y)]"
  by (induction m) auto

lemma convert_shares_list:
  assumes "convert_shares conv m xs = Inr r" and "distinct (map fst m @ map fst xs)"
  shows "\<exists>ys. r = m @ ys \<and> list_all2 (\<lambda>x y. fst x = fst y \<and> conv (snd x) = Inr (snd y)) xs ys"
  using assms
proof (induction xs arbitrary: m)
  case Nil
  then show ?case by simp
next
  case (Cons a xs)
  obtain i x where a: "a = (i, x)" by (cases a)
  with Cons.prems(1) obtain y where y: "conv x = Inr y" "convert_shares conv (AList.update i y m) xs = Inr r"
    by (auto split: sum.splits)
  have "i \<notin> fst ` set m" using Cons.prems(2) a by auto
  then have u: "AList.update i y m = m @ [(i, y)]" by (rule AList_update_new)
  with Cons.IH [of "m @ [(i, y)]"] y Cons.prems(2) a
  obtain ys where "r = (m @ [(i, y)]) @ ys"
    "list_all2 (\<lambda>x y. fst x = fst y \<and> conv (snd x) = Inr (snd y)) xs ys"
    by auto
  then show ?case using a y(1) by (intro exI [of _ "(i, y) # ys"]) simp
qed

lemma convert_shares_back:
  assumes "list_all2 (\<lambda>x y. fst x = fst y \<and> dconv (snd y) = Inr (snd x)) xs ys" and "distinct (map fst m @ map fst ys)"
  shows "convert_shares dconv m ys = Inr (m @ xs)"
  using assms
proof (induction xs ys arbitrary: m rule: list_all2_induct)
  case Nil
  then show ?case by simp
next
  case (Cons x xs y ys)
  have "fst y \<notin> fst ` set m" using Cons.prems by auto
  then have "AList.update (fst y) (snd x) m = m @ [(fst x, snd x)]"
    using Cons.hyps by (simp add: AList_update_new)
  with Cons show ?case by (cases x; cases y) simp
qed

lemma list_all2_fst: "list_all2 (\<lambda>x y. fst x = fst y \<and> P x y) xs ys \<Longrightarrow> map fst xs = map fst ys"
  by (induction rule: list_all2_induct) auto

lemma convert_shares_roundtrip:
  assumes "convert_shares conv [] xs = Inr ys" and "distinct (map fst xs)"
    and dconv: "\<And>x y. conv x = Inr y \<Longrightarrow> dconv y = Inr x"
  shows "convert_shares dconv [] ys = Inr xs" and "distinct (map fst ys)"
proof -
  have l: "list_all2 (\<lambda>x y. fst x = fst y \<and> conv (snd x) = Inr (snd y)) xs ys"
    using convert_shares_list [OF assms(1)] assms(2) by simp
  then have "map fst xs = map fst ys" by (rule list_all2_fst)
  then show d: "distinct (map fst ys)" using assms(2) by metis
  from l have "list_all2 (\<lambda>x y. fst x = fst y \<and> dconv (snd y) = Inr (snd x)) xs ys"
    by (rule list_all2_mono) (auto intro: dconv)
  from convert_shares_back [OF this, of "[]"] d show "convert_shares dconv [] ys = Inr xs" by simp
qed

lemma dec_byte_map_encode:
  assumes "distinct (map fst m)"
  shows "dec_byte_map cur (JObj (map (\<lambda>(i, b). (i, JStr (b64_encode b))) m)) = Inr m"
proof -
  have "list_all2 (\<lambda>x y. fst x = fst y \<and> dec_bytes '''' (snd y) = Inr (snd x)) m
      (map (\<lambda>(i, b). (i, JStr (b64_encode b))) m)"
    by (induction m) (auto simp: dec_bytes_encode)
  moreover have "distinct (map fst ([] :: (string \<times> bytes) list) @ map fst (map (\<lambda>(i, b). (i, JStr (b64_encode b))) m))"
    using assms by (simp add: comp_def split_beta)
  ultimately have "convert_shares (dec_bytes '''') [] (map (\<lambda>(i, b). (i, JStr (b64_encode b))) m) = Inr ([] @ m)"
    by (rule convert_shares_back)
  then show ?thesis by (simp add: dec_byte_map_def)
qed

subsection \<open>The storage interface\<close>

text \<open>
  What keygen, resharing and signing rely on: the keyshare read back is the one stored last.
  \<open>good\<close> are the keyshares the store can hold.
\<close>

locale keyshare_storage =
  fixes store :: "'ks \<Rightarrow> keyfile \<Rightarrow> go_error option \<times> keyfile"
    and get :: "keyfile \<Rightarrow> 'ks result"
    and good :: "'ks \<Rightarrow> bool"
  assumes get_stored: "good k \<Longrightarrow> fst (store k f) = None \<Longrightarrow> get (snd (store k f)) = Inr k"
    and get_missing: "get None = Inl (Errorf ''error on reading keyshare file'')"
begin

lemma get_last_stored:
  "good k2 \<Longrightarrow> fst (store k2 (snd (store k1 f))) = None \<Longrightarrow> get (snd (store k2 (snd (store k1 f)))) = Inr k2"
  by (rule get_stored)

lemma stored_not_missing: "good k \<Longrightarrow> fst (store k f) = None \<Longrightarrow> snd (store k f) \<noteq> None"
  using get_stored [of k f] get_missing by (cases "snd (store k f)") auto

end

definition ecdsa_storable ::
  "'k key_codec \<Rightarrow> (json \<Rightarrow> bytes) \<Rightarrow> (bytes \<Rightarrow> json option) \<Rightarrow> (peer_id \<Rightarrow> string) \<Rightarrow> (string \<Rightarrow> peer_id option) \<Rightarrow>
   file_io \<Rightarrow> 'k ecdsa_keyshare \<Rightarrow> bool" where
  "ecdsa_storable K pj qj pretty decode io k \<longleftrightarrow>
     key_codec_ok K \<and> json_text_ok pj qj \<and> codec_ok pretty decode \<and> file_io_ok io \<and> int64 (ek_Threshold k)"

definition frost_storable ::
  "('sc, 'pt) curve_codec \<Rightarrow> (json \<Rightarrow> bytes) \<Rightarrow> (bytes \<Rightarrow> json option) \<Rightarrow> (peer_id \<Rightarrow> string) \<Rightarrow> (string \<Rightarrow> peer_id option) \<Rightarrow>
   file_io \<Rightarrow> ('sc, 'pt) frost_keyshare \<Rightarrow> bool" where
  "frost_storable C pj qj pretty decode io k \<longleftrightarrow>
     curve_codec_ok C \<and> json_text_ok pj qj \<and> codec_ok pretty decode \<and> file_io_ok io \<and>
     int64 (fk_Threshold k) \<and> int64 (tc_Threshold (fk_Key k)) \<and> distinct (map fst (tc_VerificationShares (fk_Key k)))"

lemma store_truncating_ok:
  assumes "file_io_ok io" and "fst (store_truncating io marshaled f0) = None"
  obtains kb where "marshaled = Inr kb" "snd (store_truncating io marshaled f0) = Some kb"
  using assms by (auto simp: store_truncating_def file_io_ok_def split: option.splits sum.splits)

interpretation ecdsa_store: keyshare_storage "ecdsa_StoreKeyshare K pj pretty io" "ecdsa_GetKeyshare K qj decode"
  "ecdsa_storable K pj qj pretty decode io"
  for K :: "'k key_codec" and pj qj pretty decode io
proof
  fix k :: "'k ecdsa_keyshare" and f
  assume good: "ecdsa_storable K pj qj pretty decode io k" and ok: "fst (ecdsa_StoreKeyshare K pj pretty io k f) = None"
  then have hyps: "key_codec_ok K" "json_text_ok pj qj" "codec_ok pretty decode" "file_io_ok io" "int64 (ek_Threshold k)"
    by (simp_all add: ecdsa_storable_def)
  obtain kb where kb: "ecdsa_marshal K pj pretty k = Inr kb" "snd (ecdsa_StoreKeyshare K pj pretty io k f) = Some kb"
    using store_truncating_ok [OF hyps(4)] ok unfolding ecdsa_StoreKeyshare_def by metis
  then obtain j where j: "kc_enc K (ek_Key k) = Inr j" by (auto simp: ecdsa_marshal_def split: sum.splits)
  then have "\<And>cur. kc_dec K cur j = Inr (ek_Key k)" using hyps(1) by (simp add: key_codec_ok_def)
  with kb j hyps show "ecdsa_GetKeyshare K qj decode (snd (ecdsa_StoreKeyshare K pj pretty io k f)) = Inr k"
    by (auto simp: ecdsa_GetKeyshare_def ecdsa_marshal_def go_std ascii_lower_def int64_def)
next
  show "ecdsa_GetKeyshare K qj decode None = Inl (Errorf ''error on reading keyshare file'')"
    by (simp add: ecdsa_GetKeyshare_def)
qed

lemma frost_marshal_cases:
  assumes "frost_marshal C pj pretty k = Inr kb"
  obtains s v where "cc_sc_marshal C (tc_PrivateShare (fk_Key k)) = Inr s"
    "convert_shares (cc_pt_marshal C) [] (tc_VerificationShares (fk_Key k)) = Inr v"
    "kb = pj (enc_frost_store pretty
       \<lparr>fks_Key = \<lparr>fkey_ID = tc_ID (fk_Key k), fkey_Threshold = tc_Threshold (fk_Key k), fkey_PrivateShare = s,
          fkey_PublicKey = tc_PublicKey (fk_Key k), fkey_ChainKey = tc_ChainKey (fk_Key k), fkey_VerificationShares = v\<rparr>,
        fks_Threshold = fk_Threshold k, fks_Peers = fk_Peers k\<rparr>)"
  using assms by (auto simp: frost_marshal_def Let_def split: sum.splits)

lemma dec_frost_store_encode:
  assumes "json_text_ok pj qj" and "codec_ok pretty decode"
    and "int64 (fks_Threshold s)" and "int64 (fkey_Threshold (fks_Key s))"
    and "distinct (map fst (fkey_VerificationShares (fks_Key s)))"
  shows "(case parse_object qj (pj (enc_frost_store pretty s)) of Inl err \<Rightarrow> Inl err | Inr fs \<Rightarrow> dec_frost_store decode fs) = Inr s"
  using assms
  by (auto simp: enc_frost_store_def dec_frost_store_def dec_frost_key_def go_std ascii_lower_def int64_def
      dec_byte_map_encode)

interpretation frost_store: keyshare_storage "frost_StoreKeyshare C pj pretty io" "frost_GetKeyshare C qj decode"
  "frost_storable C pj qj pretty decode io"
  for C :: "('sc, 'pt) curve_codec" and pj qj pretty decode io
proof
  fix k :: "('sc, 'pt) frost_keyshare" and f
  assume good: "frost_storable C pj qj pretty decode io k" and ok: "fst (frost_StoreKeyshare C pj pretty io k f) = None"
  then have hyps: "curve_codec_ok C" "json_text_ok pj qj" "codec_ok pretty decode" "file_io_ok io"
      "int64 (fk_Threshold k)" "int64 (tc_Threshold (fk_Key k))" "distinct (map fst (tc_VerificationShares (fk_Key k)))"
    by (simp_all add: frost_storable_def)
  obtain kb where kb: "frost_marshal C pj pretty k = Inr kb" "snd (frost_StoreKeyshare C pj pretty io k f) = Some kb"
    using store_truncating_ok [OF hyps(4)] ok unfolding frost_StoreKeyshare_def by metis
  obtain s v where m: "cc_sc_marshal C (tc_PrivateShare (fk_Key k)) = Inr s"
    "convert_shares (cc_pt_marshal C) [] (tc_VerificationShares (fk_Key k)) = Inr v"
    and kb': "kb = pj (enc_frost_store pretty
       \<lparr>fks_Key = \<lparr>fkey_ID = tc_ID (fk_Key k), fkey_Threshold = tc_Threshold (fk_Key k), fkey_PrivateShare = s,
          fkey_PublicKey = tc_PublicKey (fk_Key k), fkey_ChainKey = tc_ChainKey (fk_Key k), fkey_VerificationShares = v\<rparr>,
        fks_Threshold = fk_Threshold k, fks_Peers = fk_Peers k\<rparr>)"
    using kb(1) by (rule frost_marshal_cases)
  have pt: "\<And>x y. cc_pt_marshal C x = Inr y \<Longrightarrow> cc_pt_unmarshal C y = Inr x"
    using hyps(1) by (simp add: curve_codec_ok_def)
  have sc: "cc_sc_unmarshal C s = Inr (tc_PrivateShare (fk_Key k))"
    using hyps(1) m(1) by (simp add: curve_codec_ok_def)
  note v = convert_shares_roundtrip [OF m(2) hyps(7) pt]
  show "frost_GetKeyshare C qj decode (snd (frost_StoreKeyshare C pj pretty io k f)) = Inr k"
    using dec_frost_store_encode [OF hyps(2,3), where s = "\<lparr>fks_Key = \<lparr>fkey_ID = tc_ID (fk_Key k),
          fkey_Threshold = tc_Threshold (fk_Key k), fkey_PrivateShare = s,
          fkey_PublicKey = tc_PublicKey (fk_Key k), fkey_ChainKey = tc_ChainKey (fk_Key k), fkey_VerificationShares = v\<rparr>,
        fks_Threshold = fk_Threshold k, fks_Peers = fk_Peers k\<rparr>"] hyps v sc
    by (simp add: frost_GetKeyshare_def kb kb')
next
  show "frost_GetKeyshare C qj decode None = Inl (Errorf ''error on reading keyshare file'')"
    by (simp add: frost_GetKeyshare_def)
qed

subsection \<open>Properties\<close>

text \<open>Fact (ecdsa_keyshare_roundtrip): an ECDSA keyshare that was stored without an error is what the next
  \<open>GetKeyshare\<close> returns, whatever the file held before.\<close>

theorem ecdsa_keyshare_roundtrip:
  assumes "ecdsa_storable K pj qj pretty decode io k" and "fst (ecdsa_StoreKeyshare K pj pretty io k f0) = None"
  shows "ecdsa_GetKeyshare K qj decode (snd (ecdsa_StoreKeyshare K pj pretty io k f0)) = Inr k"
  by (rule ecdsa_store.get_stored [OF assms])

text \<open>Fact (frost_keyshare_roundtrip): the same for the frost keyshare, whose scalar, points and map of
  verification shares are converted to bytes on the way to the file and back.\<close>

theorem frost_keyshare_roundtrip:
  assumes "frost_storable C pj qj pretty decode io k" and "fst (frost_StoreKeyshare C pj pretty io k f0) = None"
  shows "frost_GetKeyshare C qj decode (snd (frost_StoreKeyshare C pj pretty io k f0)) = Inr k"
  by (rule frost_store.get_stored [OF assms])

lemma GetKeyshare_empty:
  assumes "qj [] = None"
  shows "ecdsa_GetKeyshare K qj decode (Some []) = Inl (Errorf ''error on unmarshaling keyshare file'')"
    and "frost_GetKeyshare C qj decode (Some []) = Inl (Errorf ''error on unmarshaling keyshare file'')"
  using assms by (simp_all add: ecdsa_GetKeyshare_def frost_GetKeyshare_def parse_object_def)

text \<open>C32 (failed_store_loses_keyshare): the file is truncated before the keyshare is marshalled, so a
  keyshare that cannot be marshalled leaves neither the new nor the old keyshare: the error is
  returned and every later \<open>GetKeyshare\<close> fails, whatever the file held.  Only an error of opening
  the file leaves the old keyshare in place.\<close>

theorem failed_store_loses_keyshare:
  assumes "io_open io = None" and "qj [] = None"
    and "ecdsa_marshal K pj pretty k = Inl err" and "frost_marshal C pj pretty k' = Inl err'"
  shows "fst (ecdsa_StoreKeyshare K pj pretty io k f0) = Some err \<and>
    ecdsa_GetKeyshare K qj decode (snd (ecdsa_StoreKeyshare K pj pretty io k f0)) =
      Inl (Errorf ''error on unmarshaling keyshare file'') \<and>
    fst (frost_StoreKeyshare C pj pretty io k' f0') = Some err' \<and>
    frost_GetKeyshare C qj decode (snd (frost_StoreKeyshare C pj pretty io k' f0')) =
      Inl (Errorf ''error on unmarshaling keyshare file'') \<and>
    snd (ecdsa_StoreKeyshare K pj pretty (io\<lparr>io_open := Some e\<rparr>) k f0) = f0"
  using assms
  by (simp add: ecdsa_StoreKeyshare_def frost_StoreKeyshare_def store_truncating_def GetKeyshare_empty)

subsection \<open>Instances of the codecs\<close>

definition nat_key_codec :: "nat key_codec" where
  "nat_key_codec = \<lparr>kc_enc = (\<lambda>n. if n = 0 then Inl (ExternError ''json: unsupported value'') else Inr (JNum (int n))),
     kc_dec = (\<lambda>cur j. case j of JNum n \<Rightarrow> Inr (nat n) | _ \<Rightarrow> Inl json_error), kc_zero = 0\<rparr>"

definition bytes_curve_codec :: "(bytes, bytes) curve_codec" where
  "bytes_curve_codec = \<lparr>cc_sc_marshal = (\<lambda>s. if s = [] then Inl (ExternError ''scalar'') else Inr s), cc_sc_unmarshal = Inr,
     cc_pt_marshal = Inr, cc_pt_unmarshal = Inr\<rparr>"

definition good_io :: file_io where
  "good_io = \<lparr>io_open = None, io_write = (\<lambda>b. (b, None))\<rparr>"

lemma codec_instances:
  "key_codec_ok nat_key_codec" "curve_codec_ok bytes_curve_codec" "file_io_ok good_io"
  by (auto simp: key_codec_ok_def nat_key_codec_def curve_codec_ok_def bytes_curve_codec_def file_io_ok_def good_io_def
      split: if_splits)

definition sample_ecdsa_keyshare :: "nat ecdsa_keyshare" where
  "sample_ecdsa_keyshare = NewECDSAKeyshare 7 1 [''a'', ''b'']"

definition sample_frost_keyshare :: "(bytes, bytes) frost_keyshare" where
  "sample_frost_keyshare = NewFrostKeyshare \<lparr>tc_ID = ''a'', tc_Threshold = 1, tc_PrivateShare = ''s'', tc_PublicKey = ''pk'',
     tc_ChainKey = ''ck'', tc_VerificationShares = [(''a'', ''va''), (''b'', ''vb'')]\<rparr> 1 [''a'', ''b'']"

lemma sample_storable:
  "ecdsa_storable nat_key_codec unary_print unary_parse (\<lambda>p. p) Some good_io sample_ecdsa_keyshare"
  "frost_storable bytes_curve_codec unary_print unary_parse (\<lambda>p. p) Some good_io sample_frost_keyshare"
  using codec_instances json_text_ok_unary codec_ok_id
  by (simp_all add: ecdsa_storable_def frost_storable_def sample_ecdsa_keyshare_def NewECDSAKeyshare_def
      sample_frost_keyshare_def NewFrostKeyshare_def int64_def)

lemma sample_store_ok:
  "fst (ecdsa_StoreKeyshare nat_key_codec unary_print (\<lambda>p. p) good_io sample_ecdsa_keyshare f) = None"
  "fst (frost_StoreKeyshare bytes_curve_codec unary_print (\<lambda>p. p) good_io sample_frost_keyshare f) = None"
  by (simp_all add: ecdsa_StoreKeyshare_def frost_StoreKeyshare_def store_truncating_def good_io_def ecdsa_marshal_def
      frost_marshal_def sample_ecdsa_keyshare_def NewECDSAKeyshare_def sample_frost_keyshare_def NewFrostKeyshare_def
      nat_key_codec_def bytes_curve_codec_def Let_def)

theorem ecdsa_keyshare_roundtrip_witness:
  "ecdsa_GetKeyshare nat_key_codec unary_parse Some
     (snd (ecdsa_StoreKeyshare nat_key_codec unary_print (\<lambda>p. p) good_io sample_ecdsa_keyshare (Some ''old''))) =
   Inr sample_ecdsa_keyshare"
  by (rule ecdsa_keyshare_roundtrip [OF sample_storable(1) sample_store_ok(1)])

theorem frost_keyshare_roundtrip_witness:
  "frost_GetKeyshare bytes_curve_codec unary_parse Some
     (snd (frost_StoreKeyshare bytes_curve_codec unary_print (\<lambda>p. p) good_io sample_frost_keyshare None)) =
   Inr sample_frost_keyshare"
  by (rule frost_keyshare_roundtrip [OF sample_storable(2) sample_store_ok(2)])

theorem failed_store_loses_keyshare_witness:
  "let old = snd (ecdsa_StoreKeyshare nat_key_codec unary_print (\<lambda>p. p) good_io sample_ecdsa_keyshare None);
       nonempty_parse = (\<lambda>b. if b = [] then None else unary_parse b) in
   ecdsa_GetKeyshare nat_key_codec nonempty_parse Some
     (snd (ecdsa_StoreKeyshare nat_key_codec unary_print (\<lambda>p. p) good_io (sample_ecdsa_keyshare\<lparr>ek_Key := 0\<rparr>) old)) =
   Inl (Errorf ''error on unmarshaling keyshare file'')"
proof -
  have "ecdsa_marshal nat_key_codec unary_print (\<lambda>p. p) (sample_ecdsa_keyshare\<lparr>ek_Key := 0\<rparr>) =
      Inl (ExternError ''json: unsupported value'')"
    by (simp add: ecdsa_marshal_def nat_key_codec_def)
  moreover have "frost_marshal bytes_curve_codec unary_print (\<lambda>p. p)
      (NewFrostKeyshare \<lparr>tc_ID = ''a'', tc_Threshold = 1, tc_PrivateShare = '''', tc_PublicKey = '''',
        tc_ChainKey = '''', tc_VerificationShares = []\<rparr> 1 []) = Inl (ExternError ''scalar'')"
    by (simp add: frost_marshal_def bytes_curve_codec_def NewFrostKeyshare_def)
  ultimately show ?thesis
    unfolding Let_def
    by (intro failed_store_loses_keyshare [of good_io, THEN conjunct2, THEN conjunct1]) (simp_all add: good_io_def)
qed

end
