(* ===== verification/Process.thy ===== *)
theory Process
  imports Parties Network Keyshares
begin

text \<open>
  What the tss processes share: the interface \<open>TssProcess\<close> of \<open>tss_util/tss/coordinator.go\<close> as the
  coordinator sees it, the environment the processes run in, and the tasks of
  \<open>tss_util/tss/ecdsa/common/base.go\<close> and \<open>tss_util/tss/frost/common/base.go\<close> that every process
  puts in its pool.
\<close>

subsection \<open>The environment\<close>

text \<open>
  The relayer a process runs on.  \<open>te_broadcast\<close> is the communication's \<open>Broadcast\<close> as the process
  calls it, \<open>te_wait\<close> how conc combines the errors of a pool, \<open>te_keccak\<close> the hash that ranks
  peers; \<open>te_peerstore\<close> is \<open>Host.Peerstore().Peers()\<close>; it contains the host itself when the
  topology names it, which \<open>tss_env_ok\<close> asks for.
\<close>

record 'c tss_env =
  te_print :: "json \<Rightarrow> bytes"
  te_parse :: "bytes \<Rightarrow> json option"
  te_pretty :: "peer_id \<Rightarrow> string"
  te_decode :: "string \<Rightarrow> peer_id option"
  te_keccak :: "bytes \<Rightarrow> bytes"
  te_broadcast :: "peer_id list \<Rightarrow> bytes \<Rightarrow> message_type \<Rightarrow> session_id \<Rightarrow> 'c comm_state \<Rightarrow> go_error option \<times> 'c comm_state"
  te_wait :: "go_error list \<Rightarrow> go_error option"
  te_lib :: tss_lib
  te_hostID :: peer_id
  te_peerstore :: "peer_id list"

definition tss_env_ok :: "'c tss_env \<Rightarrow> bool" where
  "tss_env_ok E \<longleftrightarrow> json_text_ok (te_print E) (te_parse E) \<and> codec_ok (te_pretty E) (te_decode E) \<and>
     wait_ok (te_wait E) \<and> tss_lib_ok (te_lib E) \<and> te_hostID E \<in> set (te_peerstore E)"

abbreviation env_parties :: "'c tss_env \<Rightarrow> peer_id list \<Rightarrow> party_id list" where
  "env_parties E \<equiv> PartiesFromPeers (te_lib E) (te_pretty E)"

subsection \<open>The interface of the coordinator\<close>

record tss_process =
  tp_SessionID :: session_id
  tp_Ready :: "peer_id list \<Rightarrow> peer_id list \<Rightarrow> bool result"
  tp_Retryable :: bool
  tp_StartParams :: "peer_id list \<Rightarrow> bytes"
  tp_ValidCoordinators :: "peer_id list"

text \<open>
  What the coordinator relies on: readiness does not depend on the order in which the peers
  answered, and neither do the start parameters sent to them.  \<open>rankable\<close> are the peer lists that
  the process can put in an order of its own.
\<close>

locale process_contract =
  fixes proc :: tss_process and rankable :: "peer_id list \<Rightarrow> bool"
  assumes ready_perm: "mset ps = mset qs \<Longrightarrow> tp_Ready proc ps ex = tp_Ready proc qs ex"
    and params_perm: "rankable ps \<Longrightarrow> mset ps = mset qs \<Longrightarrow> tp_StartParams proc ps = tp_StartParams proc qs"
begin

lemma ready_snoc: "tp_Ready proc (ps @ [p]) ex = tp_Ready proc (p # ps) ex"
  by (rule ready_perm) simp

lemma params_snoc: "rankable (ps @ [p]) \<Longrightarrow> tp_StartParams proc (ps @ [p]) = tp_StartParams proc (p # ps)"
  by (erule params_perm) simp

end

subsection \<open>The ECDSA pool\<close>

text \<open>
  tss-lib's parties: \<open>pl_params\<close> is \<open>NewParameters\<close> (or \<open>NewReSharingParameters\<close>) and \<open>pl_party\<close>
  \<open>NewLocalParty\<close>, folded into their answers; \<open>pl_start\<close>, \<open>pl_update\<close> and \<open>pl_waitingFor\<close> are the
  methods of the interface \<open>Party\<close>.
\<close>

record 'p party_lib =
  pl_start :: "'p \<Rightarrow> 'p \<times> go_error option"
  pl_update :: "bytes \<Rightarrow> party_id option \<Rightarrow> bool \<Rightarrow> nat \<Rightarrow> 'p \<Rightarrow> ('p \<times> go_error option) outcome"
  pl_waitingFor :: "'p \<Rightarrow> party_id list"

text \<open>The state the goroutines of one run share.\<close>

record ('k, 'p, 'c) ecdsa_run =
  er_base :: base_tss
  er_comm :: "'c comm_state"
  er_party :: 'p
  er_file :: keyfile
  er_results :: "'k option list"  \<comment> \<open>what was sent to the result channel (\<open>None\<close> is nil)\<close>
  er_waitingFor :: "party_id list"

datatype 'k ecdsa_event = OutMsg tss_out | InMsg wrapped_message | EndMsg 'k | Tick

text \<open>Tasks 0 and 1 of every ECDSA process: \<open>ProcessOutboundMessages\<close> and \<open>ProcessInboundMessages\<close>.\<close>

definition outbound_task :: "'c tss_env \<Rightarrow> message_type \<Rightarrow> tss_out \<Rightarrow> ('k, 'p, 'c) ecdsa_run \<Rightarrow> ('k, 'p, 'c) ecdsa_run \<times> task_result" where
  "outbound_task E mt msg s =
     (case outbound_event (te_print E) (te_decode E) (te_broadcast E) (er_base s) mt msg (er_comm s) of
        (c, r) \<Rightarrow> (s\<lparr>er_comm := c\<rparr>, r))"

definition inbound_task :: "'c tss_env \<Rightarrow> 'p party_lib \<Rightarrow> wrapped_message \<Rightarrow> ('k, 'p, 'c) ecdsa_run \<Rightarrow> ('k, 'p, 'c) ecdsa_run \<times> task_result" where
  "inbound_task E P w s =
     (case inbound_event (te_parse E) (te_pretty E) (pl_update P) (er_base s) w (er_party s) of
        (p, r) \<Rightarrow> (s\<lparr>er_party := p\<rparr>, r))"

definition result_continues :: "task_result \<Rightarrow> bool" where
  \<comment> \<open>neither a quiet end nor a cancellation: the task goes on or fails\<close>
  "result_continues r \<longleftrightarrow> (case r of Continue \<Rightarrow> True | Finish e \<Rightarrow> e \<noteq> None | FinishCancel e \<Rightarrow> False)"

lemma result_continues_simps [simp]:
  "result_continues Continue" "result_continues (Finish (Some e))" "\<not> result_continues (Finish None)"
  "\<not> result_continues (FinishCancel r)"
  by (simp_all add: result_continues_def)

lemma outbound_continues: "outbound_task E mt msg s = (s', r) \<Longrightarrow>
    result_continues r \<and> er_file s' = er_file s \<and> er_results s' = er_results s \<and> er_waitingFor s' = er_waitingFor s \<and> er_base s' = er_base s"
  by (auto simp: outbound_task_def outbound_event_def split: prod.splits sum.splits option.splits)

lemma inbound_continues: "inbound_task E P w s = (s', r) \<Longrightarrow>
    result_continues r \<and> er_file s' = er_file s \<and> er_results s' = er_results s \<and> er_waitingFor s' = er_waitingFor s \<and> er_base s' = er_base s"
  by (auto simp: inbound_task_def inbound_event_def split: prod.splits sum.splits option.splits outcome.splits)

text \<open>
  The tasks \<open>Run\<close> puts in its pool, numbered in the order the code starts them: 0 outbound messages,
  1 inbound messages, 2 the end message, 3 (signing only) the monitor.  Each task takes only the
  events of its own channels.
\<close>

definition ecdsa_tasks ::
  "'c tss_env \<Rightarrow> 'p party_lib \<Rightarrow> message_type \<Rightarrow> ('k \<Rightarrow> ('k, 'p, 'c) ecdsa_run \<Rightarrow> ('k, 'p, 'c) ecdsa_run \<times> task_result) \<Rightarrow>
   (('k, 'p, 'c) ecdsa_run \<Rightarrow> ('k, 'p, 'c) ecdsa_run \<times> task_result) \<Rightarrow>
   nat \<Rightarrow> 'k ecdsa_event \<Rightarrow> ('k, 'p, 'c) ecdsa_run \<Rightarrow> ('k, 'p, 'c) ecdsa_run \<times> task_result" where
  "ecdsa_tasks E P mt on_end on_tick t e s =
     (case e of
        OutMsg msg \<Rightarrow> if t = 0 then outbound_task E mt msg s else (s, Continue)
      | InMsg wMsg \<Rightarrow> if t = 1 then inbound_task E P wMsg s else (s, Continue)
      | EndMsg key \<Rightarrow> if t = 2 then on_end key s else (s, Continue)
      | Tick \<Rightarrow> if t = 3 then on_tick s else (s, Continue))"

definition no_monitor :: "('k, 'p, 'c) ecdsa_run \<Rightarrow> ('k, 'p, 'c) ecdsa_run \<times> task_result" where
  "no_monitor s = (s, Continue)"

text \<open>A step is a move of the end task, a move of the monitor, or goes on (or fails) leaving the
  keyshare file and the results alone.\<close>

lemma ecdsa_tasksE:
  assumes "ecdsa_tasks E P mt on_end on_tick t e s = (s', r)"
  obtains (finish) key where "t = 2" "e = EndMsg key" "on_end key s = (s', r)"
  | (tick) "t = 3" "e = Tick" "on_tick s = (s', r)"
  | (message) "result_continues r" "er_file s' = er_file s" "er_results s' = er_results s"
      "er_waitingFor s' = er_waitingFor s" "er_base s' = er_base s"
proof (cases e)
  case (OutMsg x1)
  with assms message show ?thesis
    by (cases "t = 0") (auto simp: ecdsa_tasks_def dest: outbound_continues)
next
  case (InMsg x2)
  with assms message show ?thesis
    by (cases "t = 1") (auto simp: ecdsa_tasks_def dest: inbound_continues)
next
  case (EndMsg x3)
  with assms finish message show ?thesis by (cases "t = 2") (auto simp: ecdsa_tasks_def)
next
  case Tick
  with assms tick message show ?thesis by (cases "t = 3") (auto simp: ecdsa_tasks_def)
qed

text \<open>Keygen and resharing end by storing the new keyshare: then a pool that ends without an error, and
  was not cancelled from outside, has stored one.\<close>

definition stores_end ::
  "('k ecdsa_keyshare \<Rightarrow> keyfile \<Rightarrow> go_error option \<times> keyfile) \<Rightarrow> int \<Rightarrow>
   ('k \<Rightarrow> ('k, 'p, 'c) ecdsa_run \<Rightarrow> ('k, 'p, 'c) ecdsa_run \<times> task_result) \<Rightarrow> bool" where
  "stores_end store t0 on_end \<longleftrightarrow> (\<forall>key s. on_end key s =
     (case store (NewECDSAKeyshare key t0 (bt_Peers (er_base s))) (er_file s) of (err, f) \<Rightarrow> (s\<lparr>er_file := f\<rparr>, FinishCancel err)))"

lemma storing_taskE:
  assumes "stores_end store t0 on_end" and "ecdsa_tasks E P mt on_end no_monitor t e s = (s', r)"
  obtains (stop) key err f where "t = 2" "store (NewECDSAKeyshare key t0 (bt_Peers (er_base s))) (er_file s) = (err, f)"
    "r = FinishCancel err" "s' = s\<lparr>er_file := f\<rparr>"
  | (other) "result_continues r" "er_file s' = er_file s" "er_base s' = er_base s"
  using assms(2)
proof (cases rule: ecdsa_tasksE)
  case (finish key)
  then show ?thesis using stop assms(1) by (auto simp: stores_end_def split: prod.splits)
qed (auto simp: no_monitor_def intro: other)

lemma storing_pool:
  assumes end_ok: "stores_end store t0 on_end"
    and run: "pool_run (ecdsa_tasks E P mt on_end no_monitor) sched (new_pool [0, 1, 2], s) = Some (p, s')"
    and un: "uncancelled sched" and fin: "pool_live p = []" "pool_errs p = []"
  shows "\<exists>key f. store (NewECDSAKeyshare key t0 (bt_Peers (er_base s))) f = (None, er_file s')"
proof -
  let ?S = "\<lambda>x. \<exists>key f. store (NewECDSAKeyshare key t0 (bt_Peers (er_base s))) f = (None, er_file x)"
  let ?Q = "\<lambda>x. er_base x = er_base s \<longrightarrow> ?S x"
  note taskE = storing_taskE [OF end_ok, consumes 1, case_names stop other]
  have "\<And>t e s s' r. ecdsa_tasks E P mt on_end no_monitor t e s = (s', r) \<Longrightarrow> er_base s' = er_base s"
    by (erule taskE) simp_all
  from pool_run_frame [where g = er_base, OF this run] have base: "er_base s' = er_base s" by simp
  have "pool_errs (fst (p, s')) \<noteq> [] \<or> ?Q (snd (p, s'))"
  proof (rule pool_goal_reached [where w = 2 and Q = ?Q, OF _ _ _ run un])
    fix t e s1 s2 r assume "ecdsa_tasks E P mt on_end no_monitor t e s1 = (s2, FinishCancel r)"
    then show "r \<noteq> None \<or> t = 2 \<and> ?Q s2"
    proof (cases rule: taskE)
      case (stop key err f)
      then have "er_base s1 = er_base s \<and> err = None \<longrightarrow> ?S s2"
        by (metis ecdsa_run.select_convs(4) ecdsa_run.surjective ecdsa_run.update_convs(4))
      with stop show ?thesis by auto
    qed auto
  next
    fix e s1 s2 assume "ecdsa_tasks E P mt on_end no_monitor 2 e s1 = (s2, Finish None)"
    then show "?Q s2" by (cases rule: taskE) auto
  next
    fix t e s1 s2 r assume "t \<noteq> 2" "ecdsa_tasks E P mt on_end no_monitor t e s1 = (s2, r)" "?Q s1"
    from this(2,1,3) show "?Q s2" by (cases rule: taskE) auto
  qed (use fin in auto)
  with fin base show ?thesis by simp
qed

subsection \<open>The frost pool\<close>

text \<open>Where the outbound goroutine is: in its \<open>select\<close>, at the send on \<open>Done\<close> (an unbuffered channel) until
  the end task receives, or past it.\<close>

datatype frost_pump = Pumping | SendingDone | DoneTaken

record ('h, 'c) frost_run =
  fr_base :: frost_base
  fr_comm :: "'c comm_state"
  fr_handler :: 'h
  fr_file :: keyfile
  fr_pump :: frost_pump

datatype frost_event = FrostIn wrapped_message | FrostDone | FrostOut "frost_msg option" | FrostSent

record ('h, 'm) frost_lib =
  fl_unmarshal :: "bytes \<Rightarrow> 'm result"
  fl_canAccept :: "'m \<Rightarrow> 'h \<Rightarrow> bool outcome"
  fl_accept :: "'m \<Rightarrow> 'h \<Rightarrow> 'h"

text \<open>Tasks 0 and 2 of every frost process.\<close>

definition frost_inbound_task :: "('h, 'm) frost_lib \<Rightarrow> wrapped_message \<Rightarrow> ('h, 'c, 'x) frost_run_scheme \<Rightarrow> ('h, 'c, 'x) frost_run_scheme \<times> task_result" where
  "frost_inbound_task F w s =
     (case frost_inbound_event (fl_unmarshal F) (fl_canAccept F) (fl_accept F) w (fr_handler s) of
        (h, r) \<Rightarrow> (s\<lparr>fr_handler := h\<rparr>, r))"

definition frost_outbound_task :: "'c tss_env \<Rightarrow> message_type \<Rightarrow> frost_msg option \<Rightarrow> ('h, 'c, 'x) frost_run_scheme \<Rightarrow> ('h, 'c, 'x) frost_run_scheme \<times> task_result" where
  "frost_outbound_task E mt m s =
     (case frost_outbound_event (te_decode E) (te_broadcast E) (fr_base s) mt m (fr_comm s) of
        ((c, d), r) \<Rightarrow> (s\<lparr>fr_comm := c, fr_pump := (if d then SendingDone else fr_pump s)\<rparr>, r))"

text \<open>The pool of a frost process: 0 inbound messages, 1 the end message, 2 outbound messages.  The end
  task receives from \<open>Done\<close> only while the outbound task sends, and only then does the latter go on.\<close>

definition frost_tasks ::
  "'c tss_env \<Rightarrow> ('h, 'm) frost_lib \<Rightarrow> message_type \<Rightarrow>
   (('h, 'c, 'x) frost_run_scheme \<Rightarrow> ('h, 'c, 'x) frost_run_scheme \<times> task_result) \<Rightarrow>
   nat \<Rightarrow> frost_event \<Rightarrow> ('h, 'c, 'x) frost_run_scheme \<Rightarrow> ('h, 'c, 'x) frost_run_scheme \<times> task_result" where
  "frost_tasks E F mt on_done t e s =
     (case e of
        FrostIn wMsg \<Rightarrow> if t = 0 then frost_inbound_task F wMsg s else (s, Continue)
      | FrostDone \<Rightarrow> if t = 1 \<and> fr_pump s = SendingDone then on_done (s\<lparr>fr_pump := DoneTaken\<rparr>) else (s, Continue)
      | FrostOut m \<Rightarrow> if t = 2 \<and> fr_pump s = Pumping then frost_outbound_task E mt m s else (s, Continue)
      | FrostSent \<Rightarrow> if t = 2 \<and> fr_pump s = DoneTaken then (s, Finish None) else (s, Continue))"

text \<open>The outbound task sees the end of its context only in its \<open>select\<close>.\<close>

definition frost_selecting :: "nat \<Rightarrow> ('h, 'c, 'x) frost_run_scheme \<Rightarrow> bool" where
  "frost_selecting t s \<longleftrightarrow> (t = 2 \<longrightarrow> fr_pump s = Pumping)"

abbreviation frost_frame :: "('h, 'c, 'x) frost_run_scheme \<Rightarrow> ('h, 'c, 'x) frost_run_scheme \<Rightarrow> bool" where
  "frost_frame s' s \<equiv> fr_base s' = fr_base s \<and> fr_file s' = fr_file s \<and> frost_run.more s' = frost_run.more s"

lemma frost_inbound_continues: "frost_inbound_task F w s = (s', r) \<Longrightarrow> result_continues r \<and> frost_frame s' s"
  by (auto simp: frost_inbound_task_def frost_inbound_event_def split: prod.splits sum.splits outcome.splits bool.splits)

lemma frost_outbound_continues: "frost_outbound_task E mt m s = (s', r) \<Longrightarrow>
    (result_continues r \<or> r = Finish None) \<and> frost_frame s' s"
  by (auto simp: frost_outbound_task_def frost_outbound_event_def split: prod.splits sum.splits option.splits)

lemma frost_tasksE:
  assumes "frost_tasks E F mt on_done t e s = (s', r)"
  obtains (finish) "t = 1" "fr_pump s = SendingDone" "on_done (s\<lparr>fr_pump := DoneTaken\<rparr>) = (s', r)"
  | (message) "result_continues r \<or> (t = 2 \<and> r = Finish None)" "frost_frame s' s"
proof (cases e)
  case (FrostIn w)
  with assms message show ?thesis
    by (cases "t = 0") (auto simp: frost_tasks_def dest: frost_inbound_continues)
next
  case FrostDone
  with assms finish message show ?thesis by (auto simp: frost_tasks_def split: if_splits)
next
  case (FrostOut m)
  with assms message show ?thesis
    by (cases "t = 2") (auto simp: frost_tasks_def split: if_splits dest: frost_outbound_continues)
next
  case FrostSent
  with assms message show ?thesis by (auto simp: frost_tasks_def split: if_splits)
qed

subsection \<open>When a frost run can return\<close>

text \<open>
  The outbound goroutine sends on \<open>Done\<close> outside its \<open>select\<close>: when the end task has returned before,
  because the context was cancelled, nobody will ever receive.
\<close>

lemma frost_send_stuck:
  assumes "2 \<in> set (pool_live (fst ps))" "1 \<notin> set (pool_live (fst ps))" "fr_pump (snd ps) = SendingDone"
    and "pool_run_at frost_selecting (frost_tasks E F mt on_done) sched ps = Some ps'"
  shows "2 \<in> set (pool_live (fst ps'))"
proof (rule pool_stuck [where P = "\<lambda>s. fr_pump s = SendingDone" and L = "- {1}" and T = UNIV, OF _ _ _ _ assms(1) _ assms(3,4)])
  fix e and s s' :: "('a, 'b, 'c) frost_run_scheme" and r
  assume "fr_pump s = SendingDone" "frost_tasks E F mt on_done 2 e s = (s', r)"
  then show "r = Continue" by (auto simp: frost_tasks_def split: frost_event.splits if_splits)
next
  fix t' e and s s' :: "('a, 'b, 'c) frost_run_scheme" and r
  assume "t' \<in> - {1 :: nat}" "fr_pump s = SendingDone" "frost_tasks E F mt on_done t' e s = (s', r)"
  then show "fr_pump s' = SendingDone"
    by (auto simp: frost_tasks_def frost_inbound_task_def split: frost_event.splits if_splits prod.splits)
qed (use assms(2) in \<open>auto simp: frost_selecting_def\<close>)

text \<open>Otherwise the caller can end the run by cancelling its context.\<close>

lemma frost_drain:
  assumes "2 \<in> set (pool_live p) \<Longrightarrow> fr_pump s = Pumping"
  shows "\<exists>sched ps'. pool_run_at frost_selecting (frost_tasks E F mt on_done) sched (p, s) = Some ps' \<and> pool_live (fst ps') = []"
proof -
  let ?p = "p\<lparr>pool_cancelled := True\<rparr>"
  obtain p' where "pool_run_at frost_selecting (frost_tasks E F mt on_done) (map (\<lambda>t. (t, CtxDone)) (remdups (pool_live ?p))) (?p, s) = Some (p', s)"
    "pool_live p' = []"
    using pool_drains [of ?p frost_selecting s "frost_tasks E F mt on_done"] assms by (auto simp: frost_selecting_def)
  then have "pool_run_at frost_selecting (frost_tasks E F mt on_done) ((0, ParentDone) # map (\<lambda>t. (t, CtxDone)) (remdups (pool_live ?p))) (p, s) = Some (p', s)"
    by (simp add: pool_step_at_def pool_step_def)
  with \<open>pool_live p' = []\<close> show ?thesis by (metis fst_conv)
qed

lemma frost_drain_after:
  assumes "pool_step_at frost_selecting (frost_tasks E F mt on_done) te ps = Some (p, s)"
    and "\<exists>sched ps'. pool_run_at frost_selecting (frost_tasks E F mt on_done) sched (p, s) = Some ps' \<and> pool_live (fst ps') = []"
  shows "\<exists>sched ps'. pool_run_at frost_selecting (frost_tasks E F mt on_done) sched ps = Some ps' \<and> pool_live (fst ps') = []"
proof -
  from assms(2) obtain sched ps' where "pool_run_at frost_selecting (frost_tasks E F mt on_done) sched (p, s) = Some ps'" "pool_live (fst ps') = []"
    by blast
  with assms(1) have "pool_run_at frost_selecting (frost_tasks E F mt on_done) (te # sched) ps = Some ps' \<and> pool_live (fst ps') = []" by simp
  then show ?thesis by blast
qed

lemma frost_can_end:
  assumes "\<And>s s' r. on_done s = (s', r) \<Longrightarrow> fr_pump s' = fr_pump s"
    and "\<not> (2 \<in> set (pool_live p) \<and> 1 \<notin> set (pool_live p) \<and> fr_pump s = SendingDone)"
  shows "\<exists>sched ps'. pool_run_at frost_selecting (frost_tasks E F mt on_done) sched (p, s) = Some ps' \<and> pool_live (fst ps') = []"
proof -
  let ?task = "frost_tasks E F mt on_done"
  have taken: "\<exists>sched ps'. pool_run_at frost_selecting ?task sched (p, s) = Some ps' \<and> pool_live (fst ps') = []"
    if "fr_pump s = DoneTaken" for p s
  proof (cases "2 \<in> set (pool_live p)")
    case True
    have "pool_step_at frost_selecting ?task (2, Event FrostSent) (p, s) = Some (task_done 2 None p, s)"
      using True that by (simp add: pool_step_at_def pool_step_def Let_def frost_tasks_def)
    then show ?thesis by (rule frost_drain_after) (rule frost_drain, simp)
  next
    case False
    then show ?thesis by (intro frost_drain) simp
  qed
  show ?thesis
  proof (cases "2 \<in> set (pool_live p) \<and> fr_pump s = SendingDone")
    case False
    then consider "2 \<in> set (pool_live p) \<Longrightarrow> fr_pump s = Pumping" | "fr_pump s = DoneTaken" by (cases "fr_pump s") auto
    then show ?thesis by cases (rule frost_drain, simp, rule taken)
  next
    case True
    with assms(2) have live: "1 \<in> set (pool_live p)" by simp
    obtain s' r where r: "on_done (s\<lparr>fr_pump := DoneTaken\<rparr>) = (s', r)" by (cases "on_done (s\<lparr>fr_pump := DoneTaken\<rparr>)")
    with assms(1) have "fr_pump s' = DoneTaken" by fastforce
    moreover obtain p' where "pool_step_at frost_selecting ?task (1, Event FrostDone) (p, s) = Some (p', s')"
      using True live r by (cases r) (auto simp: pool_step_at_def pool_step_def Let_def frost_tasks_def)
    ultimately show ?thesis using taken frost_drain_after by blast
  qed
qed

text \<open>The two together, for a run of the pool from its start.\<close>

lemma frost_pool_returns_iff:
  assumes "\<And>s s' r. on_done s = (s', r) \<Longrightarrow> fr_pump s' = fr_pump s"
    and run: "pool_run_at frost_selecting (frost_tasks E F mt on_done) sched (new_pool [0, 1, 2], s) = Some ps"
  shows "(\<exists>sched' r. pool_wait_at frost_selecting we (frost_tasks E F mt on_done) [0, 1, 2] (sched @ sched') s = Some r) \<longleftrightarrow>
    \<not> (2 \<in> set (pool_live (fst ps)) \<and> 1 \<notin> set (pool_live (fst ps)) \<and> fr_pump (snd ps) = SendingDone)"
    (is "?L \<longleftrightarrow> \<not> ?stuck")
proof
  assume ?L
  then obtain sched' r where wait: "pool_wait_at frost_selecting we (frost_tasks E F mt on_done) [0, 1, 2] (sched @ sched') s = Some r" by blast
  show "\<not> ?stuck"
  proof
    assume ?stuck
    have "pool_wait_at frost_selecting we (frost_tasks E F mt on_done) [0, 1, 2] (sched @ sched') s = None"
      by (rule pool_wait_at_stuck [OF run]) (use \<open>?stuck\<close> frost_send_stuck [of ps] in blast)
    with wait show False by simp
  qed
next
  assume "\<not> ?stuck"
  then have "\<exists>sched' ps'. pool_run_at frost_selecting (frost_tasks E F mt on_done) sched' (fst ps, snd ps) = Some ps' \<and> pool_live (fst ps') = []"
    by (intro frost_can_end assms(1))
  then obtain sched' ps' where "pool_run_at frost_selecting (frost_tasks E F mt on_done) sched' ps = Some ps'" "pool_live (fst ps') = []" by auto
  with run show ?L by (auto simp: pool_wait_at_def pool_run_at_append split_beta intro!: exI [of _ sched'])
qed

subsection \<open>A relayer for the witnesses\<close>

definition sample_env :: "nat tss_env" where
  "sample_env = \<lparr>te_print = unary_print, te_parse = unary_parse, te_pretty = (\<lambda>p. p), te_decode = Some,
     te_keccak = (\<lambda>b. b), te_broadcast = (\<lambda>peers msg mt sid c. (None, c)), te_wait = first_error,
     te_lib = plain_tss_lib, te_hostID = ''aaaaaaa1'', te_peerstore = [''aaaaaaa1'', ''aaaaaaa2'', ''aaaaaaa3'']\<rparr>"

definition sample_party :: "party_id list party_lib" where
  "sample_party = \<lparr>pl_start = (\<lambda>p. (p, None)), pl_update = (\<lambda>b from bc n p. Returns (p, None)), pl_waitingFor = (\<lambda>p. p)\<rparr>"

lemma sample_env_simps [simp]:
  "te_print sample_env = unary_print" "te_parse sample_env = unary_parse" "te_pretty sample_env = (\<lambda>p. p)"
  "te_decode sample_env = Some" "te_keccak sample_env = (\<lambda>b. b)" "te_wait sample_env = first_error"
  "te_broadcast sample_env peers msg mt sid c = (None, c)"
  "te_lib sample_env = plain_tss_lib" "te_hostID sample_env = ''aaaaaaa1''"
  "te_peerstore sample_env = [''aaaaaaa1'', ''aaaaaaa2'', ''aaaaaaa3'']"
  by (simp_all add: sample_env_def)

lemma sample_party_simps [simp]:
  "pl_start sample_party p = (p, None)" "pl_update sample_party b from bc n p = Returns (p, None)"
  "pl_waitingFor sample_party p = p"
  by (simp_all add: sample_party_def)

lemma sample_env_ok: "tss_env_ok sample_env"
  using json_text_ok_unary codec_ok_id wait_ok_first_error plain_tss_lib_ok by (simp add: tss_env_ok_def)

end
