(* ===== verification/EcdsaKeygen.thy ===== *)
theory EcdsaKeygen
  imports Process
begin

text \<open>
  ECDSA key generation, \<open>tss_util/tss/ecdsa/keygen/keygen.go\<close>.  \<open>Keygen_Run\<close> is \<open>Run\<close>: its set-up
  takes the keyshare lock (and blocks, \<open>None\<close>, while another process holds it), creates the party
  and subscribes; then the party is started and the pool's tasks play a schedule.
\<close>

record keygen =
  kg_base :: base_tss
  kg_threshold :: int
  kg_subscriptionID :: string

definition NewKeygen :: "'c tss_env \<Rightarrow> session_id \<Rightarrow> int \<Rightarrow> keygen" where
  "NewKeygen E sessionID threshold =
     \<lparr>kg_base = \<lparr>bt_SID = sessionID, bt_PartyStore = (\<lambda>_. None), bt_Peers = te_peerstore E\<rparr>,
      kg_threshold = threshold, kg_subscriptionID = ''''\<rparr>"

text \<open>\<open>new_params\<close> and \<open>new_party\<close> are tss-lib's \<open>NewParameters\<close> and keygen's \<open>NewLocalParty\<close>; the
  answer is the party or the error \<open>Run\<close> returns at once.\<close>

definition Keygen_setup ::
  "'c tss_env \<Rightarrow> (party_id list \<Rightarrow> party_id option \<Rightarrow> nat \<Rightarrow> int \<Rightarrow> 'q result) \<Rightarrow> ('q \<Rightarrow> nat \<Rightarrow> 'p result) \<Rightarrow>
   64 word \<Rightarrow> 'c \<Rightarrow> keygen \<Rightarrow> 'c comm_state \<Rightarrow> bool \<Rightarrow> ('p result \<times> keygen \<times> 'c comm_state \<times> bool) option" where
  "Keygen_setup E new_params new_party now msgChn k c mu =
     (case LockKeyshare mu of
        None \<Rightarrow> None
      | Some mu1 \<Rightarrow>
          (let parties = env_parties E (te_peerstore E);
               b = (kg_base k)\<lparr>bt_PartyStore := PopulatePartyStore parties (bt_PartyStore (kg_base k))\<rparr>;
               k1 = k\<lparr>kg_base := b\<rparr>
           in case new_params parties (bt_PartyStore b (te_pretty E (te_hostID E))) (length parties) (kg_threshold k) of
                Inl err \<Rightarrow> Some (Inl err, k1, c, mu1)
              | Inr tssParams \<Rightarrow>
                  (let (subID, c1) = Subscribe (bt_SID b) TssKeyGenMsg now msgChn c;
                       k2 = k1\<lparr>kg_subscriptionID := subID\<rparr>
                   in Some (new_party tssParams (big_set_bytes (bt_SID b)), k2, c1, mu1))))"

definition keygen_processEndMessage ::
  "('k ecdsa_keyshare \<Rightarrow> keyfile \<Rightarrow> go_error option \<times> keyfile) \<Rightarrow> int \<Rightarrow> 'k \<Rightarrow> ('k, 'p, 'c) ecdsa_run \<Rightarrow>
   ('k, 'p, 'c) ecdsa_run \<times> task_result" where
  "keygen_processEndMessage store threshold key s =
     (let keyshare = NewECDSAKeyshare key threshold (bt_Peers (er_base s))
      in case store keyshare (er_file s) of
           (Some err, f) \<Rightarrow> (s\<lparr>er_file := f\<rparr>, FinishCancel (Some err))
         | (None, f) \<Rightarrow> (s\<lparr>er_file := f\<rparr>, FinishCancel None))"

definition keygen_task ::
  "'c tss_env \<Rightarrow> 'p party_lib \<Rightarrow> ('k ecdsa_keyshare \<Rightarrow> keyfile \<Rightarrow> go_error option \<times> keyfile) \<Rightarrow> int \<Rightarrow>
   nat \<Rightarrow> 'k ecdsa_event \<Rightarrow> ('k, 'p, 'c) ecdsa_run \<Rightarrow> ('k, 'p, 'c) ecdsa_run \<times> task_result" where
  "keygen_task E P store threshold =
     ecdsa_tasks E P TssKeyGenMsg (keygen_processEndMessage store threshold) no_monitor"

text \<open>\<open>Run\<close>: \<open>None\<close> when it has not returned (blocked on the lock, or a task of the pool still runs).\<close>

definition Keygen_Run ::
  "'c tss_env \<Rightarrow> (party_id list \<Rightarrow> party_id option \<Rightarrow> nat \<Rightarrow> int \<Rightarrow> 'q result) \<Rightarrow> ('q \<Rightarrow> nat \<Rightarrow> 'p result) \<Rightarrow> 'p party_lib \<Rightarrow>
   ('k ecdsa_keyshare \<Rightarrow> keyfile \<Rightarrow> go_error option \<times> keyfile) \<Rightarrow> 64 word \<Rightarrow> 'c \<Rightarrow>
   (nat \<times> 'k ecdsa_event task_event) list \<Rightarrow> keygen \<Rightarrow> 'c comm_state \<Rightarrow> bool \<Rightarrow> keyfile \<Rightarrow>
   (go_error option \<times> keygen \<times> 'c comm_state \<times> bool \<times> keyfile) option" where
  "Keygen_Run E new_params new_party P store now msgChn sched k c mu f =
     (case Keygen_setup E new_params new_party now msgChn k c mu of
        None \<Rightarrow> None
      | Some (Inl err, k1, c1, mu1) \<Rightarrow> Some (Some err, k1, c1, mu1, f)
      | Some (Inr party, k1, c1, mu1) \<Rightarrow>
          (case pl_start P party of
             (party1, Some tssError) \<Rightarrow> Some (Some tssError, k1, c1, mu1, f)
           | (party1, None) \<Rightarrow>
               (case pool_wait (te_wait E) (keygen_task E P store (kg_threshold k1)) [0, 1, 2] sched
                       \<lparr>er_base = kg_base k1, er_comm = c1, er_party = party1, er_file = f, er_results = [], er_waitingFor = []\<rparr> of
                  None \<Rightarrow> None
                | Some (r, s) \<Rightarrow> Some (r, k1, er_comm s, mu1, er_file s))))"

definition Keygen_Stop :: "keygen \<Rightarrow> 'c comm_state \<Rightarrow> bool \<Rightarrow> ('c comm_state \<times> bool) outcome" where
  "Keygen_Stop k c mu =
     (let c1 = UnSubscribe (kg_subscriptionID k) c in
      case UnlockKeyshare mu of Panics e \<Rightarrow> Panics e | Returns mu1 \<Rightarrow> Returns (c1, mu1))"

definition Keygen_Ready :: "peer_id list \<Rightarrow> peer_id list \<Rightarrow> peer_id list \<Rightarrow> bool result" where
  "Keygen_Ready peerstore readyPeers excludedPeers =
     (if length excludedPeers > 0 then Inl (Errorf ''error'')
      else Inr (length readyPeers = length peerstore))"

definition Keygen_ValidCoordinators :: "peer_id list \<Rightarrow> peer_id list" where
  "Keygen_ValidCoordinators peerstore = peerstore"

definition Keygen_StartParams :: "peer_id list \<Rightarrow> bytes" where
  "Keygen_StartParams readyPeers = []"

definition Keygen_Retryable :: bool where
  "Keygen_Retryable = False"

definition keygen_process :: "'c tss_env \<Rightarrow> keygen \<Rightarrow> tss_process" where
  "keygen_process E k = \<lparr>tp_SessionID = bt_SID (kg_base k), tp_Ready = Keygen_Ready (te_peerstore E),
     tp_Retryable = Keygen_Retryable, tp_StartParams = Keygen_StartParams,
     tp_ValidCoordinators = Keygen_ValidCoordinators (te_peerstore E)\<rparr>"

interpretation keygen_proc: process_contract "keygen_process E k" "\<lambda>ps. True"
  for E :: "'c tss_env" and k
  by unfold_locales (auto simp: keygen_process_def Keygen_Ready_def Keygen_StartParams_def dest: mset_eq_length)

subsection \<open>What a run does\<close>

lemma keygen_stores: "stores_end store t0 (keygen_processEndMessage store t0)"
  by (auto simp: stores_end_def keygen_processEndMessage_def Let_def split: prod.split option.split)

lemma Keygen_setup_Some:
  assumes "Keygen_setup E new_params new_party now msgChn k c mu = Some (r, k1, c1, mu1)"
  shows "\<not> mu" and "mu1" and "kg_threshold k1 = kg_threshold k" and "bt_Peers (kg_base k1) = bt_Peers (kg_base k)"
    and "bt_SID (kg_base k1) = bt_SID (kg_base k)"
  using assms by (auto simp: Keygen_setup_def LockKeyshare_def Let_def split: if_splits sum.splits prod.splits)

lemma Keygen_RunE:
  assumes "Keygen_Run E new_params new_party P store now msgChn sched k c mu f = Some (r, k1, c1, mu1, f1)"
  obtains (early) err pr where "r = Some err" "f1 = f" "Keygen_setup E new_params new_party now msgChn k c mu = Some (pr, k1, c1, mu1)"
  | (pool) party c0 s where "Keygen_setup E new_params new_party now msgChn k c mu = Some (Inr party, k1, c0, mu1)"
      "pool_wait (te_wait E) (keygen_task E P store (kg_threshold k1)) [0, 1, 2] sched
         \<lparr>er_base = kg_base k1, er_comm = c0, er_party = fst (pl_start P party), er_file = f, er_results = [], er_waitingFor = []\<rparr>
       = Some (r, s)" "c1 = er_comm s" "f1 = er_file s"
  using assms by (auto simp: Keygen_Run_def split: option.splits sum.splits prod.splits)

subsection \<open>Properties\<close>

text \<open>C14 (keygen_success_stores): when key generation returns without an error and was not cancelled by
  its caller, the keyshare file holds a generated key with the requested threshold and the peers
  of the keygen, and the next process that reads the keyshare gets it.\<close>

theorem keygen_success_stores:
  assumes "wait_ok (te_wait E)" and "uncancelled sched"
    and "Keygen_Run E new_params new_party P (ecdsa_StoreKeyshare K (te_print E) (te_pretty E) io) now msgChn sched k c mu f = Some (None, k1, c1, mu1, f1)"
    and "\<And>key. ecdsa_storable K (te_print E) (te_parse E) (te_pretty E) (te_decode E) io
           (NewECDSAKeyshare key (kg_threshold k) (bt_Peers (kg_base k)))"
  shows "\<exists>key. ecdsa_GetKeyshare K (te_parse E) (te_decode E) f1 =
           Inr (NewECDSAKeyshare key (kg_threshold k) (bt_Peers (kg_base k)))"
  using assms(3)
proof (cases rule: Keygen_RunE)
  case (pool party c0 s)
  note su = Keygen_setup_Some(3,4) [OF pool(1)]
  from pool_wait_nil [OF assms(1) pool(2)] obtain p where
    run: "pool_run (keygen_task E P (ecdsa_StoreKeyshare K (te_print E) (te_pretty E) io) (kg_threshold k1)) sched
      (new_pool [0, 1, 2], \<lparr>er_base = kg_base k1, er_comm = c0, er_party = fst (pl_start P party), er_file = f,
        er_results = [], er_waitingFor = []\<rparr>) = Some (p, s)" and fin: "pool_live p = []" "pool_errs p = []"
    by metis
  from storing_pool [OF keygen_stores run [unfolded keygen_task_def] assms(2) fin] pool(4) su obtain key f0 where
    "ecdsa_StoreKeyshare K (te_print E) (te_pretty E) io (NewECDSAKeyshare key (kg_threshold k) (bt_Peers (kg_base k))) f0 = (None, f1)"
    by auto
  with ecdsa_store.get_stored [OF assms(4) [of key], of f0] show ?thesis by auto
qed simp


definition sample_keygen_sched :: "(nat \<times> nat ecdsa_event task_event) list" where
  "sample_keygen_sched = [(2, Event (EndMsg 7)), (1, CtxDone), (0, CtxDone)]"

lemma sample_keygen_run:
  "\<exists>k1 c1 f1. Keygen_Run sample_env (\<lambda>ps p n t. Inr ps) (\<lambda>q n. Inr q) sample_party
     (ecdsa_StoreKeyshare nat_key_codec unary_print (\<lambda>p. p) good_io) 5 (0::nat) sample_keygen_sched
     (NewKeygen sample_env ''keygen1'' 1) (NewCommunication ''aaaaaaa1'') False None = Some (None, k1, c1, True, f1)"
  by (simp add: Keygen_Run_def Keygen_setup_def LockKeyshare_def Let_def Subscribe_def split_beta pool_wait_def
      sample_keygen_sched_def pool_step_def keygen_task_def ecdsa_tasks_def keygen_processEndMessage_def
      ecdsa_StoreKeyshare_def store_truncating_def good_io_def ecdsa_marshal_def nat_key_codec_def NewECDSAKeyshare_def
      task_done_def new_pool_def first_error_def)

theorem keygen_success_stores_witness:
  "\<exists>k1 c1 f1 key. Keygen_Run sample_env (\<lambda>ps p n t. Inr ps) (\<lambda>q n. Inr q) sample_party
     (ecdsa_StoreKeyshare nat_key_codec unary_print (\<lambda>p. p) good_io) 5 (0::nat) sample_keygen_sched
     (NewKeygen sample_env ''keygen1'' 1) (NewCommunication ''aaaaaaa1'') False None = Some (None, k1, c1, True, f1) \<and>
   ecdsa_GetKeyshare nat_key_codec unary_parse Some f1 =
     Inr (NewECDSAKeyshare key 1 [''aaaaaaa1'', ''aaaaaaa2'', ''aaaaaaa3''])"
proof -
  from sample_keygen_run obtain k1 c1 f1 where run: "Keygen_Run sample_env (\<lambda>ps p n t. Inr ps) (\<lambda>q n. Inr q) sample_party
     (ecdsa_StoreKeyshare nat_key_codec (te_print sample_env) (te_pretty sample_env) good_io) 5 (0::nat) sample_keygen_sched
     (NewKeygen sample_env ''keygen1'' 1) (NewCommunication ''aaaaaaa1'') False None = Some (None, k1, c1, True, f1)"
    by auto
  have "uncancelled sample_keygen_sched" by (simp add: sample_keygen_sched_def)
  moreover have "ecdsa_storable nat_key_codec (te_print sample_env) (te_parse sample_env) (te_pretty sample_env)
      (te_decode sample_env) good_io (NewECDSAKeyshare key (kg_threshold (NewKeygen sample_env ''keygen1'' 1))
        (bt_Peers (kg_base (NewKeygen sample_env ''keygen1'' 1))))" for key
    using codec_instances json_text_ok_unary codec_ok_id
    by (simp add: ecdsa_storable_def NewECDSAKeyshare_def NewKeygen_def int64_def)
  ultimately have "\<exists>key. ecdsa_GetKeyshare nat_key_codec (te_parse sample_env) (te_decode sample_env) f1 =
      Inr (NewECDSAKeyshare key (kg_threshold (NewKeygen sample_env ''keygen1'' 1))
        (bt_Peers (kg_base (NewKeygen sample_env ''keygen1'' 1))))"
    by (intro keygen_success_stores [OF _ _ run]) (simp_all add: wait_ok_first_error)
  with run show ?thesis by (auto simp: NewKeygen_def)
qed


end
