(* ===== verification/EcdsaSigning.thy ===== *)
theory EcdsaSigning
  imports Process
begin

text \<open>
  ECDSA signing, \<open>tss_util/tss/ecdsa/signing/signing.go\<close>: which of the ready peers sign, what the
  coordinator sends them as start parameters, how a run is set up from these, and the tasks of the
  run, with the monitor that gives up when the protocol makes no progress.
\<close>

record 'k signing =
  sg_base :: base_tss
  sg_coordinator :: bool
  sg_key :: "'k ecdsa_keyshare"
  sg_msg :: int
  sg_subscriptionID :: string

text \<open>\<open>get\<close> is the fetcher's \<open>GetKeyshare\<close>.  The lock is released when the constructor returns.\<close>

definition NewSigning ::
  "(keyfile \<Rightarrow> 'k ecdsa_keyshare result) \<Rightarrow> int \<Rightarrow> session_id \<Rightarrow> keyfile \<Rightarrow> bool \<Rightarrow> ('k signing result \<times> bool) option" where
  "NewSigning get msg sessionID f mu =
     (case LockKeyshare mu of
        None \<Rightarrow> None
      | Some mu1 \<Rightarrow>
          (case UnlockKeyshare mu1 of
             Panics e \<Rightarrow> None
           | Returns mu2 \<Rightarrow>
               Some (case get f of
                       Inl err \<Rightarrow> (Inl err, mu2)
                     | Inr key \<Rightarrow> (Inr \<lparr>sg_base = \<lparr>bt_SID = sessionID, bt_PartyStore = (\<lambda>_. None), bt_Peers = ek_Peers key\<rparr>,
                         sg_coordinator = False, sg_key = key, sg_msg = msg, sg_subscriptionID = ''''\<rparr>, mu2))))"

fun readyParticipants :: "peer_id list \<Rightarrow> peer_id list \<Rightarrow> peer_id list" where
  "readyParticipants keyPeers [] = []"
| "readyParticipants keyPeers (peer # peers) =
     (if peer \<notin> set keyPeers then readyParticipants keyPeers peers else peer # readyParticipants keyPeers peers)"

definition Signing_Ready :: "'k signing \<Rightarrow> peer_id list \<Rightarrow> peer_id list \<Rightarrow> bool result" where
  "Signing_Ready s readyPeers excludedPeers =
     (let readyPeers = readyParticipants (ek_Peers (sg_key s)) readyPeers
      in Inr (int (length readyPeers) = ek_Threshold (sg_key s) + 1))"

definition Signing_ValidCoordinators :: "'k signing \<Rightarrow> peer_id list" where
  "Signing_ValidCoordinators s = ek_Peers (sg_key s)"

text \<open>The loop that fills \<open>peerSubset\<close> and breaks once it has threshold + 1 peers.\<close>

fun subset_loop :: "int \<Rightarrow> peer_msg list \<Rightarrow> peer_id list \<Rightarrow> peer_id list" where
  "subset_loop threshold [] peerSubset = peerSubset"
| "subset_loop threshold (peer # sortedPeers) peerSubset =
     (let peerSubset = peerSubset @ [pm_ID peer]
      in if int (length peerSubset) = threshold + 1 then peerSubset
         else subset_loop threshold sortedPeers peerSubset)"

definition signing_subset :: "'c tss_env \<Rightarrow> 'k signing \<Rightarrow> peer_id list \<Rightarrow> peer_id list" where
  "signing_subset E s readyPeers =
     (let readyPeers = readyParticipants (ek_Peers (sg_key s)) readyPeers;
          sortedPeers = SortPeersForSession (te_keccak E) (te_pretty E) readyPeers (bt_SID (sg_base s))
      in subset_loop (ek_Threshold (sg_key s)) sortedPeers [])"

definition Signing_StartParams :: "'c tss_env \<Rightarrow> 'k signing \<Rightarrow> peer_id list \<Rightarrow> bytes" where
  "Signing_StartParams E s readyPeers =
     te_print E (JArr (map (enc_peer (te_pretty E)) (signing_subset E s readyPeers)))"

definition signing_unmarshallStartParams :: "'c tss_env \<Rightarrow> bytes \<Rightarrow> peer_id list result" where
  "signing_unmarshallStartParams E paramBytes =
     (case te_parse E paramBytes of
        None \<Rightarrow> Inl json_error
      | Some j \<Rightarrow> dec_list '''' (dec_peer (te_decode E)) [] j)"

text \<open>\<open>Run\<close> up to the creation of the pool.  \<open>new_party\<close> is tss-lib's signing \<open>NewLocalParty\<close>.\<close>

definition Signing_setup ::
  "'c tss_env \<Rightarrow> (party_id list \<Rightarrow> party_id option \<Rightarrow> nat \<Rightarrow> int \<Rightarrow> 'q result) \<Rightarrow> (int \<Rightarrow> 'q \<Rightarrow> 'k \<Rightarrow> nat \<Rightarrow> 'p result) \<Rightarrow>
   64 word \<Rightarrow> 'c \<Rightarrow> bool \<Rightarrow> bytes \<Rightarrow> 'k signing \<Rightarrow> 'c comm_state \<Rightarrow> 'p result \<times> 'k signing \<times> 'c comm_state" where
  "Signing_setup E new_params new_party now msgChn coordinator params s0 c =
     (let s = s0\<lparr>sg_coordinator := coordinator\<rparr> in
      case signing_unmarshallStartParams E params of
        Inl err \<Rightarrow> (Inl err, s, c)
      | Inr peerSubset \<Rightarrow>
          if \<not> IsParticipant (te_pretty E) (te_hostID E) peerSubset then (Inl (SubsetError (te_hostID E)), s, c)
          else
            (let parties = env_parties E peerSubset;
                 b = (sg_base s)\<lparr>bt_Peers := peerSubset, bt_PartyStore := PopulatePartyStore parties (bt_PartyStore (sg_base s))\<rparr>;
                 s1 = s\<lparr>sg_base := b\<rparr>
             in case new_params parties (bt_PartyStore b (te_pretty E (te_hostID E))) (length parties) (ek_Threshold (sg_key s)) of
                  Inl err \<Rightarrow> (Inl err, s1, c)
                | Inr tssParams \<Rightarrow>
                    (case new_party (sg_msg s) tssParams (ek_Key (sg_key s)) (big_set_bytes (bt_SID b)) of
                       Inl err \<Rightarrow> (Inl err, s1, c)
                     | Inr party \<Rightarrow>
                         (let (subID, c1) = Subscribe (bt_SID b) TssKeySignMsg now msgChn c
                          in (Inr party, s1\<lparr>sg_subscriptionID := subID\<rparr>, c1)))))"

definition signing_processEndMessage :: "bool \<Rightarrow> 'g \<Rightarrow> ('g, 'p, 'c) ecdsa_run \<Rightarrow> ('g, 'p, 'c) ecdsa_run \<times> task_result" where
  "signing_processEndMessage coordinator sig s =
     (s\<lparr>er_results := er_results s @ [if coordinator then Some sig else None]\<rparr>, FinishCancel None)"

text \<open>One tick of \<open>monitorSigning\<close>: what the party waits for now, against what it waited for at the
  last tick.\<close>

definition monitor_tick :: "party_id list \<Rightarrow> party_id list \<Rightarrow> party_id list \<times> task_result" where
  "monitor_tick now_waiting waitingFor =
     (if length waitingFor \<noteq> 0 \<and> now_waiting = waitingFor
      then (waitingFor, FinishCancel (Some (CommunicationError '''' (Errorf ''waiting for peers''))))
      else (now_waiting, Continue))"

definition monitorSigning :: "'p party_lib \<Rightarrow> ('g, 'p, 'c) ecdsa_run \<Rightarrow> ('g, 'p, 'c) ecdsa_run \<times> task_result" where
  "monitorSigning P s =
     (case monitor_tick (pl_waitingFor P (er_party s)) (er_waitingFor s) of (w, r) \<Rightarrow> (s\<lparr>er_waitingFor := w\<rparr>, r))"

definition signing_task ::
  "'c tss_env \<Rightarrow> 'p party_lib \<Rightarrow> bool \<Rightarrow> nat \<Rightarrow> 'g ecdsa_event \<Rightarrow> ('g, 'p, 'c) ecdsa_run \<Rightarrow> ('g, 'p, 'c) ecdsa_run \<times> task_result" where
  "signing_task E P coordinator =
     ecdsa_tasks E P TssKeySignMsg (signing_processEndMessage coordinator) (monitorSigning P)"

definition Signing_Run ::
  "'c tss_env \<Rightarrow> (party_id list \<Rightarrow> party_id option \<Rightarrow> nat \<Rightarrow> int \<Rightarrow> 'q result) \<Rightarrow> (int \<Rightarrow> 'q \<Rightarrow> 'k \<Rightarrow> nat \<Rightarrow> 'p result) \<Rightarrow> 'p party_lib \<Rightarrow>
   64 word \<Rightarrow> 'c \<Rightarrow> (nat \<times> 'g ecdsa_event task_event) list \<Rightarrow> bool \<Rightarrow> bytes \<Rightarrow> 'k signing \<Rightarrow> 'c comm_state \<Rightarrow>
   (go_error option \<times> 'k signing \<times> 'c comm_state \<times> 'g option list) option" where
  "Signing_Run E new_params new_party P now msgChn sched coordinator params s c =
     (case Signing_setup E new_params new_party now msgChn coordinator params s c of
        (Inl err, s1, c1) \<Rightarrow> Some (Some err, s1, c1, [])
      | (Inr party, s1, c1) \<Rightarrow>
          (case pl_start P party of
             (party1, Some tssError) \<Rightarrow> Some (Some tssError, s1, c1, [])
           | (party1, None) \<Rightarrow>
               (case pool_wait (te_wait E) (signing_task E P (sg_coordinator s1)) [0, 1, 2, 3] sched
                       \<lparr>er_base = sg_base s1, er_comm = c1, er_party = party1, er_file = None, er_results = [], er_waitingFor = []\<rparr> of
                  None \<Rightarrow> None
                | Some (r, st) \<Rightarrow> Some (r, s1, er_comm st, er_results st))))"

definition Signing_Stop :: "'k signing \<Rightarrow> 'c comm_state \<Rightarrow> 'c comm_state" where
  "Signing_Stop s c = UnSubscribe (sg_subscriptionID s) c"

definition Signing_Retryable :: bool where
  "Signing_Retryable = True"

definition signing_process :: "'c tss_env \<Rightarrow> 'k signing \<Rightarrow> tss_process" where
  "signing_process E s = \<lparr>tp_SessionID = bt_SID (sg_base s), tp_Ready = Signing_Ready s,
     tp_Retryable = Signing_Retryable, tp_StartParams = Signing_StartParams E s,
     tp_ValidCoordinators = Signing_ValidCoordinators s\<rparr>"

subsection \<open>The subset that signs\<close>

lemma readyParticipants_filter [tss_simps]: "readyParticipants ks ps = filter (\<lambda>p. p \<in> set ks) ps"
  by (induction ps) auto

lemma subset_loop_take:
  "int (length acc) \<le> t \<Longrightarrow> subset_loop t ms acc = acc @ map pm_ID (take (nat (t + 1) - length acc) ms)"
proof (induction ms arbitrary: acc)
  case Nil
  then show ?case by simp
next
  case (Cons m ms)
  show ?case
  proof (cases "int (length (acc @ [pm_ID m])) = t + 1")
    case True
    then have "nat (t + 1) - length acc = 1" by simp
    with True show ?thesis by (simp add: Let_def)
  next
    case False
    with Cons.prems have le: "int (length (acc @ [pm_ID m])) \<le> t" by simp
    then have "nat (t + 1) - length acc = Suc (nat (t + 1) - length (acc @ [pm_ID m]))" by simp
    with False Cons.IH [OF le] show ?thesis by (simp add: Let_def)
  qed
qed

lemma signing_subset_take:
  assumes "0 \<le> ek_Threshold (sg_key s)"
  shows "signing_subset E s ps = take (nat (ek_Threshold (sg_key s) + 1))
    (sorted_ids (te_keccak E) (te_pretty E) (bt_SID (sg_base s)) (filter (\<lambda>p. p \<in> set (ek_Peers (sg_key s))) ps))"
  using subset_loop_take [of "[]"] assms
  by (simp add: signing_subset_def Let_def readyParticipants_filter sorted_ids_def GetPeerIDs_def take_map)

lemma signing_subset_perm:
  assumes "inj_on (session_key (te_keccak E) (te_pretty E) (bt_SID (sg_base s))) (set ps)" and "mset ps = mset qs"
  shows "signing_subset E s ps = signing_subset E s qs"
proof -
  let ?f = "filter (\<lambda>p. p \<in> set (ek_Peers (sg_key s)))"
  have "inj_on (session_key (te_keccak E) (te_pretty E) (bt_SID (sg_base s))) (set (?f ps))"
    using assms(1) by (rule inj_on_subset) auto
  moreover have "mset (?f ps) = mset (?f qs)" by (rule filter_mset_eq [OF assms(2)])
  ultimately have "sorted_ids (te_keccak E) (te_pretty E) (bt_SID (sg_base s)) (?f ps) =
      sorted_ids (te_keccak E) (te_pretty E) (bt_SID (sg_base s)) (?f qs)"
    by (intro rank.sort_order_independent)
  then show ?thesis
    by (simp add: signing_subset_def Let_def readyParticipants_filter SortPeers_from_ids)
qed

interpretation signing_proc: process_contract "signing_process E s"
  "\<lambda>ps. inj_on (session_key (te_keccak E) (te_pretty E) (bt_SID (sg_base s))) (set ps)"
  for E :: "'c tss_env" and s :: "'k signing"
proof
  fix ps qs ex :: "peer_id list" assume m: "mset ps = mset qs"
  then show "tp_Ready (signing_process E s) ps ex = tp_Ready (signing_process E s) qs ex"
    using mset_eq_length [OF filter_mset_eq [OF m]]
    by (simp add: signing_process_def Signing_Ready_def Let_def readyParticipants_filter)
next
  fix ps qs :: "peer_id list"
  assume "inj_on (session_key (te_keccak E) (te_pretty E) (bt_SID (sg_base s))) (set ps)" "mset ps = mset qs"
  from signing_subset_perm [OF this]
  show "tp_StartParams (signing_process E s) ps = tp_StartParams (signing_process E s) qs"
    by (simp add: signing_process_def Signing_StartParams_def)
qed

lemma signing_params_roundtrip [tss_simps]:
  assumes "json_text_ok (te_print E) (te_parse E)" and "codec_ok (te_pretty E) (te_decode E)"
  shows "signing_unmarshallStartParams E (Signing_StartParams E s ps) = Inr (signing_subset E s ps)"
  using assms(1) dec_peers_encode [OF assms(2)]
  by (simp add: signing_unmarshallStartParams_def Signing_StartParams_def json_text_ok_def)

lemma rank_take_best:
  assumes "p \<in> set (take n (sorted_ids k pr sid ps))" and "q \<in> set ps" and "q \<notin> set (take n (sorted_ids k pr sid ps))"
  shows "session_key k pr sid q \<le> session_key k pr sid p"
proof -
  let ?xs = "sorted_ids k pr sid ps"
  have "q \<in> set (take n ?xs) \<union> set (drop n ?xs)"
    using assms(2) mset_eq_set [OF rank.sort_perm, of k pr sid ps] set_append append_take_drop_id by metis
  then have q: "q \<in> set (drop n ?xs)" using assms(3) by blast
  have "sorted_wrt (\<lambda>a b. session_key k pr sid b \<le> session_key k pr sid a) (take n ?xs @ drop n ?xs)"
    using rank.sort_ordered [of k pr sid ps] by simp
  then show ?thesis using assms(1) q unfolding sorted_wrt_append by blast
qed

subsection \<open>Runs\<close>

lemma signing_taskE:
  assumes "signing_task E P coord t e s = (s', r)"
  obtains (stop) sig where "t = 2" "r = FinishCancel None"
    "s' = s\<lparr>er_results := er_results s @ [if coord then Some sig else None]\<rparr>"
  | (stuck) "t = 3" "r = FinishCancel (Some (CommunicationError '''' (Errorf ''waiting for peers'')))" "er_results s' = er_results s"
  | (other) "result_continues r" "er_results s' = er_results s"
  using assms unfolding signing_task_def
proof (cases rule: ecdsa_tasksE)
  case (finish key)
  then show ?thesis using stop by (auto simp: signing_processEndMessage_def)
next
  case tick
  then show ?thesis using stuck other
    by (auto simp: monitorSigning_def monitor_tick_def Let_def split: if_splits)
qed (auto intro: other)

text \<open>At most one result leaves a run, and none while the end task is live.\<close>

lemma signing_one_result:
  assumes "pool_run (signing_task E P coord) sched (new_pool [0, 1, 2, 3], s) = Some ps'" and "er_results s = []"
  shows "(2 \<in> set (pool_live (fst ps')) \<longrightarrow> er_results (snd ps') = []) \<and>
    (er_results (snd ps') = [] \<or> (if coord then \<exists>sig. er_results (snd ps') = [Some sig] else er_results (snd ps') = [None]))"
proof (rule pool_run_invariant [OF _ _ assms(1)], goal_cases)
  case (1 te ps ps')
  from 1(2) show ?case
  proof (cases rule: pool_stepE)
    case (parent t)
    with 1 show ?thesis by auto
  next
    case (ctx t)
    with 1 show ?thesis by auto
  next
    case (cont t e s')
    from cont(3) show ?thesis by (cases rule: signing_taskE) (use cont 1 in auto)
  next
    case (fin t e s' r)
    from fin(3) show ?thesis by (cases rule: signing_taskE) (use fin 1 in auto)
  next
    case (cancel t e s' r)
    from cancel(3) show ?thesis by (cases rule: signing_taskE) (use cancel 1 in \<open>auto split: option.splits\<close>)
  qed
qed (use assms(2) in simp)

lemma signing_pool_delivers:
  assumes run: "pool_run (signing_task E P coord) sched (new_pool [0, 1, 2, 3], s) = Some (p, s')" and s: "er_results s = []"
    and un: "uncancelled sched" and fin: "pool_live p = []" "pool_errs p = []"
  shows "if coord then \<exists>sig. er_results s' = [Some sig] else er_results s' = [None]"
proof -
  have "pool_errs (fst (p, s')) \<noteq> [] \<or> er_results (snd (p, s')) \<noteq> []"
  proof (rule pool_goal_reached [where w = 2 and Q = "\<lambda>x. er_results x \<noteq> []", OF _ _ _ run un])
    fix t e s1 s2 r assume "signing_task E P coord t e s1 = (s2, FinishCancel r)"
    then show "r \<noteq> None \<or> t = 2 \<and> er_results s2 \<noteq> []" by (cases rule: signing_taskE) auto
  next
    fix e s1 s2 assume "signing_task E P coord 2 e s1 = (s2, Finish None)"
    then show "er_results s2 \<noteq> []" by (cases rule: signing_taskE) auto
  next
    fix t e s1 s2 r assume "t \<noteq> 2" "signing_task E P coord t e s1 = (s2, r)" "er_results s1 \<noteq> []"
    from this(2,1,3) show "er_results s2 \<noteq> []" by (cases rule: signing_taskE) auto
  qed (use fin in auto)
  then show ?thesis using signing_one_result [OF run s] fin by (auto split: if_splits)
qed

lemma Signing_setupE:
  assumes "Signing_setup E new_params new_party now ch coord params s c = (r, s1, c1)"
  obtains (fail) err where "r = Inl err" "c1 = c" "sg_subscriptionID s1 = sg_subscriptionID s"
  | (ready) party subset where "r = Inr party" "signing_unmarshallStartParams E params = Inr subset"
      "IsParticipant (te_pretty E) (te_hostID E) subset" "bt_Peers (sg_base s1) = subset"
      "bt_SID (sg_base s1) = bt_SID (sg_base s)" "sg_key s1 = sg_key s" "sg_coordinator s1 = coord" "sg_msg s1 = sg_msg s"
      "(sg_subscriptionID s1, c1) = Subscribe (bt_SID (sg_base s)) TssKeySignMsg now ch c"
proof (cases "signing_unmarshallStartParams E params")
  case (Inl err)
  with assms fail show ?thesis by (auto simp: Signing_setup_def Let_def)
next
  case u: (Inr peers)
  show ?thesis
  proof (cases "IsParticipant (te_pretty E) (te_hostID E) peers")
    case False
    with u assms fail show ?thesis by (auto simp: Signing_setup_def Let_def)
  next
    case part: True
    let ?b = "(sg_base s)\<lparr>bt_Peers := peers,
      bt_PartyStore := PopulatePartyStore (env_parties E peers) (bt_PartyStore (sg_base s))\<rparr>"
    let ?np = "new_params (env_parties E peers) (bt_PartyStore ?b (te_pretty E (te_hostID E)))
      (length (env_parties E peers)) (ek_Threshold (sg_key s))"
    show ?thesis
    proof (cases ?np)
      case (Inl err)
      with u part assms fail show ?thesis by (simp add: Signing_setup_def Let_def) auto
    next
      case np: (Inr q)
      show ?thesis
      proof (cases "new_party (sg_msg s) q (ek_Key (sg_key s)) (big_set_bytes (bt_SID (sg_base s)))")
        case (Inl err)
        with u part np assms fail [of err] show ?thesis by (simp add: Signing_setup_def Let_def) auto
      next
        case (Inr party)
        obtain i c' where sub: "Subscribe (bt_SID (sg_base s)) TssKeySignMsg now ch c = (i, c')" by fastforce
        from u part np Inr sub assms have "r = Inr party" "c1 = c'"
          "s1 = s\<lparr>sg_coordinator := coord, sg_base := ?b, sg_subscriptionID := i\<rparr>"
          by (simp_all add: Signing_setup_def Let_def)
        with u part sub ready [of party peers] show ?thesis by simp
      qed
    qed
  qed
qed

lemma Signing_RunE:
  assumes "Signing_Run E new_params new_party P now ch sched coord params s c = Some (r, s1, c1, res)"
  obtains (early) err pr where "r = Some err" "res = []" "Signing_setup E new_params new_party now ch coord params s c = (pr, s1, c1)"
  | (pool) party c0 st where "Signing_setup E new_params new_party now ch coord params s c = (Inr party, s1, c0)"
      "pool_wait (te_wait E) (signing_task E P (sg_coordinator s1)) [0, 1, 2, 3] sched
         \<lparr>er_base = sg_base s1, er_comm = c0, er_party = fst (pl_start P party), er_file = None, er_results = [], er_waitingFor = []\<rparr>
       = Some (r, st)" "c1 = er_comm st" "res = er_results st"
  using assms by (auto simp: Signing_Run_def split: option.splits sum.splits prod.splits)

subsection \<open>Properties\<close>

lemma signing_params_subset:
  assumes "json_text_ok (te_print E) (te_parse E)" and "codec_ok (te_pretty E) (te_decode E)" and "distinct ready"
    and "0 \<le> ek_Threshold (sg_key s)" and "ek_Threshold (sg_key s) < int (length (readyParticipants (ek_Peers (sg_key s)) ready))"
  shows "\<exists>subset. signing_unmarshallStartParams E (Signing_StartParams E s ready) = Inr subset \<and>
    int (length subset) = ek_Threshold (sg_key s) + 1 \<and> distinct subset \<and> set subset \<subseteq> set ready \<inter> set (ek_Peers (sg_key s)) \<and>
    list_all (\<lambda>p. list_all (\<lambda>q. q \<in> set (ek_Peers (sg_key s)) \<and> q \<notin> set subset \<longrightarrow>
       session_key (te_keccak E) (te_pretty E) (bt_SID (sg_base s)) q \<le> session_key (te_keccak E) (te_pretty E) (bt_SID (sg_base s)) p) ready) subset"
proof -
  let ?rs = "filter (\<lambda>p. p \<in> set (ek_Peers (sg_key s))) ready" and ?n = "nat (ek_Threshold (sg_key s) + 1)"
  let ?sorted = "sorted_ids (te_keccak E) (te_pretty E) (bt_SID (sg_base s)) ?rs"
  have sub: "signing_subset E s ready = take ?n ?sorted" by (rule signing_subset_take [OF assms(4)])
  have m: "mset ?sorted = mset ?rs" by (rule rank.sort_perm)
  have "distinct ?sorted" using mset_eq_distinct [OF m] assms(3) by simp
  moreover have "length (take ?n ?sorted) = ?n"
    using assms(4,5) mset_eq_length [OF m] by (simp add: readyParticipants_filter)
  moreover have "set (take ?n ?sorted) \<subseteq> set ?rs" using set_take_subset mset_eq_set [OF m] by fastforce
  ultimately show ?thesis
    using signing_params_roundtrip [OF assms(1,2), of s ready] assms(4) rank_take_best [of _ ?n _ _ _ ?rs]
    by (intro exI [of _ "take ?n ?sorted"]) (auto simp: sub list_all_iff)
qed

text \<open>Fact (signing_start_subset): when enough peers are ready, the start parameters the coordinator sends
  are read by every relayer as exactly threshold + 1 distinct peers, all of them ready and holding
  a keyshare, and the ones with the largest session hashes among those.\<close>

theorem signing_start_subset:
  assumes "json_text_ok (te_print E) (te_parse E)" and "codec_ok (te_pretty E) (te_decode E)" and "distinct ready"
    and "0 \<le> ek_Threshold (sg_key s)" and "ek_Threshold (sg_key s) < int (length (readyParticipants (ek_Peers (sg_key s)) ready))"
  shows "\<exists>subset. signing_unmarshallStartParams E (Signing_StartParams E s ready) = Inr subset \<and>
    int (length subset) = ek_Threshold (sg_key s) + 1 \<and> distinct subset \<and> set subset \<subseteq> set ready \<inter> set (ek_Peers (sg_key s)) \<and>
    list_all (\<lambda>p. list_all (\<lambda>q. q \<in> set (ek_Peers (sg_key s)) \<and> q \<notin> set subset \<longrightarrow>
       session_key (te_keccak E) (te_pretty E) (bt_SID (sg_base s)) q \<le> session_key (te_keccak E) (te_pretty E) (bt_SID (sg_base s)) p) ready) subset"
  by (rule signing_params_subset [OF assms])


text \<open>Fact (signing_outsider_waits): a relayer that the start parameters leave out does not take part: its
  \<open>Run\<close> ends with \<open>SubsetError\<close>, which makes the coordinator wait for another start message, and
  subscribes to nothing.\<close>

theorem signing_outsider_waits:
  assumes "codec_ok (te_pretty E) (te_decode E)" and "signing_unmarshallStartParams E params = Inr chosen"
    and "te_hostID E \<notin> set chosen"
  shows "\<exists>s1. Signing_Run E new_params new_party P now ch sched coord params s c =
      Some (Some (SubsetError (te_hostID E)), s1, c, []) \<and> sg_base s1 = sg_base s"
  using assms IsParticipant_inj [OF codec_ok_inj [OF assms(1)]]
  by (simp add: Signing_Run_def Signing_setup_def Let_def)

lemma signing_run_results:
  assumes "wait_ok (te_wait E)" and "Signing_Run E new_params new_party P now ch sched coord params s c = Some (r, s1, c1, res)"
  shows "length res \<le> 1 \<and> (r = None \<and> uncancelled sched \<longrightarrow> (if coord then \<exists>sig. res = [Some sig] else res = [None]))"
  using assms(2)
proof (cases rule: Signing_RunE)
  case (pool party c0 st)
  from pool(1) have coord: "sg_coordinator s1 = coord" by (cases rule: Signing_setupE) auto
  from pool(2) obtain p where
    run: "pool_run (signing_task E P (sg_coordinator s1)) sched (new_pool [0, 1, 2, 3], \<lparr>er_base = sg_base s1, er_comm = c0,
      er_party = fst (pl_start P party), er_file = None, er_results = [], er_waitingFor = []\<rparr>) = Some (p, st)"
    and live: "pool_live p = []" and r: "r = te_wait E (pool_errs p)"
    by (auto simp: pool_wait_def split: option.splits if_splits)
  have "length (er_results st) \<le> 1" using signing_one_result [OF run] by (auto split: if_splits)
  moreover have "r = None \<Longrightarrow> pool_errs p = []" using assms(1) r by (simp add: wait_ok_def)
  ultimately show ?thesis
    using signing_pool_delivers [OF run _ _ live] pool(4) coord by auto
qed simp


text \<open>The monitor, run over what the party waited for at each tick: whether it ever gives up.\<close>

fun monitor_gives_up :: "party_id list list \<Rightarrow> party_id list \<Rightarrow> bool" where
  "monitor_gives_up [] waitingFor = False"
| "monitor_gives_up (w # ws) waitingFor =
     (case monitor_tick w waitingFor of (w', Continue) \<Rightarrow> monitor_gives_up ws w' | _ \<Rightarrow> True)"

text \<open>Fact (monitor_detects_stall): the monitor fails the run exactly when the protocol waits for the same
  non-empty list of parties at two successive ticks.\<close>

theorem monitor_detects_stall:
  "monitor_gives_up ws [] = list_ex (\<lambda>i. ws ! i = ws ! Suc i \<and> ws ! i \<noteq> []) [0..<length ws - 1]"
proof -
  have "monitor_gives_up vs w = list_ex (\<lambda>i. (w # vs) ! i = (w # vs) ! Suc i \<and> (w # vs) ! i \<noteq> []) [0..<length vs]" for vs w
  proof (induction vs arbitrary: w)
    case (Cons v vs)
    show ?case using Cons [of v] by (simp add: monitor_tick_def list_ex_upt_Suc del: upt_Suc)
  qed simp
  note g = this
  show ?thesis
  proof (cases ws)
    case (Cons v vs)
    then have "monitor_gives_up ws [] = monitor_gives_up vs v" by (simp add: monitor_tick_def)
    then show ?thesis using g [of vs v] Cons by simp
  qed simp
qed

text \<open>Fact (signing_rerun_leaks): a retried signing subscribes again and forgets its first subscription, so
  stopping it releases only the second and the first channel stays subscribed.\<close>

theorem signing_rerun_leaks:
  assumes "CHR ''-'' \<notin> set (bt_SID (sg_base s))"
    and "Signing_setup E np pp now1 ch1 coord1 params1 s c = (Inr party1, s1, c1)"
    and "Signing_setup E np pp now2 ch2 coord2 params2 s1 c1 = (Inr party2, s2, c2)"
    and "sub_key (bt_SID (sg_base s)) TssKeySignMsg now1 \<noteq> sub_key (bt_SID (sg_base s)) TssKeySignMsg now2"
  shows "sub_view (cs_subs (Signing_Stop s2 c2)) (sub_key (bt_SID (sg_base s)) TssKeySignMsg now1) = Some ch1 \<and>
    sub_view (cs_subs (Signing_Stop s2 c2)) (sub_key (bt_SID (sg_base s)) TssKeySignMsg now2) = None"
proof -
  let ?sid = "bt_SID (sg_base s)"
  from assms(2) have 1: "c1 = c\<lparr>cs_subs := snd (SubscribeTo ?sid TssKeySignMsg now1 ch1 (cs_subs c))\<rparr>"
    and sid: "bt_SID (sg_base s1) = ?sid"
    by (cases rule: Signing_setupE, auto simp: Subscribe_def split_beta)+
  from assms(3) have 2: "sg_subscriptionID s2 = fst (SubscribeTo ?sid TssKeySignMsg now2 ch2 (cs_subs c1))"
    "c2 = c1\<lparr>cs_subs := snd (SubscribeTo ?sid TssKeySignMsg now2 ch2 (cs_subs c1))\<rparr>"
    by (cases rule: Signing_setupE, auto simp: Subscribe_def split_beta sid)+
  have "TssKeySignMsg \<le> UnknownMsg" by (simp add: TssKeySignMsg_def UnknownMsg_def)
  then have "sub_unkey (sg_subscriptionID s2) = Some (sub_key ?sid TssKeySignMsg now2)"
    using assms(1) by (simp add: 2 SubscribeTo_fst sub_unkey_New)
  then show ?thesis using assms(4) by (simp add: Signing_Stop_def UnSubscribe_def 1 2 bus.view_unsub bus.view_sub)
qed

subsection \<open>Witnesses\<close>

definition sample_signing :: "nat signing" where
  "sample_signing = \<lparr>sg_base = \<lparr>bt_SID = ''s'', bt_PartyStore = (\<lambda>_. None), bt_Peers = [''aaaaaaa1'', ''aaaaaaa2'', ''aaaaaaa3'']\<rparr>,
     sg_coordinator = False, sg_key = NewECDSAKeyshare 7 1 [''aaaaaaa1'', ''aaaaaaa2'', ''aaaaaaa3''], sg_msg = 42, sg_subscriptionID = ''''\<rparr>"

lemma sample_signing_simps [simp]:
  "bt_SID (sg_base sample_signing) = ''s''" "ek_Peers (sg_key sample_signing) = [''aaaaaaa1'', ''aaaaaaa2'', ''aaaaaaa3'']"
  "ek_Threshold (sg_key sample_signing) = 1"
  by (simp_all add: sample_signing_def NewECDSAKeyshare_def)

lemma sample_ready:
  "inj_on (session_key (te_keccak sample_env) (te_pretty sample_env) (bt_SID (sg_base sample_signing)))
     (set [''aaaaaaa1'', ''aaaaaaa3'', ''aaaaaaa2''])"
  using session_key_example by (auto simp: inj_on_def)

theorem signing_start_subset_witness:
  "\<exists>chosen. signing_unmarshallStartParams sample_env (Signing_StartParams sample_env sample_signing [''aaaaaaa1'', ''aaaaaaa3'', ''aaaaaaa2'']) =
     Inr chosen \<and> length chosen = 2 \<and> set chosen \<subseteq> {''aaaaaaa1'', ''aaaaaaa2'', ''aaaaaaa3''}"
proof -
  have "json_text_ok (te_print sample_env) (te_parse sample_env)" "codec_ok (te_pretty sample_env) (te_decode sample_env)"
    using json_text_ok_unary codec_ok_id by simp_all
  from signing_start_subset [OF this, of "[''aaaaaaa1'', ''aaaaaaa3'', ''aaaaaaa2'']" sample_signing]
  show ?thesis by auto
qed


lemma enc_peer_id: "enc_peer (\<lambda>p. p) = JStr"
  by (simp add: fun_eq_iff enc_peer_def)

lemma sample_unmarshal:
  "signing_unmarshallStartParams sample_env (unary_print (JArr (map JStr ps))) = Inr ps"
  using json_text_ok_unary dec_peers_encode [OF codec_ok_id, of "[]" ps]
  by (simp add: signing_unmarshallStartParams_def json_text_ok_def enc_peer_id)

theorem signing_outsider_waits_witness:
  "\<exists>s1. Signing_Run sample_env (\<lambda>ps p n t. Inr ps) (\<lambda>m q k n. Inr q) sample_party 5 (0::nat) ([] :: (nat \<times> nat ecdsa_event task_event) list) False
     (unary_print (JArr [JStr ''aaaaaaa2'', JStr ''aaaaaaa3''])) sample_signing (NewCommunication ''aaaaaaa1'') =
     Some (Some (SubsetError ''aaaaaaa1''), s1, NewCommunication ''aaaaaaa1'', [])"
proof -
  have "codec_ok (te_pretty sample_env) (te_decode sample_env)" using codec_ok_id by simp
  moreover have "signing_unmarshallStartParams sample_env (unary_print (JArr [JStr ''aaaaaaa2'', JStr ''aaaaaaa3''])) =
      Inr [''aaaaaaa2'', ''aaaaaaa3'']"
    using sample_unmarshal [of "[''aaaaaaa2'', ''aaaaaaa3'']"] by simp
  moreover have "te_hostID sample_env \<notin> set [''aaaaaaa2'', ''aaaaaaa3'']" by simp
  ultimately have "\<exists>s1. Signing_Run sample_env (\<lambda>ps p n t. Inr ps) (\<lambda>m q k n. Inr q) sample_party 5 (0::nat)
     ([] :: (nat \<times> nat ecdsa_event task_event) list) False
     (unary_print (JArr [JStr ''aaaaaaa2'', JStr ''aaaaaaa3''])) sample_signing (NewCommunication ''aaaaaaa1'') =
     Some (Some (SubsetError (te_hostID sample_env)), s1, NewCommunication ''aaaaaaa1'', []) \<and> sg_base s1 = sg_base sample_signing"
    by (rule signing_outsider_waits)
  then show ?thesis by auto
qed

definition sample_subset :: bytes where
  "sample_subset = unary_print (JArr (map JStr [''aaaaaaa1'', ''aaaaaaa3'']))"

lemma sample_subset_unmarshal: "signing_unmarshallStartParams sample_env sample_subset = Inr [''aaaaaaa1'', ''aaaaaaa3'']"
  unfolding sample_subset_def by (rule sample_unmarshal)

lemma sample_Signing_setup:
  "\<exists>s1. Signing_setup sample_env (\<lambda>ps p n t. Inr ps) (\<lambda>m q k n. Inr q) now (ch::nat) coord sample_subset s c =
     (Inr (env_parties sample_env [''aaaaaaa1'', ''aaaaaaa3'']), s1, snd (Subscribe (bt_SID (sg_base s)) TssKeySignMsg now ch c)) \<and>
     sg_coordinator s1 = coord \<and> sg_base s1 = (sg_base s)\<lparr>bt_Peers := [''aaaaaaa1'', ''aaaaaaa3''],
       bt_PartyStore := PopulatePartyStore (env_parties sample_env [''aaaaaaa1'', ''aaaaaaa3'']) (bt_PartyStore (sg_base s))\<rparr>"
  by (simp add: Signing_setup_def sample_subset_unmarshal Let_def split_beta)

definition sample_signing_sched :: "(nat \<times> nat ecdsa_event task_event) list" where
  "sample_signing_sched = [(3, Event Tick), (2, Event (EndMsg 99)), (1, CtxDone), (3, CtxDone), (0, CtxDone)]"

lemma sample_signing_run:
  "\<exists>s1 c1 res. Signing_Run sample_env (\<lambda>ps p n t. Inr ps) (\<lambda>m q k n. Inr q) sample_party 5 (0::nat) sample_signing_sched True
     sample_subset sample_signing (NewCommunication ''aaaaaaa1'') = Some (None, s1, c1, res)"
proof -
  obtain s1 where su: "Signing_setup sample_env (\<lambda>ps p n t. Inr ps) (\<lambda>m q k n. Inr q) 5 (0::nat) True sample_subset
      sample_signing (NewCommunication ''aaaaaaa1'') = (Inr (env_parties sample_env [''aaaaaaa1'', ''aaaaaaa3'']), s1,
      snd (Subscribe (bt_SID (sg_base sample_signing)) TssKeySignMsg 5 0 (NewCommunication ''aaaaaaa1'')))" "sg_coordinator s1"
    using sample_Signing_setup [of 5 0 True sample_signing] by blast
  show ?thesis
    by (simp add: Signing_Run_def su pool_wait_def sample_signing_sched_def pool_step_def signing_task_def ecdsa_tasks_def
        monitorSigning_def monitor_tick_def signing_processEndMessage_def task_done_def new_pool_def first_error_def)
qed


theorem signing_rerun_leaks_witness:
  "\<exists>s2 c2. sub_view (cs_subs (Signing_Stop (s2 :: nat signing) c2)) (sub_key ''s'' TssKeySignMsg 5) = Some (0::nat)"
proof -
  let ?np = "\<lambda>ps p n t. Inr ps" and ?pp = "\<lambda>m q k n. Inr q"
  have d: "CHR ''-'' \<notin> set (bt_SID (sg_base sample_signing))" by simp
  obtain s1 c1 where 1: "Signing_setup sample_env ?np ?pp 5 (0::nat) False sample_subset sample_signing (NewCommunication ''aaaaaaa1'') =
      (Inr (env_parties sample_env [''aaaaaaa1'', ''aaaaaaa3'']), s1, c1)"
    using sample_Signing_setup [of 5 0 False sample_signing] by blast
  obtain s2 c2 where 2: "Signing_setup sample_env ?np ?pp 6 (1::nat) False sample_subset s1 c1 =
      (Inr (env_parties sample_env [''aaaaaaa1'', ''aaaaaaa3'']), s2, c2)"
    using sample_Signing_setup [of 6 1 False s1] by blast
  have "sub_key (bt_SID (sg_base sample_signing)) TssKeySignMsg 5 \<noteq> sub_key (bt_SID (sg_base sample_signing)) TssKeySignMsg 6"
    by (simp add: sub_key_def SubscriptionIdentifier_New TssKeySignMsg_def UnknownMsg_def show_nat.simps digit_char_def)
  from signing_rerun_leaks [OF d 1 2 this] show ?thesis by auto
qed

end
