(* ===== verification/EcdsaResharing.thy ===== *)
theory EcdsaResharing
  imports Process
begin

text \<open>
  ECDSA resharing, \<open>tss_util/tss/ecdsa/resharing/resharing.go\<close>: the start parameters that name the
  old committee, their validation by a relayer that belongs to it, and the numbering of the new
  committee.  Go sorts the two slices of \<open>validateStartParams\<close> in place, so the sorted slices are
  part of its answer here.
\<close>

record reshare_params =
  OldThreshold :: int
  OldSubset :: "peer_id list"

record 'k resharing =
  rs_base :: base_tss
  rs_key :: "'k ecdsa_keyshare"
  rs_subscriptionID :: string
  rs_newThreshold :: int

definition NewResharing ::
  "'c tss_env \<Rightarrow> 'k \<Rightarrow> (keyfile \<Rightarrow> 'k ecdsa_keyshare result) \<Rightarrow> session_id \<Rightarrow> int \<Rightarrow> keyfile \<Rightarrow> bool \<Rightarrow> ('k resharing \<times> bool) option" where
  "NewResharing E zero_key get sessionID threshold f mu =
     (case LockKeyshare mu of
        None \<Rightarrow> None
      | Some mu1 \<Rightarrow>
          (let key = (case get f of Inl err \<Rightarrow> NewECDSAKeyshare zero_key 0 [] | Inr key \<Rightarrow> key)
           in Some (\<lparr>rs_base = \<lparr>bt_SID = sessionID, bt_PartyStore = (\<lambda>_. None), bt_Peers = te_peerstore E\<rparr>,
                rs_key = key, rs_subscriptionID = '''', rs_newThreshold = threshold\<rparr>, mu1)))"

definition Resharing_Ready :: "peer_id list \<Rightarrow> peer_id list \<Rightarrow> peer_id list \<Rightarrow> bool result" where
  "Resharing_Ready peerstore readyPeers excludedPeers = Inr (length readyPeers = length peerstore)"

fun match_subset :: "(peer_id \<Rightarrow> string) \<Rightarrow> peer_id \<Rightarrow> peer_id list \<Rightarrow> bool" where
  "match_subset pretty peer [] = False"
| "match_subset pretty peer (subsetPeer # rest) = (if pretty subsetPeer = pretty peer then True else match_subset pretty peer rest)"

definition Resharing_ValidCoordinators :: "(peer_id \<Rightarrow> string) \<Rightarrow> peer_id list \<Rightarrow> 'k resharing \<Rightarrow> peer_id list" where
  "Resharing_ValidCoordinators pretty peerstore r = filter (\<lambda>peer. match_subset pretty peer (ek_Peers (rs_key r))) peerstore"

definition Resharing_StartParams :: "'c tss_env \<Rightarrow> 'k resharing \<Rightarrow> peer_id list \<Rightarrow> bytes" where
  "Resharing_StartParams E r readyPeers =
     (let oldSubset = PeersIntersection (ek_Peers (rs_key r)) (te_peerstore E)
      in te_print E (JObj [(''oldThreshold'', JNum (ek_Threshold (rs_key r))),
           (''oldSubset'', JArr (map (enc_peer (te_pretty E)) oldSubset))]))"

definition validateStartParams :: "peer_id list \<Rightarrow> peer_id list \<Rightarrow> reshare_params \<Rightarrow> (go_error option \<times> peer_id list \<times> peer_id list)" where
  "validateStartParams peerstore keyPeers params =
     (if OldThreshold params \<le> 0 then (Some (Errorf ''threshold too small''), OldSubset params, keyPeers)
      else if int (length (OldSubset params)) < OldThreshold params
      then (Some (Errorf ''threshold bigger then subset''), OldSubset params, keyPeers)
      else
        (let subset1 = slices_Sort (OldSubset params);
             keyPeers1 = slices_Sort keyPeers
         in if length keyPeers1 \<noteq> 0 \<and> subset1 \<noteq> PeersIntersection keyPeers1 peerstore
            then (Some (Errorf ''invalid peers subset in start params''), subset1, keyPeers1)
            else (None, subset1, keyPeers1)))"

text \<open>The answer: the parameters or the error, and the peers of the key as the sort left them.\<close>

definition resharing_unmarshallStartParams ::
  "'c tss_env \<Rightarrow> 'k resharing \<Rightarrow> bytes \<Rightarrow> reshare_params result \<times> 'k resharing" where
  "resharing_unmarshallStartParams E r paramBytes =
     (case (case parse_object (te_parse E) paramBytes of Inl err \<Rightarrow> Inl err
            | Inr fs \<Rightarrow> (case dec_field dec_int ''oldThreshold'' 0 fs of Inl err \<Rightarrow> Inl err
               | Inr t \<Rightarrow> (case dec_field (dec_list '''' (dec_peer (te_decode E))) ''oldSubset'' [] fs of Inl err \<Rightarrow> Inl err
                  | Inr ps \<Rightarrow> Inr \<lparr>OldThreshold = t, OldSubset = ps\<rparr>))) of
        Inl err \<Rightarrow> (Inl err, r)
      | Inr params \<Rightarrow>
          (case validateStartParams (te_peerstore E) (ek_Peers (rs_key r)) params of
             (e, subset1, keyPeers1) \<Rightarrow>
               (let r1 = r\<lparr>rs_key := (rs_key r)\<lparr>ek_Peers := keyPeers1\<rparr>\<rparr>
                in case e of Some err \<Rightarrow> (Inl err, r1) | None \<Rightarrow> (Inr (params\<lparr>OldSubset := subset1\<rparr>), r1))))"

text \<open>
  \<open>sortParties\<close>: the slice \<open>newParties\<close> starts with nil entries (\<open>None\<close>); writing past its end
  panics.  The errors of decoding are dropped, which leaves no old peers and the empty identity.
\<close>

fun sort_new :: "(string \<Rightarrow> peer_id option) \<Rightarrow> (peer_id \<Rightarrow> string) \<Rightarrow> peer_id list \<Rightarrow> party_id list \<Rightarrow> nat \<Rightarrow> party_id option list \<Rightarrow>
  party_id option list outcome" where
  "sort_new decode pretty oldPeers [] index newParties = Returns newParties"
| "sort_new decode pretty oldPeers (party # parties) index newParties =
     (let peerID = (case decode (party_Id party) of None \<Rightarrow> '''' | Some p \<Rightarrow> p)
      in if \<not> IsParticipant pretty peerID oldPeers
         then if index < length newParties
              then sort_new decode pretty oldPeers parties (index + 1) (newParties[index := Some (party\<lparr>party_Index := int index\<rparr>)])
              else Panics ''index out of range''
         else sort_new decode pretty oldPeers parties index newParties)"

definition sortParties :: "(string \<Rightarrow> peer_id option) \<Rightarrow> (peer_id \<Rightarrow> string) \<Rightarrow> party_id list \<Rightarrow> party_id list \<Rightarrow> party_id option list outcome" where
  "sortParties decode pretty parties oldParties =
     (let newParties = map Some (take (length parties) oldParties) @ replicate (length parties - length oldParties) None;
          index = length oldParties;
          oldPeers = (case PeersFromParties decode oldParties of Inl _ \<Rightarrow> [] | Inr ps \<Rightarrow> ps)
      in sort_new decode pretty oldPeers parties index newParties)"

definition resharing_processEndMessage ::
  "('k ecdsa_keyshare \<Rightarrow> keyfile \<Rightarrow> go_error option \<times> keyfile) \<Rightarrow> int \<Rightarrow> 'k \<Rightarrow> ('k, 'p, 'c) ecdsa_run \<Rightarrow>
   ('k, 'p, 'c) ecdsa_run \<times> task_result" where
  "resharing_processEndMessage store newThreshold key s =
     (let keyshare = NewECDSAKeyshare key newThreshold (bt_Peers (er_base s));
          (err, f) = store keyshare (er_file s)
      in (s\<lparr>er_file := f\<rparr>, FinishCancel err))"

text \<open>\<open>Run\<close> up to the creation of the pool; a panic (an old committee that does not fit into the
  peerstore) is not recovered.  \<open>new_params\<close> is tss-lib's \<open>NewReSharingParameters\<close>.\<close>

definition Resharing_setup ::
  "'c tss_env \<Rightarrow> (party_id list \<Rightarrow> party_id list \<Rightarrow> party_id option \<Rightarrow> nat \<Rightarrow> int \<Rightarrow> nat \<Rightarrow> int \<Rightarrow> 'q result) \<Rightarrow>
   ('q \<Rightarrow> 'k \<Rightarrow> nat \<Rightarrow> 'p result) \<Rightarrow> 64 word \<Rightarrow> 'c \<Rightarrow> bytes \<Rightarrow> 'k resharing \<Rightarrow> 'c comm_state \<Rightarrow>
   ('p result \<times> 'k resharing \<times> 'c comm_state) outcome" where
  "Resharing_setup E new_params new_party now msgChn params r0 c =
     (case resharing_unmarshallStartParams E r0 params of
        (Inl err, r) \<Rightarrow> Returns (Inl err, r, c)
      | (Inr sp, r) \<Rightarrow>
          (let oldParties = env_parties E (OldSubset sp) in
           case sortParties (te_decode E) (te_pretty E) (env_parties E (te_peerstore E)) oldParties of
             Panics e \<Rightarrow> Panics e
           | Returns slots \<Rightarrow>
               if None \<in> set slots then Panics ''nil pointer dereference''
               else
                 (let newParties = map the slots;
                      b = (rs_base r)\<lparr>bt_PartyStore := PopulatePartyStore newParties (bt_PartyStore (rs_base r))\<rparr>;
                      r1 = r\<lparr>rs_base := b\<rparr>
                  in case new_params oldParties newParties (bt_PartyStore b (te_pretty E (te_hostID E)))
                            (length oldParties) (OldThreshold sp) (length newParties) (rs_newThreshold r) of
                       Inl err \<Rightarrow> Returns (Inl err, r1, c)
                     | Inr tssParams \<Rightarrow>
                         (let (subID, c1) = Subscribe (bt_SID b) TssReshareMsg now msgChn c
                          in Returns (new_party tssParams (ek_Key (rs_key r)) (big_set_bytes (bt_SID b)),
                               r1\<lparr>rs_subscriptionID := subID\<rparr>, c1)))))"

definition resharing_task ::
  "'c tss_env \<Rightarrow> 'p party_lib \<Rightarrow> ('k ecdsa_keyshare \<Rightarrow> keyfile \<Rightarrow> go_error option \<times> keyfile) \<Rightarrow> int \<Rightarrow>
   nat \<Rightarrow> 'k ecdsa_event \<Rightarrow> ('k, 'p, 'c) ecdsa_run \<Rightarrow> ('k, 'p, 'c) ecdsa_run \<times> task_result" where
  "resharing_task E P store newThreshold =
     ecdsa_tasks E P TssReshareMsg (resharing_processEndMessage store newThreshold) no_monitor"

definition Resharing_Run ::
  "'c tss_env \<Rightarrow> (party_id list \<Rightarrow> party_id list \<Rightarrow> party_id option \<Rightarrow> nat \<Rightarrow> int \<Rightarrow> nat \<Rightarrow> int \<Rightarrow> 'q result) \<Rightarrow>
   ('q \<Rightarrow> 'k \<Rightarrow> nat \<Rightarrow> 'p result) \<Rightarrow> 'p party_lib \<Rightarrow> ('k ecdsa_keyshare \<Rightarrow> keyfile \<Rightarrow> go_error option \<times> keyfile) \<Rightarrow> 64 word \<Rightarrow> 'c \<Rightarrow>
   (nat \<times> 'k ecdsa_event task_event) list \<Rightarrow> bytes \<Rightarrow> 'k resharing \<Rightarrow> 'c comm_state \<Rightarrow> keyfile \<Rightarrow>
   (go_error option \<times> 'k resharing \<times> 'c comm_state \<times> keyfile) outcome option" where
  "Resharing_Run E new_params new_party P store now msgChn sched params r c f =
     (case Resharing_setup E new_params new_party now msgChn params r c of
        Panics e \<Rightarrow> Some (Panics e)
      | Returns (Inl err, r1, c1) \<Rightarrow> Some (Returns (Some err, r1, c1, f))
      | Returns (Inr party, r1, c1) \<Rightarrow>
          (case pl_start P party of
             (party1, Some tssError) \<Rightarrow> Some (Returns (Some tssError, r1, c1, f))
           | (party1, None) \<Rightarrow>
               (case pool_wait (te_wait E) (resharing_task E P store (rs_newThreshold r1)) [0, 1, 2] sched
                       \<lparr>er_base = rs_base r1, er_comm = c1, er_party = party1, er_file = f, er_results = [], er_waitingFor = []\<rparr> of
                  None \<Rightarrow> None
                | Some (res, s) \<Rightarrow> Some (Returns (res, r1, er_comm s, er_file s)))))"

definition Resharing_Stop :: "'k resharing \<Rightarrow> 'c comm_state \<Rightarrow> bool \<Rightarrow> ('c comm_state \<times> bool) outcome" where
  "Resharing_Stop r c mu =
     (let c1 = UnSubscribe (rs_subscriptionID r) c in
      case UnlockKeyshare mu of Panics e \<Rightarrow> Panics e | Returns mu1 \<Rightarrow> Returns (c1, mu1))"

definition Resharing_Retryable :: bool where
  "Resharing_Retryable = False"

definition resharing_process :: "'c tss_env \<Rightarrow> 'k resharing \<Rightarrow> tss_process" where
  "resharing_process E r = \<lparr>tp_SessionID = bt_SID (rs_base r), tp_Ready = Resharing_Ready (te_peerstore E),
     tp_Retryable = Resharing_Retryable, tp_StartParams = Resharing_StartParams E r,
     tp_ValidCoordinators = Resharing_ValidCoordinators (te_pretty E) (te_peerstore E) r\<rparr>"

interpretation resharing_proc: process_contract "resharing_process E r" "\<lambda>ps. True"
  for E :: "'c tss_env" and r :: "'k resharing"
  by unfold_locales (auto simp: resharing_process_def Resharing_Ready_def Resharing_StartParams_def dest: mset_eq_length)

subsection \<open>The new committee\<close>

definition renumber :: "nat \<Rightarrow> party_id list \<Rightarrow> party_id list" where
  "renumber i ps = map (\<lambda>(j, p). p\<lparr>party_Index := int j\<rparr>) (enumerate i ps)"

lemma renumber_simps [simp]:
  "renumber i [] = []" "renumber i (p # ps) = p\<lparr>party_Index := int i\<rparr> # renumber (Suc i) ps"
  "length (renumber i ps) = length ps"
  by (simp_all add: renumber_def)

lemma renumber_fields:
  "map party_Id (renumber i ps) = map party_Id ps" "map party_Index (renumber i ps) = map int [i..<i + length ps]"
  by (induction ps arbitrary: i) (simp_all add: upt_conv_Cons del: upt_Suc)

abbreviation outsider :: "(string \<Rightarrow> peer_id option) \<Rightarrow> (peer_id \<Rightarrow> string) \<Rightarrow> peer_id list \<Rightarrow> party_id \<Rightarrow> bool" where
  "outsider decode pretty oldPeers p \<equiv>
     \<not> IsParticipant pretty (case decode (party_Id p) of None \<Rightarrow> '''' | Some q \<Rightarrow> q) oldPeers"

lemma sort_new_fit:
  "i + length (filter (outsider decode pretty old) ps) \<le> length l \<Longrightarrow>
   sort_new decode pretty old ps i l = Returns (take i l @ map Some (renumber i (filter (outsider decode pretty old) ps)) @
     drop (i + length (filter (outsider decode pretty old) ps)) l)"
proof (induction ps arbitrary: i l)
  case (Cons p ps)
  show ?case
  proof (cases "outsider decode pretty old p")
    case True
    with Cons.prems have i: "i < length l" by simp
    then have "take (Suc i) (l[i := x]) = take i l @ [x]" for x by (simp add: take_Suc_conv_app_nth)
    with True i Cons.prems Cons.IH [of "Suc i"] show ?thesis by (simp add: Let_def)
  next
    case False
    with Cons show ?thesis by (simp add: Let_def)
  qed
qed simp

lemma sort_new_overflow:
  "length l < i + length (filter (outsider decode pretty old) ps) \<Longrightarrow> filter (outsider decode pretty old) ps \<noteq> [] \<Longrightarrow>
   sort_new decode pretty old ps i l = Panics ''index out of range''"
proof (induction ps arbitrary: i l)
  case (Cons p ps)
  show ?case
  proof (cases "outsider decode pretty old p")
    case True
    show ?thesis
    proof (cases "i < length l")
      case i: True
      with True Cons.prems(1) have "filter (outsider decode pretty old) ps \<noteq> []" by (cases "filter (outsider decode pretty old) ps") auto
      with i True Cons.prems Cons.IH [of "l[i := _]" "Suc i"] show ?thesis by (simp add: Let_def)
    next
      case False
      with True show ?thesis by (simp add: Let_def)
    qed
  next
    case False
    with Cons show ?thesis by (simp add: Let_def)
  qed
qed simp

lemma outsider_parties:
  assumes "tss_lib_ok L" and "codec_ok pretty decode" and "PeersFromParties decode (PartiesFromPeers L pretty old) = Inr qs"
  shows "mset (map party_Id (filter (outsider decode pretty qs) (PartiesFromPeers L pretty ps))) =
    mset (map pretty (filter (\<lambda>p. p \<notin> set old) ps))"
proof -
  let ?parties = "PartiesFromPeers L pretty ps"
  obtain rs where rs: "mset rs = mset ps" "map party_Id ?parties = map pretty rs"
    using PeersFromParties_PartiesFromPeers [OF assms(1,2), of ps] by blast
  have qs: "set qs = set old"
    using PeersFromParties_PartiesFromPeers [OF assms(1,2), of old] assms(3) mset_eq_set by auto
  have out: "outsider decode pretty qs p = (party_Id p \<notin> pretty ` set old)" if "p \<in> set ?parties" for p
  proof -
    have "party_Id p \<in> set (map pretty rs)" using that rs(2) by (metis image_eqI list.set_map)
    then obtain q where "party_Id p = pretty q" by auto
    then show ?thesis
      using assms(2) by (simp add: codec_ok_def IsParticipant_iff qs)
  qed
  have "filter (outsider decode pretty qs) ?parties = filter (\<lambda>p. party_Id p \<notin> pretty ` set old) ?parties"
    by (rule filter_cong [OF refl]) (rule out)
  then have "map party_Id (filter (outsider decode pretty qs) ?parties) =
      map party_Id (filter (\<lambda>p. party_Id p \<notin> pretty ` set old) ?parties)" by (rule arg_cong)
  also have "\<dots> = filter (\<lambda>i. i \<notin> pretty ` set old) (map pretty rs)"
    unfolding rs(2) [symmetric] by (rule map_filter_image)
  also have "\<dots> = map pretty (filter (\<lambda>p. pretty p \<notin> pretty ` set old) rs)"
    by (rule map_filter_image [symmetric])
  also have "(\<lambda>p. pretty p \<notin> pretty ` set old) = (\<lambda>p. p \<notin> set old)"
    using inj_image_mem_iff [OF codec_ok_inj [OF assms(2)]] by simp
  finally show ?thesis using rs(1) by (simp only: mset_map) (simp add: filter_mset_eq)
qed

lemma sortParties_eq:
  assumes "tss_lib_ok L" and "codec_ok pretty decode"
  shows "\<exists>new. mset (map party_Id new) = mset (map pretty (filter (\<lambda>p. p \<notin> set old) ps)) \<and>
    (length old + length new \<le> length ps \<longrightarrow>
      sortParties decode pretty (PartiesFromPeers L pretty ps) (PartiesFromPeers L pretty old) =
      Returns (map Some (PartiesFromPeers L pretty old @ renumber (length old) new) @
        replicate (length ps - (length old + length new)) None)) \<and>
    (length ps < length old + length new \<longrightarrow> new \<noteq> [] \<longrightarrow>
      sortParties decode pretty (PartiesFromPeers L pretty ps) (PartiesFromPeers L pretty old) = Panics ''index out of range'')"
proof -
  obtain qs where qs: "PeersFromParties decode (PartiesFromPeers L pretty old) = Inr qs"
    using PeersFromParties_PartiesFromPeers [OF assms, of old] by blast
  let ?new = "filter (outsider decode pretty qs) (PartiesFromPeers L pretty ps)"
  note len = PartiesFromPeers_length [OF assms(1)]
  have "sortParties decode pretty (PartiesFromPeers L pretty ps) (PartiesFromPeers L pretty old) =
      Returns (map Some (PartiesFromPeers L pretty old @ renumber (length old) ?new) @
        replicate (length ps - (length old + length ?new)) None)" if "length old + length ?new \<le> length ps"
    using that by (simp add: sortParties_def Let_def qs len sort_new_fit)
  moreover have "sortParties decode pretty (PartiesFromPeers L pretty ps) (PartiesFromPeers L pretty old) = Panics ''index out of range''"
    if "length ps < length old + length ?new" and "?new \<noteq> []"
    using that by (simp add: sortParties_def Let_def qs len sort_new_overflow)
  ultimately show ?thesis using outsider_parties [OF assms qs] by blast
qed

lemma count_outside:
  assumes "distinct ps"
  shows "length (filter (\<lambda>p. p \<notin> set old) ps) = card (set ps - set old)"
    and "length ps = card (set ps - set old) + card (set ps \<inter> set old)"
  using assms distinct_card [of "filter (\<lambda>p. p \<notin> set old) ps"] card_Diff_subset_Int [of "set ps" "set old"]
    card_mono [of "set ps" "set ps \<inter> set old"]
  by (auto simp: set_diff_eq distinct_card)

lemma resharing_sorted:
  assumes "tss_lib_ok L" and "codec_ok pretty decode" and "distinct peerstore" and "distinct old" and "set old \<subseteq> set peerstore"
  shows "\<exists>committee. sortParties decode pretty (PartiesFromPeers L pretty peerstore) (PartiesFromPeers L pretty old) =
      Returns (map Some committee) \<and>
    take (length old) committee = PartiesFromPeers L pretty old \<and>
    map party_Index committee = map int [0..<length peerstore] \<and>
    mset (map party_Id committee) = mset (map pretty peerstore)"
proof -
  obtain new :: "party_id list" where new: "mset (map party_Id new) = mset (map pretty (filter (\<lambda>p. p \<notin> set old) peerstore))"
    and fit: "length old + length new \<le> length peerstore \<Longrightarrow>
      sortParties decode pretty (PartiesFromPeers L pretty peerstore) (PartiesFromPeers L pretty old) =
      Returns (map Some (PartiesFromPeers L pretty old @ renumber (length old) new) @
        replicate (length peerstore - (length old + length new)) None)"
    using sortParties_eq [OF assms(1,2), of old peerstore] by blast
  have "length new = length (filter (\<lambda>p. p \<notin> set old) peerstore)" using mset_eq_length [OF new] by simp
  moreover have "set peerstore \<inter> set old = set old" using assms(5) by blast
  ultimately have len: "length old + length new = length peerstore"
    using count_outside [OF assms(3), of old] distinct_card [OF assms(4)] by simp
  let ?committee = "PartiesFromPeers L pretty old @ renumber (length old) new"
  have "map party_Index ?committee = map int ([0..<length old] @ [length old..<length old + length new])"
    by (simp add: PartiesFromPeers_Index [OF assms(1)] renumber_fields)
  also have "\<dots> = map int [0..<length peerstore]" using len by (metis le0 upt_add_eq_append)
  finally have idx: "map party_Index ?committee = map int [0..<length peerstore]" .
  have "set old = set (filter (\<lambda>p. p \<in> set old) peerstore)" using assms(5) by auto
  from iffD1 [OF set_eq_iff_mset_eq_distinct [OF assms(4) distinct_filter [OF assms(3)]] this]
  have "mset old = filter_mset (\<lambda>p. p \<in> set old) (mset peerstore)" by (simp only: mset_filter)
  then have "mset old + filter_mset (\<lambda>p. p \<notin> set old) (mset peerstore) = mset peerstore"
    using multiset_partition [of "mset peerstore" "\<lambda>p. p \<in> set old"] by metis
  then have "mset (map pretty old) + mset (map pretty (filter (\<lambda>p. p \<notin> set old) peerstore)) = mset (map pretty peerstore)"
    by (simp only: mset_map mset_filter image_mset_union [symmetric])
  then have ids: "mset (map party_Id ?committee) = mset (map pretty peerstore)"
    using new PartiesFromPeers_Ids [OF assms(1), of pretty old] by (simp add: renumber_fields del: mset_map)
  show ?thesis
    using fit len idx ids by (intro exI [of _ ?committee]) (simp add: PartiesFromPeers_length [OF assms(1)])
qed

subsection \<open>Properties\<close>

text \<open>C15 (resharing_committee): when the old committee is part of the peerstore, the new committee is the
  old parties with their indexes followed by every other peer of the peerstore, numbered without a
  gap: no peer is missing, none occurs twice, and no slot stays nil.\<close>

theorem resharing_committee:
  assumes "tss_lib_ok L" and "codec_ok pretty decode" and "distinct peerstore" and "distinct old" and "set old \<subseteq> set peerstore"
  shows "\<exists>committee. sortParties decode pretty (PartiesFromPeers L pretty peerstore) (PartiesFromPeers L pretty old) =
      Returns (map Some committee) \<and>
    take (length old) committee = PartiesFromPeers L pretty old \<and>
    map party_Index committee = map int [0..<length peerstore] \<and>
    mset (map party_Id committee) = mset (map pretty peerstore)"
  by (rule resharing_sorted [OF assms])

lemma sortParties_foreign:
  assumes "tss_lib_ok L" and "codec_ok pretty decode" and "distinct peerstore"
    and "\<not> set old \<subseteq> set peerstore" and "\<not> set peerstore \<subseteq> set old"
  shows "sortParties decode pretty (PartiesFromPeers L pretty peerstore) (PartiesFromPeers L pretty old) = Panics ''index out of range''"
proof -
  obtain new :: "party_id list" where new: "mset (map party_Id new) = mset (map pretty (filter (\<lambda>p. p \<notin> set old) peerstore))"
    and over: "length peerstore < length old + length new \<Longrightarrow> new \<noteq> [] \<Longrightarrow>
      sortParties decode pretty (PartiesFromPeers L pretty peerstore) (PartiesFromPeers L pretty old) = Panics ''index out of range''"
    using sortParties_eq [OF assms(1,2), of old peerstore] by blast
  have "length new = card (set peerstore - set old)"
    using mset_eq_length [OF new] count_outside(1) [OF assms(3)] by simp
  moreover have "card (set peerstore - set old) \<noteq> 0" using assms(5) by auto
  moreover have "card (set peerstore \<inter> set old) < card (set old)"
    using assms(4) by (intro psubset_card_mono) auto
  moreover have "card (set old) \<le> length old" by (rule card_length)
  ultimately have "length peerstore < length old + length new" and "new \<noteq> []"
    using count_outside(2) [OF assms(3), of old] by (linarith, metis list.size(3))
  then show ?thesis by (rule over)
qed


lemma resharing_unmarshal_JObj:
  assumes "json_text_ok (te_print E) (te_parse E)" and "codec_ok (te_pretty E) (te_decode E)" and "int64 t"
  shows "resharing_unmarshallStartParams E r
      (te_print E (JObj [(''oldThreshold'', JNum t), (''oldSubset'', JArr (map (enc_peer (te_pretty E)) ps))])) =
    (case validateStartParams (te_peerstore E) (ek_Peers (rs_key r)) \<lparr>OldThreshold = t, OldSubset = ps\<rparr> of
       (e, subset1, keyPeers1) \<Rightarrow>
         (case e of Some err \<Rightarrow> Inl err | None \<Rightarrow> Inr \<lparr>OldThreshold = t, OldSubset = subset1\<rparr>,
          r\<lparr>rs_key := (rs_key r)\<lparr>ek_Peers := keyPeers1\<rparr>\<rparr>))"
  using assms
  by (simp add: resharing_unmarshallStartParams_def go_std ascii_lower_def int64_def Let_def split: prod.split option.split)


lemma unmarshal_frame:
  "resharing_unmarshallStartParams E r params = (x, r1) \<Longrightarrow> rs_newThreshold r1 = rs_newThreshold r \<and> rs_base r1 = rs_base r"
  by (auto simp: resharing_unmarshallStartParams_def Let_def split: sum.splits prod.splits option.splits)

lemma Resharing_setup_frame:
  assumes "Resharing_setup E np pp now ch params r c = Returns (x, r1, c1)"
  shows "rs_newThreshold r1 = rs_newThreshold r \<and> bt_Peers (rs_base r1) = bt_Peers (rs_base r)"
  using assms
  by (auto simp: Resharing_setup_def Let_def split: sum.splits prod.splits outcome.splits if_splits dest!: unmarshal_frame)

lemma resharing_stores: "stores_end store t0 (resharing_processEndMessage store t0)"
  by (auto simp: stores_end_def resharing_processEndMessage_def Let_def split: prod.split)

text \<open>Fact (resharing_success_stores): a resharing that ends without an error and without being cancelled has
  replaced the keyshare by one with the new threshold and the new committee.\<close>

theorem resharing_success_stores:
  assumes "wait_ok (te_wait E)" and "uncancelled sched"
    and "Resharing_Run E np pp P (ecdsa_StoreKeyshare K (te_print E) (te_pretty E) io) now ch sched params r c f =
      Some (Returns (None, r1, c1, f1))"
    and "\<And>key. ecdsa_storable K (te_print E) (te_parse E) (te_pretty E) (te_decode E) io
           (NewECDSAKeyshare key (rs_newThreshold r) (bt_Peers (rs_base r)))"
  shows "\<exists>key. ecdsa_GetKeyshare K (te_parse E) (te_decode E) f1 =
           Inr (NewECDSAKeyshare key (rs_newThreshold r) (bt_Peers (rs_base r)))"
proof -
  let ?store = "ecdsa_StoreKeyshare K (te_print E) (te_pretty E) io"
  from assms(3) obtain party c0 s where su: "Resharing_setup E np pp now ch params r c = Returns (Inr party, r1, c0)"
    and wait: "pool_wait (te_wait E) (resharing_task E P ?store (rs_newThreshold r1)) [0, 1, 2] sched
         \<lparr>er_base = rs_base r1, er_comm = c0, er_party = fst (pl_start P party), er_file = f, er_results = [], er_waitingFor = []\<rparr>
       = Some (None, s)" and f1: "f1 = er_file s"
    by (auto simp: Resharing_Run_def split: option.splits sum.splits prod.splits outcome.splits)
  from pool_wait_nil [OF assms(1) wait] obtain p where
    run: "pool_run (resharing_task E P ?store (rs_newThreshold r1)) sched
      (new_pool [0, 1, 2], \<lparr>er_base = rs_base r1, er_comm = c0, er_party = fst (pl_start P party), er_file = f,
        er_results = [], er_waitingFor = []\<rparr>) = Some (p, s)" and fin: "pool_live p = []" "pool_errs p = []"
    by metis
  from storing_pool [OF resharing_stores run [unfolded resharing_task_def] assms(2) fin] f1 Resharing_setup_frame [OF su]
  obtain key f0 where "?store (NewECDSAKeyshare key (rs_newThreshold r) (bt_Peers (rs_base r))) f0 = (None, f1)"
    by auto
  with ecdsa_store.get_stored [OF assms(4) [of key], of f0] show ?thesis by auto
qed

subsection \<open>Witnesses\<close>

definition sample_resharing :: "peer_id list \<Rightarrow> nat resharing" where
  "sample_resharing keyPeers = \<lparr>rs_base = \<lparr>bt_SID = ''reshare1'', bt_PartyStore = (\<lambda>_. None), bt_Peers = te_peerstore sample_env\<rparr>,
     rs_key = NewECDSAKeyshare 7 1 keyPeers, rs_subscriptionID = '''', rs_newThreshold = 2\<rparr>"

lemma sample_resharing_simps [simp]:
  "ek_Peers (rs_key (sample_resharing ps)) = ps" "ek_Threshold (rs_key (sample_resharing ps)) = 1"
  "rs_newThreshold (sample_resharing ps) = 2"
  "bt_Peers (rs_base (sample_resharing ps)) = [''aaaaaaa1'', ''aaaaaaa2'', ''aaaaaaa3'']"
  by (simp_all add: sample_resharing_def NewECDSAKeyshare_def)

theorem resharing_committee_witness:
  "\<exists>committee. sortParties Some (\<lambda>p. p) (PartiesFromPeers plain_tss_lib (\<lambda>p. p) [''c'', ''a'', ''b''])
      (PartiesFromPeers plain_tss_lib (\<lambda>p. p) [''b'', ''c'']) = Returns (map Some committee) \<and>
    map party_Index committee = [0, 1, 2]"
  using resharing_committee [OF plain_tss_lib_ok codec_ok_id, of "[''c'', ''a'', ''b'']" "[''b'', ''c'']"]
  by (auto simp: upt_rec)

definition foreign_params :: bytes where
  "foreign_params = unary_print (JObj [(''oldThreshold'', JNum 1), (''oldSubset'', JArr (map (enc_peer (\<lambda>p. p)) [''zzz'', ''aaaaaaa1'']))])"



definition committee_params :: bytes where
  "committee_params = unary_print (JObj [(''oldThreshold'', JNum 1),
     (''oldSubset'', JArr (map (enc_peer (\<lambda>p. p)) [''aaaaaaa1'', ''aaaaaaa2'', ''aaaaaaa3'']))])"

lemma sample_resharing_setup:
  "\<exists>party r1 c1. Resharing_setup sample_env (\<lambda>ops nps p n t m u. Inr nps) (\<lambda>q k n. Inr q) 5 (0::nat) committee_params
     (sample_resharing []) (NewCommunication ''aaaaaaa1'') = Returns (Inr party, r1, c1) \<and>
     rs_newThreshold r1 = 2 \<and> bt_Peers (rs_base r1) = [''aaaaaaa1'', ''aaaaaaa2'', ''aaaaaaa3'']"
proof -
  let ?old = "slices_Sort [''aaaaaaa1'', ''aaaaaaa2'', ''aaaaaaa3'']" and ?ps = "[''aaaaaaa1'', ''aaaaaaa2'', ''aaaaaaa3'']"
  have ok: "json_text_ok (te_print sample_env) (te_parse sample_env)" "codec_ok (te_pretty sample_env) (te_decode sample_env)"
    using json_text_ok_unary codec_ok_id by simp_all
  have "validateStartParams qs [] \<lparr>OldThreshold = 1, OldSubset = ?ps\<rparr> = (None, ?old, [])" for qs
    by (simp add: validateStartParams_def Let_def slices_Sort_Nil slices_Sort_def)
  with resharing_unmarshal_JObj [OF ok, of 1 "sample_resharing []" ?ps]
  obtain r1 where r1: "resharing_unmarshallStartParams sample_env (sample_resharing []) committee_params =
      (Inr \<lparr>OldThreshold = 1, OldSubset = ?old\<rparr>, r1)"
    by (simp add: committee_params_def int64_def)
  then have r1': "rs_newThreshold r1 = 2" "bt_Peers (rs_base r1) = ?ps"
    using unmarshal_frame by fastforce+
  have "distinct ?ps" "distinct ?old" "set ?old \<subseteq> set ?ps" by (simp_all add: slices_Sort_def)
  from resharing_sorted [OF plain_tss_lib_ok codec_ok_id this]
  obtain committee where "sortParties Some (\<lambda>p. p) (PartiesFromPeers plain_tss_lib (\<lambda>p. p) ?ps)
      (PartiesFromPeers plain_tss_lib (\<lambda>p. p) ?old) = Returns (map Some committee)" by blast
  then show ?thesis
    using r1' by (simp add: Resharing_setup_def r1 Let_def split_beta comp_def image_iff)
qed

theorem resharing_success_stores_witness:
  "\<exists>r1 c1 f1 key. Resharing_Run sample_env (\<lambda>ops nps p n t m u. Inr nps) (\<lambda>q k n. Inr q) sample_party
     (ecdsa_StoreKeyshare nat_key_codec unary_print (\<lambda>p. p) good_io) 5 (0::nat)
     [(2, Event (EndMsg 7)), (1, CtxDone), (0, CtxDone)] committee_params (sample_resharing []) (NewCommunication ''aaaaaaa1'') None =
     Some (Returns (None, r1, c1, f1)) \<and>
   ecdsa_GetKeyshare nat_key_codec unary_parse Some f1 = Inr (NewECDSAKeyshare key 2 [''aaaaaaa1'', ''aaaaaaa2'', ''aaaaaaa3''])"
proof -
  obtain party r1 c1 where su: "Resharing_setup sample_env (\<lambda>ops nps p n t m u. Inr nps) (\<lambda>q k n. Inr q) 5 (0::nat) committee_params
     (sample_resharing []) (NewCommunication ''aaaaaaa1'') = Returns (Inr party, r1, c1)"
    and r1: "rs_newThreshold r1 = 2" "bt_Peers (rs_base r1) = [''aaaaaaa1'', ''aaaaaaa2'', ''aaaaaaa3'']"
    using sample_resharing_setup by blast
  let ?sched = "[(2, Event (EndMsg 7)), (1, CtxDone), (0, CtxDone)] :: (nat \<times> nat ecdsa_event task_event) list"
  have "\<exists>c1 f1. Resharing_Run sample_env (\<lambda>ops nps p n t m u. Inr nps) (\<lambda>q k n. Inr q) sample_party
     (ecdsa_StoreKeyshare nat_key_codec unary_print (\<lambda>p. p) good_io) 5 (0::nat) ?sched committee_params (sample_resharing [])
     (NewCommunication ''aaaaaaa1'') None = Some (Returns (None, r1, c1, f1))"
    by (simp add: Resharing_Run_def su r1 pool_wait_def pool_step_def resharing_task_def ecdsa_tasks_def Let_def
      resharing_processEndMessage_def ecdsa_StoreKeyshare_def store_truncating_def good_io_def ecdsa_marshal_def
      nat_key_codec_def NewECDSAKeyshare_def task_done_def new_pool_def first_error_def)
  then obtain c2 f1 where run: "Resharing_Run sample_env (\<lambda>ops nps p n t m u. Inr nps) (\<lambda>q k n. Inr q) sample_party
     (ecdsa_StoreKeyshare nat_key_codec (te_print sample_env) (te_pretty sample_env) good_io) 5 (0::nat) ?sched committee_params (sample_resharing [])
     (NewCommunication ''aaaaaaa1'') None = Some (Returns (None, r1, c2, f1))" by auto
  have "ecdsa_storable nat_key_codec (te_print sample_env) (te_parse sample_env) (te_pretty sample_env)
      (te_decode sample_env) good_io (NewECDSAKeyshare key (rs_newThreshold (sample_resharing [])) (bt_Peers (rs_base (sample_resharing []))))" for key
    using codec_instances json_text_ok_unary codec_ok_id
    by (simp add: ecdsa_storable_def NewECDSAKeyshare_def int64_def)
  then have "\<exists>key. ecdsa_GetKeyshare nat_key_codec (te_parse sample_env) (te_decode sample_env) f1 =
      Inr (NewECDSAKeyshare key (rs_newThreshold (sample_resharing [])) (bt_Peers (rs_base (sample_resharing []))))"
    by (intro resharing_success_stores [OF _ _ run]) (simp_all add: wait_ok_first_error)
  with run show ?thesis by auto
qed

end
