(* ===== verification/FrostKeygen.thy ===== *)
theory FrostKeygen
  imports Process
begin

text \<open>
  Frost key generation and resharing, \<open>tss_util/tss/frost/keygen/keygen.go\<close> and
  \<open>tss_util/tss/frost/resharing/resharing.go\<close>.  Both take the keyshare lock in their constructor.
  \<open>new_handler\<close> is the protocol library's \<open>NewMultiHandler\<close> applied to the protocol, \<open>get_result\<close>
  its \<open>Result\<close>, and \<open>to_slice\<close> lists each element of a set once.
\<close>

subsection \<open>The end of a run\<close>

definition frost_stores_end ::
  "(('sc, 'pt) frost_keyshare \<Rightarrow> keyfile \<Rightarrow> go_error option \<times> keyfile) \<Rightarrow> int \<Rightarrow> ('h \<Rightarrow> ('sc, 'pt) taproot_config result) \<Rightarrow>
   (('h, 'c) frost_run \<Rightarrow> ('h, 'c) frost_run \<times> task_result) \<Rightarrow> bool" where
  "frost_stores_end store t0 get_result on_done \<longleftrightarrow> (\<forall>s. on_done s =
     (case get_result (fr_handler s) of
        Inl err \<Rightarrow> (s, Finish (Some err))
      | Inr cfg \<Rightarrow>
          (case store (NewFrostKeyshare cfg t0 (fb_Peers (fr_base s))) (fr_file s) of
             (Some err, f) \<Rightarrow> (s\<lparr>fr_file := f\<rparr>, Finish (Some err))
           | (None, f) \<Rightarrow> (s\<lparr>fr_file := f\<rparr>, FinishCancel None))))"

lemma frost_storing_taskE:
  assumes "frost_stores_end store t0 get_result on_done" and "frost_tasks E F mt on_done t e s = (s', r)"
  obtains (stop) cfg f where "t = 1" "get_result (fr_handler s) = Inr cfg" "store (NewFrostKeyshare cfg t0 (fb_Peers (fr_base s))) (fr_file s) = (None, f)"
    "r = FinishCancel None" "fr_file s' = f" "fr_base s' = fr_base s"
  | (fail) err where "t = 1" "r = Finish (Some err)" "fr_base s' = fr_base s"
  | (other) "result_continues r \<or> (t = 2 \<and> r = Finish None)" "fr_file s' = fr_file s" "fr_base s' = fr_base s"
  using assms(2)
proof (cases rule: frost_tasksE)
  case finish
  then show ?thesis using stop fail assms(1)
    by (auto simp: frost_stores_end_def split: sum.splits prod.splits option.splits)
qed (auto intro: other)

lemma frost_storing_pool:
  assumes end_ok: "frost_stores_end store t0 get_result on_done"
    and run: "pool_run (frost_tasks E F mt on_done) sched (new_pool [0, 1, 2], s) = Some (p, s')"
    and un: "uncancelled sched" and fin: "pool_live p = []" "pool_errs p = []"
  shows "\<exists>cfg f h. get_result h = Inr cfg \<and> store (NewFrostKeyshare cfg t0 (fb_Peers (fr_base s))) f = (None, fr_file s')"
proof -
  let ?S = "\<lambda>x. \<exists>cfg f h. get_result h = Inr cfg \<and> store (NewFrostKeyshare cfg t0 (fb_Peers (fr_base s))) f = (None, fr_file x)"
  let ?Q = "\<lambda>x. fr_base x = fr_base s \<longrightarrow> ?S x"
  note taskE = frost_storing_taskE [OF end_ok, consumes 1, case_names stop fail other]
  have "\<And>t e s s' r. frost_tasks E F mt on_done t e s = (s', r) \<Longrightarrow> fr_base s' = fr_base s"
    by (erule taskE) simp_all
  from pool_run_frame [where g = fr_base, OF this run] have base: "fr_base s' = fr_base s" by simp
  have "pool_errs (fst (p, s')) \<noteq> [] \<or> ?Q (snd (p, s'))"
  proof (rule pool_goal_reached [where w = 1 and Q = ?Q, OF _ _ _ run un])
    fix t e s1 s2 r assume "frost_tasks E F mt on_done t e s1 = (s2, FinishCancel r)"
    then show "r \<noteq> None \<or> t = 1 \<and> ?Q s2"
    proof (cases rule: taskE)
      case (stop cfg f)
      then have "fr_base s1 = fr_base s \<longrightarrow> ?S s2" by metis
      with stop show ?thesis by auto
    qed auto
  next
    fix e s1 s2 assume "frost_tasks E F mt on_done 1 e s1 = (s2, Finish None)"
    then show "?Q s2" by (cases rule: taskE) auto
  next
    fix t e s1 s2 r assume "t \<noteq> 1" "frost_tasks E F mt on_done t e s1 = (s2, r)" "?Q s1"
    from this(2,1,3) show "?Q s2" by (cases rule: taskE) auto
  qed (use fin in auto)
  with fin base show ?thesis by simp
qed

subsection \<open>Key generation\<close>

record frost_keygen =
  fkg_base :: frost_base
  fkg_threshold :: int
  fkg_subscriptionID :: string

definition frost_NewKeygen :: "'c tss_env \<Rightarrow> session_id \<Rightarrow> int \<Rightarrow> bool \<Rightarrow> (frost_keygen \<times> bool) option" where
  "frost_NewKeygen E sessionID threshold mu =
     (case frost_LockKeyshare mu of
        None \<Rightarrow> None
      | Some mu1 \<Rightarrow> Some (\<lparr>fkg_base = \<lparr>fb_SID = sessionID, fb_Peers = te_peerstore E\<rparr>,
          fkg_threshold = threshold, fkg_subscriptionID = ''''\<rparr>, mu1))"

definition frost_keygen_end ::
  "(('sc, 'pt) frost_keyshare \<Rightarrow> keyfile \<Rightarrow> go_error option \<times> keyfile) \<Rightarrow> int \<Rightarrow> ('h \<Rightarrow> ('sc, 'pt) taproot_config result) \<Rightarrow>
   ('h, 'c) frost_run \<Rightarrow> ('h, 'c) frost_run \<times> task_result" where
  "frost_keygen_end store threshold get_result s =
     (case get_result (fr_handler s) of
        Inl err \<Rightarrow> (s, Finish (Some err))
      | Inr taprootConfig \<Rightarrow>
          (let (e, f) = store (NewFrostKeyshare taprootConfig threshold (fb_Peers (fr_base s))) (fr_file s);
               s1 = s\<lparr>fr_file := f\<rparr>
           in case e of Some err \<Rightarrow> (s1, Finish (Some err)) | None \<Rightarrow> (s1, FinishCancel None)))"

definition frost_Keygen_Run ::
  "'c tss_env \<Rightarrow> (peer_id list \<Rightarrow> peer_id list) \<Rightarrow> (string \<Rightarrow> string list \<Rightarrow> int \<Rightarrow> session_id \<Rightarrow> 'h result) \<Rightarrow> ('h, 'm) frost_lib \<Rightarrow>
   ('h \<Rightarrow> ('sc, 'pt) taproot_config result) \<Rightarrow> (('sc, 'pt) frost_keyshare \<Rightarrow> keyfile \<Rightarrow> go_error option \<times> keyfile) \<Rightarrow>
   64 word \<Rightarrow> 'c \<Rightarrow> (nat \<times> frost_event task_event) list \<Rightarrow> frost_keygen \<Rightarrow> 'c comm_state \<Rightarrow> keyfile \<Rightarrow>
   (go_error option \<times> frost_keygen \<times> 'c comm_state \<times> keyfile) option" where
  "frost_Keygen_Run E to_slice new_handler F get_result store now msgChn sched k c f =
     (let (subID, c1) = Subscribe (fb_SID (fkg_base k)) TssKeyGenMsg now msgChn c;
          k1 = k\<lparr>fkg_subscriptionID := subID\<rparr>
      in case new_handler (te_pretty E (te_hostID E))
                (PartyIDSFromPeers to_slice (te_pretty E) (te_peerstore E @ [te_hostID E])) (fkg_threshold k) (fb_SID (fkg_base k)) of
           Inl err \<Rightarrow> Some (Some err, k1, c1, f)
         | Inr h \<Rightarrow>
             (case pool_wait_at frost_selecting (te_wait E) (frost_tasks E F TssKeyGenMsg (frost_keygen_end store (fkg_threshold k1) get_result)) [0, 1, 2] sched
                     \<lparr>fr_base = fkg_base k1, fr_comm = c1, fr_handler = h, fr_file = f, fr_pump = Pumping\<rparr> of
                None \<Rightarrow> None
              | Some (r, s) \<Rightarrow> Some (r, k1, fr_comm s, fr_file s)))"

definition frost_Keygen_Stop :: "frost_keygen \<Rightarrow> 'c comm_state \<Rightarrow> bool \<Rightarrow> ('c comm_state \<times> bool) outcome" where
  "frost_Keygen_Stop k c mu =
     (let c1 = UnSubscribe (fkg_subscriptionID k) c in
      case frost_UnlockKeyshare mu of Panics e \<Rightarrow> Panics e | Returns mu1 \<Rightarrow> Returns (c1, mu1))"

definition frost_Keygen_Ready :: "peer_id list \<Rightarrow> peer_id list \<Rightarrow> peer_id list \<Rightarrow> bool result" where
  "frost_Keygen_Ready peerstore readyPeers excludedPeers =
     (if length excludedPeers > 0 then Inl (Errorf ''error'')
      else Inr (length readyPeers = length peerstore))"

definition frost_Keygen_ValidCoordinators :: "frost_keygen \<Rightarrow> peer_id list" where
  "frost_Keygen_ValidCoordinators k = fb_Peers (fkg_base k)"

definition frost_Keygen_StartParams :: "peer_id list \<Rightarrow> bytes" where
  "frost_Keygen_StartParams readyPeers = []"

definition frost_Keygen_Retryable :: bool where
  "frost_Keygen_Retryable = False"

definition frost_keygen_process :: "'c tss_env \<Rightarrow> frost_keygen \<Rightarrow> tss_process" where
  "frost_keygen_process E k = \<lparr>tp_SessionID = fb_SID (fkg_base k), tp_Ready = frost_Keygen_Ready (te_peerstore E),
     tp_Retryable = frost_Keygen_Retryable, tp_StartParams = frost_Keygen_StartParams,
     tp_ValidCoordinators = frost_Keygen_ValidCoordinators k\<rparr>"

interpretation frost_keygen_proc: process_contract "frost_keygen_process E k" "\<lambda>ps. True"
  for E :: "'c tss_env" and k
  by unfold_locales (auto simp: frost_keygen_process_def frost_Keygen_Ready_def frost_Keygen_StartParams_def dest: mset_eq_length)

subsection \<open>Resharing\<close>

text \<open>\<open>startParams\<close>; a nil map is \<open>None\<close>.\<close>

record 'pt frost_params =
  fsp_PublicKey :: bytes
  fsp_VerificationShares :: "(string \<times> 'pt) list option"

record ('sc, 'pt) frost_resharing =
  frs_base :: frost_base
  frs_key :: "('sc, 'pt) frost_keyshare"
  frs_subscriptionID :: string
  frs_newThreshold :: int

definition frost_NewResharing ::
  "'c tss_env \<Rightarrow> 'sc \<Rightarrow> (keyfile \<Rightarrow> ('sc, 'pt) frost_keyshare result) \<Rightarrow> session_id \<Rightarrow> int \<Rightarrow> keyfile \<Rightarrow> bool \<Rightarrow>
   (('sc, 'pt) frost_resharing \<times> bool) option" where
  "frost_NewResharing E zero_scalar get sessionID threshold f mu =
     (case frost_LockKeyshare mu of
        None \<Rightarrow> None
      | Some mu1 \<Rightarrow>
          (let key = (case get f of
                 Inl err \<Rightarrow> NewFrostKeyshare \<lparr>tc_ID = te_pretty E (te_hostID E), tc_Threshold = threshold,
                   tc_PrivateShare = zero_scalar, tc_PublicKey = [], tc_ChainKey = [], tc_VerificationShares = []\<rparr> 0 []
               | Inr key \<Rightarrow> key);
               key1 = key\<lparr>fk_Key := (fk_Key key)\<lparr>tc_Threshold := threshold\<rparr>\<rparr>
           in Some (\<lparr>frs_base = \<lparr>fb_SID = sessionID, fb_Peers = te_peerstore E\<rparr>, frs_key = key1,
                frs_subscriptionID = '''', frs_newThreshold = threshold\<rparr>, mu1)))"

text \<open>The loop that gives every party of the new committee a verification share; writing to a nil map
  panics.  \<open>identity\<close> is the curve's \<open>NewPoint()\<close>.\<close>

fun fill_shares :: "'pt \<Rightarrow> string list \<Rightarrow> (string \<times> 'pt) list option \<Rightarrow> (string \<times> 'pt) list option outcome" where
  "fill_shares identity [] m = Returns m"
| "fill_shares identity (k # partyIds) m =
     (case m of
        None \<Rightarrow> Panics ''assignment to entry in nil map''
      | Some shares \<Rightarrow>
          (if map_of shares k = None then fill_shares identity partyIds (Some (AList.update k identity shares))
           else fill_shares identity partyIds m))"

definition frost_resharing_end ::
  "(('sc, 'pt) frost_keyshare \<Rightarrow> keyfile \<Rightarrow> go_error option \<times> keyfile) \<Rightarrow> int \<Rightarrow> ('h \<Rightarrow> ('sc, 'pt) taproot_config result) \<Rightarrow>
   ('h, 'c) frost_run \<Rightarrow> ('h, 'c) frost_run \<times> task_result" where
  "frost_resharing_end store newThreshold get_result s =
     (case get_result (fr_handler s) of
        Inl err \<Rightarrow> (s, Finish (Some err))
      | Inr taprootConfig \<Rightarrow>
          (let (e, f) = store (NewFrostKeyshare taprootConfig newThreshold (fb_Peers (fr_base s))) (fr_file s);
               s1 = s\<lparr>fr_file := f\<rparr>
           in case e of Some err \<Rightarrow> (s1, Finish (Some err)) | None \<Rightarrow> (s1, FinishCancel None)))"

text \<open>The key as \<open>Run\<close> hands it to the protocol.\<close>

definition frost_resharing_key ::
  "'pt \<Rightarrow> string list \<Rightarrow> 'pt frost_params \<Rightarrow> ('sc, 'pt) taproot_config \<Rightarrow> ('sc, 'pt) taproot_config outcome" where
  "frost_resharing_key identity partyIds sp key =
     (let shares0 = tc_VerificationShares key;
          m = (if length shares0 = 0 then fsp_VerificationShares sp else Some shares0);
          pk = (if length shares0 = 0 then fsp_PublicKey sp else tc_PublicKey key)
      in case fill_shares identity partyIds m of
           Panics e \<Rightarrow> Panics e
         | Returns m1 \<Rightarrow> Returns (key\<lparr>tc_VerificationShares := (case m1 of None \<Rightarrow> [] | Some xs \<Rightarrow> xs), tc_PublicKey := pk\<rparr>))"

text \<open>\<open>decode_params\<close> is the JSON decoding of \<open>startParams\<close> with the curve library's point type.\<close>

definition frost_Resharing_Run ::
  "'c tss_env \<Rightarrow> (peer_id list \<Rightarrow> peer_id list) \<Rightarrow> (bytes \<Rightarrow> 'pt frost_params result) \<Rightarrow> 'pt \<Rightarrow>
   (('sc, 'pt) taproot_config \<Rightarrow> string list \<Rightarrow> session_id \<Rightarrow> 'h result) \<Rightarrow> ('h, 'm) frost_lib \<Rightarrow>
   ('h \<Rightarrow> ('sc, 'pt) taproot_config result) \<Rightarrow> (('sc, 'pt) frost_keyshare \<Rightarrow> keyfile \<Rightarrow> go_error option \<times> keyfile) \<Rightarrow>
   64 word \<Rightarrow> 'c \<Rightarrow> (nat \<times> frost_event task_event) list \<Rightarrow> bytes \<Rightarrow> ('sc, 'pt) frost_resharing \<Rightarrow> 'c comm_state \<Rightarrow> keyfile \<Rightarrow>
   (go_error option \<times> ('sc, 'pt) frost_resharing \<times> 'c comm_state \<times> keyfile) outcome option" where
  "frost_Resharing_Run E to_slice decode_params identity new_handler F get_result store now msgChn sched params r c f =
     (let (subID, c1) = Subscribe (fb_SID (frs_base r)) TssReshareMsg now msgChn c;
          r1 = r\<lparr>frs_subscriptionID := subID\<rparr>
      in case decode_params params of
           Inl err \<Rightarrow> Some (Returns (Some err, r1, c1, f))
         | Inr sp \<Rightarrow>
             (let partyIds = PartyIDSFromPeers to_slice (te_pretty E) (te_peerstore E @ [te_hostID E]) in
              case frost_resharing_key identity partyIds sp (fk_Key (frs_key r1)) of
                Panics e \<Rightarrow> Some (Panics e)
              | Returns key \<Rightarrow>
                  (let r2 = r1\<lparr>frs_key := (frs_key r1)\<lparr>fk_Key := key\<rparr>\<rparr> in
                   case new_handler key partyIds (fb_SID (frs_base r)) of
                     Inl err \<Rightarrow> Some (Returns (Some err, r2, c1, f))
                   | Inr h \<Rightarrow>
                       (case pool_wait_at frost_selecting (te_wait E) (frost_tasks E F TssReshareMsg (frost_resharing_end store (frs_newThreshold r2) get_result)) [0, 1, 2] sched
                               \<lparr>fr_base = frs_base r2, fr_comm = c1, fr_handler = h, fr_file = f, fr_pump = Pumping\<rparr> of
                          None \<Rightarrow> None
                        | Some (res, s) \<Rightarrow> Some (Returns (res, r2, fr_comm s, fr_file s))))))"

definition frost_Resharing_Stop :: "('sc, 'pt) frost_resharing \<Rightarrow> 'c comm_state \<Rightarrow> bool \<Rightarrow> ('c comm_state \<times> bool) outcome" where
  "frost_Resharing_Stop r c mu =
     (let c1 = UnSubscribe (frs_subscriptionID r) c in
      case frost_UnlockKeyshare mu of Panics e \<Rightarrow> Panics e | Returns mu1 \<Rightarrow> Returns (c1, mu1))"

definition frost_Resharing_Ready :: "peer_id list \<Rightarrow> peer_id list \<Rightarrow> peer_id list \<Rightarrow> bool result" where
  "frost_Resharing_Ready peerstore readyPeers excludedPeers = Inr (length readyPeers = length peerstore)"

definition frost_Resharing_ValidCoordinators :: "('sc, 'pt) frost_resharing \<Rightarrow> peer_id list" where
  "frost_Resharing_ValidCoordinators r = fk_Peers (frs_key r)"

definition frost_Resharing_StartParams :: "('pt frost_params \<Rightarrow> bytes) \<Rightarrow> ('sc, 'pt) frost_resharing \<Rightarrow> peer_id list \<Rightarrow> bytes" where
  "frost_Resharing_StartParams encode_params r readyPeers =
     encode_params \<lparr>fsp_PublicKey = tc_PublicKey (fk_Key (frs_key r)),
       fsp_VerificationShares = Some (tc_VerificationShares (fk_Key (frs_key r)))\<rparr>"

definition frost_Resharing_Retryable :: bool where
  "frost_Resharing_Retryable = False"

definition frost_resharing_process :: "'c tss_env \<Rightarrow> ('pt frost_params \<Rightarrow> bytes) \<Rightarrow> ('sc, 'pt) frost_resharing \<Rightarrow> tss_process" where
  "frost_resharing_process E encode_params r = \<lparr>tp_SessionID = fb_SID (frs_base r), tp_Ready = frost_Resharing_Ready (te_peerstore E),
     tp_Retryable = frost_Resharing_Retryable, tp_StartParams = frost_Resharing_StartParams encode_params r,
     tp_ValidCoordinators = frost_Resharing_ValidCoordinators r\<rparr>"

interpretation frost_resharing_proc: process_contract "frost_resharing_process E encode_params r" "\<lambda>ps. True"
  for E :: "'c tss_env" and encode_params and r :: "('sc, 'pt) frost_resharing"
  by unfold_locales (auto simp: frost_resharing_process_def frost_Resharing_Ready_def frost_Resharing_StartParams_def dest: mset_eq_length)

subsection \<open>Properties\<close>

lemma frost_keygen_stores: "frost_stores_end store t0 get_result (frost_keygen_end store t0 get_result)"
  by (auto simp: frost_stores_end_def frost_keygen_end_def Let_def split: sum.split prod.split option.split)

lemma frost_resharing_stores: "frost_stores_end store t0 get_result (frost_resharing_end store t0 get_result)"
  by (auto simp: frost_stores_end_def frost_resharing_end_def Let_def split: sum.split prod.split option.split)

text \<open>C20 (frost_keygen_success_stores): when frost key generation returns without an error and was not
  cancelled by its caller, the keyshare file holds a result of the protocol with the requested
  threshold and the peers of the keygen, and the next process reads exactly that.\<close>

theorem frost_keygen_success_stores:
  assumes "wait_ok (te_wait E)" and "uncancelled sched"
    and "frost_Keygen_Run E to_slice new_handler F get_result (frost_StoreKeyshare C (te_print E) (te_pretty E) io) now ch sched k c f =
      Some (None, k1, c1, f1)"
    and "\<And>cfg h. get_result h = Inr cfg \<Longrightarrow> frost_storable C (te_print E) (te_parse E) (te_pretty E) (te_decode E) io
           (NewFrostKeyshare cfg (fkg_threshold k) (fb_Peers (fkg_base k)))"
  shows "\<exists>cfg. frost_GetKeyshare C (te_parse E) (te_decode E) f1 =
           Inr (NewFrostKeyshare cfg (fkg_threshold k) (fb_Peers (fkg_base k)))"
proof -
  let ?store = "frost_StoreKeyshare C (te_print E) (te_pretty E) io"
  from assms(3) obtain h c0 s where
    wait: "pool_wait_at frost_selecting (te_wait E) (frost_tasks E F TssKeyGenMsg (frost_keygen_end ?store (fkg_threshold k) get_result)) [0, 1, 2] sched
      \<lparr>fr_base = fkg_base k, fr_comm = c0, fr_handler = h, fr_file = f, fr_pump = Pumping\<rparr> = Some (None, s)" and f1: "f1 = fr_file s"
    by (auto simp: frost_Keygen_Run_def Let_def split: prod.splits sum.splits option.splits)
  from pool_wait_nil [OF assms(1) pool_wait_at_wait [OF wait]] obtain p where
    run: "pool_run (frost_tasks E F TssKeyGenMsg (frost_keygen_end ?store (fkg_threshold k) get_result)) sched
      (new_pool [0, 1, 2], \<lparr>fr_base = fkg_base k, fr_comm = c0, fr_handler = h, fr_file = f, fr_pump = Pumping\<rparr>) = Some (p, s)"
    and fin: "pool_live p = []" "pool_errs p = []" by metis
  from frost_storing_pool [OF frost_keygen_stores run assms(2) fin] f1 obtain cfg f0 h where
    "get_result h = Inr cfg" "?store (NewFrostKeyshare cfg (fkg_threshold k) (fb_Peers (fkg_base k))) f0 = (None, f1)"
    by auto
  with frost_store.get_stored [OF assms(4), of h cfg f0] show ?thesis by auto
qed

text \<open>C21 (frost_run_returns_iff): however a frost key generation has gone so far, it can still return, if need be
  because its caller cancels it, unless the end task has returned while the outbound task is sending on
  \<open>Done\<close>; then no continuation whatever lets it return.\<close>

theorem frost_run_returns_iff:
  assumes "pool_run_at frost_selecting (frost_tasks E F TssKeyGenMsg (frost_keygen_end store threshold get_result)) sched
      (new_pool [0, 1, 2], s) = Some ps"
  shows "(\<exists>sched' r. pool_wait_at frost_selecting (te_wait E) (frost_tasks E F TssKeyGenMsg (frost_keygen_end store threshold get_result))
      [0, 1, 2] (sched @ sched') s = Some r) \<longleftrightarrow>
    \<not> (2 \<in> set (pool_live (fst ps)) \<and> 1 \<notin> set (pool_live (fst ps)) \<and> fr_pump (snd ps) = SendingDone)"
  by (rule frost_pool_returns_iff [OF _ assms])
    (auto simp: frost_keygen_end_def Let_def split: sum.splits prod.splits option.splits)

text \<open>C22 (frost_keygen_hangs): one message that cannot be decoded is enough to get there: it cancels the run, the end
  task returns, and if the protocol ends before the outbound task has seen the cancellation, then \<open>Run\<close> does not
  return, whatever happens afterwards.  Had the outbound task seen the cancellation, \<open>Run\<close> would return the error.\<close>

theorem frost_keygen_hangs:
  assumes "new_handler (te_pretty E (te_hostID E)) (PartyIDSFromPeers to_slice (te_pretty E) (te_peerstore E @ [te_hostID E]))
      (fkg_threshold k) (fb_SID (fkg_base k)) = Inr h"
    and "fl_unmarshal F (wm_Payload w) = Inl err"
  shows "frost_Keygen_Run E to_slice new_handler F get_result store now ch
      ([(0, Event (FrostIn w)), (1, CtxDone), (2, Event (FrostOut None))] @ sched) k c f = None \<and>
    (\<exists>k1 c1. frost_Keygen_Run E to_slice new_handler F get_result store now ch
      [(0, Event (FrostIn w)), (1, CtxDone), (2, CtxDone)] k c f = Some (te_wait E [err], k1, c1, f))"
proof -
  let ?task = "frost_tasks E F TssKeyGenMsg (frost_keygen_end store (fkg_threshold k) get_result)"
  let ?c1 = "snd (Subscribe (fb_SID (fkg_base k)) TssKeyGenMsg now ch c)"
  let ?s = "\<lparr>fr_base = fkg_base k, fr_comm = ?c1, fr_handler = h, fr_file = f, fr_pump = Pumping\<rparr>"
  let ?p = "\<lparr>pool_live = [2], pool_cancelled = True, pool_errs = [err]\<rparr>"
  have two: "pool_run_at frost_selecting ?task [(0, Event (FrostIn w)), (1, CtxDone)] (new_pool [0, 1, 2], ?s) = Some (?p, ?s)"
    by (simp add: pool_step_at_def pool_step_def Let_def frost_tasks_def frost_inbound_task_def frost_inbound_event_def assms(2)
        frost_selecting_def task_done_def new_pool_def)
  have "pool_run_at frost_selecting ?task [(2, Event (FrostOut None))] (?p, ?s) = Some (?p, ?s\<lparr>fr_pump := SendingDone\<rparr>)"
    by (simp add: pool_step_at_def pool_step_def Let_def frost_tasks_def frost_outbound_task_def frost_outbound_event_def)
  with two have "pool_run_at frost_selecting ?task ([(0, Event (FrostIn w)), (1, CtxDone)] @ [(2, Event (FrostOut None))]) (new_pool [0, 1, 2], ?s) =
      Some (?p, ?s\<lparr>fr_pump := SendingDone\<rparr>)"
    by (simp only: pool_run_at_append option.case)
  then have "pool_wait_at frost_selecting (te_wait E) ?task [0, 1, 2]
      (([(0, Event (FrostIn w)), (1, CtxDone)] @ [(2, Event (FrostOut None))]) @ sched) ?s = None"
    by (rule pool_wait_at_stuck) (rule frost_send_stuck, simp_all)
  moreover have "pool_wait_at frost_selecting (te_wait E) ?task [0, 1, 2] [(0, Event (FrostIn w)), (1, CtxDone), (2, CtxDone)] ?s = Some (te_wait E [err], ?s)"
    using two by (simp add: pool_wait_at_def pool_step_at_def pool_step_def Let_def frost_selecting_def task_done_def
        frost_tasks_def frost_inbound_task_def frost_inbound_event_def assms(2) new_pool_def)
  ultimately show ?thesis by (simp add: frost_Keygen_Run_def split_beta Let_def assms(1))
qed

text \<open>Every party has a share after the loop; the shares there were are kept.\<close>

lemma fill_shares_Some:
  "\<exists>m. fill_shares identity ks (Some shares) = Returns (Some m) \<and>
     (\<forall>k. map_of m k = (case map_of shares k of None \<Rightarrow> if k \<in> set ks then Some identity else None | Some p \<Rightarrow> Some p))"
proof (induction ks arbitrary: shares)
  case (Cons k ks)
  show ?case
  proof (cases "map_of shares k")
    case None
    from Cons [of "AList.update k identity shares"] None show ?thesis
      by (force simp: update_conv' split: option.splits)
  next
    case (Some p)
    from Cons [of shares] obtain m where "fill_shares identity ks (Some shares) = Returns (Some m)"
      and m: "\<And>k. map_of m k = (case map_of shares k of None \<Rightarrow> if k \<in> set ks then Some identity else None | Some p \<Rightarrow> Some p)"
      by blast
    with Some show ?thesis by (auto simp: m split: option.split)
  qed
qed (simp split: option.split)

text \<open>Fact (frost_resharing_shares): a frost resharing starts the protocol with a verification share for
  every peer of the peerstore and for the host, and does not touch the shares and the public key of
  a relayer that has them; a relayer without shares takes both from the start parameters.  If these
  lack the map of shares, the relayer panics.\<close>

theorem frost_resharing_shares:
  assumes "set (to_slice (te_peerstore E @ [te_hostID E])) = set (te_peerstore E @ [te_hostID E])"
    and "partyIds = PartyIDSFromPeers to_slice (te_pretty E) (te_peerstore E @ [te_hostID E])"
  shows "(tc_VerificationShares key = [] \<and> fsp_VerificationShares sp = None \<longrightarrow>
      frost_resharing_key identity partyIds sp key = Panics ''assignment to entry in nil map'') \<and>
    (\<forall>shares. (tc_VerificationShares key = [] \<and> fsp_VerificationShares sp = Some shares \<or>
        tc_VerificationShares key \<noteq> [] \<and> tc_VerificationShares key = shares) \<longrightarrow>
      (\<exists>key'. frost_resharing_key identity partyIds sp key = Returns key' \<and>
        tc_PublicKey key' = (if tc_VerificationShares key = [] then fsp_PublicKey sp else tc_PublicKey key) \<and>
        tc_PrivateShare key' = tc_PrivateShare key \<and>
        map_of (tc_VerificationShares key') =
          (\<lambda>k. case map_of shares k of Some p \<Rightarrow> Some p
             | None \<Rightarrow> if k \<in> te_pretty E ` set (te_peerstore E @ [te_hostID E]) then Some identity else None)))"
proof -
  have ids: "set partyIds = te_pretty E ` set (te_peerstore E @ [te_hostID E])"
    using assms by (simp add: PartyIDSFromPeers_def)
  then have "partyIds \<noteq> []" by auto
  then have "fill_shares identity partyIds None = Panics ''assignment to entry in nil map''"
    by (cases partyIds) simp_all
  moreover have "\<exists>key'. frost_resharing_key identity partyIds sp key = Returns key' \<and>
        tc_PublicKey key' = (if tc_VerificationShares key = [] then fsp_PublicKey sp else tc_PublicKey key) \<and>
        tc_PrivateShare key' = tc_PrivateShare key \<and>
        map_of (tc_VerificationShares key') =
          (\<lambda>k. case map_of shares k of Some p \<Rightarrow> Some p
             | None \<Rightarrow> if k \<in> te_pretty E ` set (te_peerstore E @ [te_hostID E]) then Some identity else None)"
    if "tc_VerificationShares key = [] \<and> fsp_VerificationShares sp = Some shares \<or>
        tc_VerificationShares key \<noteq> [] \<and> tc_VerificationShares key = shares" for shares
    using that fill_shares_Some [of identity partyIds shares]
    by (auto simp: frost_resharing_key_def Let_def fun_eq_iff ids split: option.split)
  ultimately show ?thesis by (simp add: frost_resharing_key_def Let_def)
qed

subsection \<open>Witnesses\<close>

definition sample_frost_lib :: "(nat, bytes) frost_lib" where
  "sample_frost_lib = \<lparr>fl_unmarshal = Inr, fl_canAccept = (\<lambda>m h. Returns True), fl_accept = (\<lambda>m h. h + 1)\<rparr>"

definition sample_frost_result :: "nat \<Rightarrow> (bytes, bytes) taproot_config result" where
  "sample_frost_result h = (if h = 0 then Inl (ExternError ''protocol: not finished'') else Inr (fk_Key sample_frost_keyshare))"

definition sample_frost_sched :: "(nat \<times> frost_event task_event) list" where
  "sample_frost_sched = [(0, Event (FrostIn \<lparr>wm_MessageType = TssKeyGenMsg, wm_SessionID = ''keygen1'', wm_Payload = ''m'', wm_From = ''aaaaaaa2''\<rparr>)),
     (2, Event (FrostOut None)), (1, Event FrostDone), (2, Event FrostSent), (0, CtxDone)]"

theorem frost_keygen_success_stores_witness:
  "\<exists>k1 c1 f1 cfg. frost_Keygen_Run sample_env remdups (\<lambda>i is t sid. Inr 0) sample_frost_lib sample_frost_result
     (frost_StoreKeyshare bytes_curve_codec unary_print (\<lambda>p. p) good_io) 5 (0::nat) sample_frost_sched
     \<lparr>fkg_base = \<lparr>fb_SID = ''keygen1'', fb_Peers = [''aaaaaaa1'', ''aaaaaaa2'']\<rparr>, fkg_threshold = 1, fkg_subscriptionID = ''''\<rparr>
     (NewCommunication ''aaaaaaa1'') None = Some (None, k1, c1, f1) \<and>
   frost_GetKeyshare bytes_curve_codec unary_parse Some f1 = Inr (NewFrostKeyshare cfg 1 [''aaaaaaa1'', ''aaaaaaa2''])"
proof -
  let ?k = "\<lparr>fkg_base = \<lparr>fb_SID = ''keygen1'', fb_Peers = [''aaaaaaa1'', ''aaaaaaa2'']\<rparr>, fkg_threshold = 1, fkg_subscriptionID = ''''\<rparr>"
  have "\<exists>k1 c1 f1. frost_Keygen_Run sample_env remdups (\<lambda>i is t sid. Inr 0) sample_frost_lib sample_frost_result
     (frost_StoreKeyshare bytes_curve_codec (te_print sample_env) (te_pretty sample_env) good_io) 5 (0::nat) sample_frost_sched
     ?k (NewCommunication ''aaaaaaa1'') None = Some (None, k1, c1, f1)"
    by (simp add: frost_Keygen_Run_def split_beta Let_def pool_wait_at_def pool_step_at_def frost_selecting_def sample_frost_sched_def pool_step_def frost_tasks_def
        frost_inbound_task_def frost_inbound_event_def sample_frost_lib_def frost_outbound_task_def frost_outbound_event_def
        frost_keygen_end_def sample_frost_result_def frost_StoreKeyshare_def store_truncating_def good_io_def frost_marshal_def
        bytes_curve_codec_def sample_frost_keyshare_def NewFrostKeyshare_def task_done_def new_pool_def first_error_def)
  then obtain k1 c1 f1 where run: "frost_Keygen_Run sample_env remdups (\<lambda>i is t sid. Inr 0) sample_frost_lib sample_frost_result
     (frost_StoreKeyshare bytes_curve_codec (te_print sample_env) (te_pretty sample_env) good_io) 5 (0::nat) sample_frost_sched
     ?k (NewCommunication ''aaaaaaa1'') None = Some (None, k1, c1, f1)" by blast
  have "frost_storable bytes_curve_codec (te_print sample_env) (te_parse sample_env) (te_pretty sample_env) (te_decode sample_env) good_io
      (NewFrostKeyshare cfg (fkg_threshold ?k) (fb_Peers (fkg_base ?k)))" if "sample_frost_result h = Inr cfg" for cfg h
    using that sample_storable(2)
    by (auto simp: sample_frost_result_def sample_frost_keyshare_def NewFrostKeyshare_def frost_storable_def int64_def split: if_splits)
  then have "\<exists>cfg. frost_GetKeyshare bytes_curve_codec (te_parse sample_env) (te_decode sample_env) f1 =
      Inr (NewFrostKeyshare cfg (fkg_threshold ?k) (fb_Peers (fkg_base ?k)))"
    by (intro frost_keygen_success_stores [OF _ _ run]) (simp_all add: wait_ok_first_error sample_frost_sched_def)
  with run show ?thesis by auto
qed

theorem frost_run_returns_iff_witness:
  "\<exists>sched' r. pool_wait_at frost_selecting (te_wait sample_env) (frost_tasks sample_env sample_frost_lib TssKeyGenMsg
      (frost_keygen_end (frost_StoreKeyshare bytes_curve_codec unary_print (\<lambda>p. p) good_io) 1 sample_frost_result)) [0, 1, 2]
      ([(2, Event (FrostOut None))] @ sched')
      \<lparr>fr_base = \<lparr>fb_SID = ''keygen1'', fb_Peers = []\<rparr>, fr_comm = NewCommunication ''aaaaaaa1'', fr_handler = 0, fr_file = None, fr_pump = Pumping\<rparr> = Some r"
proof -
  let ?s = "\<lparr>fr_base = \<lparr>fb_SID = ''keygen1'', fb_Peers = []\<rparr>, fr_comm = NewCommunication ''aaaaaaa1'' :: nat comm_state,
      fr_handler = 0 :: nat, fr_file = None, fr_pump = Pumping\<rparr>"
  have "pool_run_at frost_selecting (frost_tasks sample_env sample_frost_lib TssKeyGenMsg
      (frost_keygen_end (frost_StoreKeyshare bytes_curve_codec unary_print (\<lambda>p. p) good_io) 1 sample_frost_result))
      [(2, Event (FrostOut None))] (new_pool [0, 1, 2], ?s) = Some (new_pool [0, 1, 2], ?s\<lparr>fr_pump := SendingDone\<rparr>)"
    by (simp add: pool_step_at_def pool_step_def Let_def frost_tasks_def frost_outbound_task_def frost_outbound_event_def)
  from frost_run_returns_iff [OF this] show ?thesis by simp
qed

theorem frost_keygen_hangs_witness:
  "frost_Keygen_Run sample_env remdups (\<lambda>i is t sid. Inr 0) (sample_frost_lib\<lparr>fl_unmarshal := \<lambda>b. Inl (ExternError ''cbor'')\<rparr>) sample_frost_result
     (frost_StoreKeyshare bytes_curve_codec unary_print (\<lambda>p. p) good_io) 5 (0::nat)
     ([(0, Event (FrostIn \<lparr>wm_MessageType = TssKeyGenMsg, wm_SessionID = ''keygen1'', wm_Payload = ''m'', wm_From = ''aaaaaaa2''\<rparr>)),
       (1, CtxDone), (2, Event (FrostOut None))] @ [(0, ParentDone), (2, Event FrostSent)])
     \<lparr>fkg_base = \<lparr>fb_SID = ''keygen1'', fb_Peers = [''aaaaaaa1'', ''aaaaaaa2'']\<rparr>, fkg_threshold = 1, fkg_subscriptionID = ''''\<rparr>
     (NewCommunication ''aaaaaaa1'') None = None"
  by (rule frost_keygen_hangs [THEN conjunct1]) simp_all

theorem frost_resharing_shares_witness:
  "frost_resharing_key ''0'' (PartyIDSFromPeers remdups (te_pretty sample_env) (te_peerstore sample_env @ [te_hostID sample_env]))
     \<lparr>fsp_PublicKey = ''pk'', fsp_VerificationShares = (None :: (string \<times> string) list option)\<rparr>
     ((fk_Key sample_frost_keyshare)\<lparr>tc_VerificationShares := []\<rparr>) = Panics ''assignment to entry in nil map''"
  by (rule frost_resharing_shares [of remdups sample_env, OF _ refl, THEN conjunct1, THEN mp]) auto


end
