(* ===== verification/FrostSigning.thy ===== *)
theory FrostSigning
  imports EcdsaSigning
begin

text \<open>
  Frost signing, \<open>tss_util/tss/frost/signing/signing.go\<close>.  The choice of the signers is written out
  again in the source, over the frost keyshare; \<open>frost_signing_agrees\<close> proves it the same function as
  the ECDSA one.  Unlike the ECDSA run, every signer sends its signature to the result channel, and
  nothing watches for a stalled protocol.
\<close>

record 'g frost_signature =
  fsig_Id :: int
  fsig_Signature :: 'g

record ('sc, 'pt) frost_signing =
  fsg_base :: frost_base
  fsg_id :: int
  fsg_coordinator :: bool
  fsg_key :: "('sc, 'pt) frost_keyshare"
  fsg_msg :: bytes
  fsg_subscriptionID :: string

text \<open>\<open>derive\<close> is the key's \<open>Derive(h, nil)\<close>.\<close>

definition frost_NewSigning ::
  "('sc, 'pt) curve_codec \<Rightarrow> ('sc \<Rightarrow> ('sc, 'pt) taproot_config \<Rightarrow> ('sc, 'pt) taproot_config result) \<Rightarrow>
   (keyfile \<Rightarrow> ('sc, 'pt) frost_keyshare result) \<Rightarrow> int \<Rightarrow> bytes \<Rightarrow> string \<Rightarrow> session_id \<Rightarrow> keyfile \<Rightarrow> bool \<Rightarrow>
   (('sc, 'pt) frost_signing result \<times> bool) option" where
  "frost_NewSigning C derive get i msg tweak sessionID f mu =
     (case frost_LockKeyshare mu of
        None \<Rightarrow> None
      | Some mu1 \<Rightarrow>
          (case frost_UnlockKeyshare mu1 of
             Panics e \<Rightarrow> None
           | Returns mu2 \<Rightarrow>
               Some (case get f of Inl err \<Rightarrow> (Inl err, mu2)
                 | Inr key \<Rightarrow>
                     (case hex_decode tweak of
                        None \<Rightarrow> (Inl (ExternError ''encoding/hex''), mu2)
                      | Some tweakBytes \<Rightarrow>
                          (case cc_sc_unmarshal C tweakBytes of Inl err \<Rightarrow> (Inl err, mu2)
                           | Inr h \<Rightarrow>
                               (case derive h (fk_Key key) of Inl err \<Rightarrow> (Inl err, mu2)
                                | Inr derived \<Rightarrow>
                                    (Inr \<lparr>fsg_base = \<lparr>fb_SID = sessionID, fb_Peers = fk_Peers key\<rparr>, fsg_id = i,
                                       fsg_coordinator = False, fsg_key = key\<lparr>fk_Key := derived\<rparr>, fsg_msg = msg,
                                       fsg_subscriptionID = ''''\<rparr>, mu2)))))))"

fun frost_readyParticipants :: "peer_id list \<Rightarrow> peer_id list \<Rightarrow> peer_id list" where
  "frost_readyParticipants keyPeers [] = []"
| "frost_readyParticipants keyPeers (peer # peers) =
     (if peer \<notin> set keyPeers then frost_readyParticipants keyPeers peers else peer # frost_readyParticipants keyPeers peers)"

definition frost_Signing_Ready :: "('sc, 'pt) frost_signing \<Rightarrow> peer_id list \<Rightarrow> peer_id list \<Rightarrow> bool result" where
  "frost_Signing_Ready s readyPeers excludedPeers =
     (let readyPeers = frost_readyParticipants (fk_Peers (fsg_key s)) readyPeers
      in Inr (int (length readyPeers) = fk_Threshold (fsg_key s) + 1))"

definition frost_Signing_ValidCoordinators :: "('sc, 'pt) frost_signing \<Rightarrow> peer_id list" where
  "frost_Signing_ValidCoordinators s = fk_Peers (fsg_key s)"

fun frost_subset_loop :: "int \<Rightarrow> peer_msg list \<Rightarrow> peer_id list \<Rightarrow> peer_id list" where
  "frost_subset_loop threshold [] peerSubset = peerSubset"
| "frost_subset_loop threshold (peer # sortedPeers) peerSubset =
     (let peerSubset = peerSubset @ [pm_ID peer]
      in if int (length peerSubset) = threshold + 1 then peerSubset
         else frost_subset_loop threshold sortedPeers peerSubset)"

definition frost_Signing_StartParams :: "'c tss_env \<Rightarrow> ('sc, 'pt) frost_signing \<Rightarrow> peer_id list \<Rightarrow> bytes" where
  "frost_Signing_StartParams E s readyPeers =
     (let readyPeers = frost_readyParticipants (fk_Peers (fsg_key s)) readyPeers;
          sortedPeers = SortPeersForSession (te_keccak E) (te_pretty E) readyPeers (fb_SID (fsg_base s));
          peerSubset = frost_subset_loop (fk_Threshold (fsg_key s)) sortedPeers []
      in te_print E (JArr (map (enc_peer (te_pretty E)) peerSubset)))"

definition frost_signing_unmarshallStartParams :: "'c tss_env \<Rightarrow> bytes \<Rightarrow> peer_id list result" where
  "frost_signing_unmarshallStartParams E paramBytes =
     (case te_parse E paramBytes of
        None \<Rightarrow> Inl json_error
      | Some j \<Rightarrow> dec_list '''' (dec_peer (te_decode E)) [] j)"

record ('h, 'c, 'g) frost_sign_run = "('h, 'c) frost_run" +
  fr_results :: "'g frost_signature list"

definition frost_signing_end :: "('h \<Rightarrow> 'g result) \<Rightarrow> int \<Rightarrow> ('h, 'c, 'g) frost_sign_run \<Rightarrow> ('h, 'c, 'g) frost_sign_run \<times> task_result" where
  "frost_signing_end get_result i s =
     (case get_result (fr_handler s) of
        Inl err \<Rightarrow> (s, FinishCancel (Some err))
      | Inr signature \<Rightarrow>
          (s\<lparr>fr_results := fr_results s @ [\<lparr>fsig_Id = i, fsig_Signature = signature\<rparr>]\<rparr>, FinishCancel None))"

definition frost_Signing_Run ::
  "'c tss_env \<Rightarrow> (peer_id list \<Rightarrow> peer_id list) \<Rightarrow> (('sc, 'pt) taproot_config \<Rightarrow> string list \<Rightarrow> bytes \<Rightarrow> session_id \<Rightarrow> 'h result) \<Rightarrow>
   ('h, 'm) frost_lib \<Rightarrow> ('h \<Rightarrow> 'g result) \<Rightarrow> 64 word \<Rightarrow> 'c \<Rightarrow> (nat \<times> frost_event task_event) list \<Rightarrow> bool \<Rightarrow> bytes \<Rightarrow>
   ('sc, 'pt) frost_signing \<Rightarrow> 'c comm_state \<Rightarrow>
   (go_error option \<times> ('sc, 'pt) frost_signing \<times> 'c comm_state \<times> 'g frost_signature list) option" where
  "frost_Signing_Run E to_slice new_handler F get_result now msgChn sched coordinator params s0 c =
     (let s = s0\<lparr>fsg_coordinator := coordinator\<rparr> in
      case frost_signing_unmarshallStartParams E params of
        Inl err \<Rightarrow> Some (Some err, s, c, [])
      | Inr peerSubset \<Rightarrow>
          (let s1 = s\<lparr>fsg_base := (fsg_base s)\<lparr>fb_Peers := peerSubset\<rparr>\<rparr> in
           if \<not> IsParticipant (te_pretty E) (te_hostID E) peerSubset then Some (Some (SubsetError (te_hostID E)), s1, c, [])
           else
             (let (subID, c1) = Subscribe (fb_SID (fsg_base s1)) TssKeySignMsg now msgChn c;
                  s2 = s1\<lparr>fsg_subscriptionID := subID\<rparr>
              in case new_handler (fk_Key (fsg_key s2)) (PartyIDSFromPeers to_slice (te_pretty E) peerSubset) (fsg_msg s2) (fb_SID (fsg_base s2)) of
                   Inl err \<Rightarrow> Some (Some err, s2, c1, [])
                 | Inr h \<Rightarrow>
                     (case pool_wait_at frost_selecting (te_wait E) (frost_tasks E F TssKeySignMsg (frost_signing_end get_result (fsg_id s2))) [0, 1, 2] sched
                             \<lparr>fr_base = fsg_base s2, fr_comm = c1, fr_handler = h, fr_file = None, fr_pump = Pumping, fr_results = []\<rparr> of
                        None \<Rightarrow> None
                      | Some (r, st) \<Rightarrow> Some (r, s2, fr_comm st, fr_results st)))))"

definition frost_Signing_Stop :: "('sc, 'pt) frost_signing \<Rightarrow> 'c comm_state \<Rightarrow> 'c comm_state" where
  "frost_Signing_Stop s c = UnSubscribe (fsg_subscriptionID s) c"

definition frost_Signing_Retryable :: bool where
  "frost_Signing_Retryable = True"

definition frost_signing_process :: "'c tss_env \<Rightarrow> ('sc, 'pt) frost_signing \<Rightarrow> tss_process" where
  "frost_signing_process E s = \<lparr>tp_SessionID = fb_SID (fsg_base s), tp_Ready = frost_Signing_Ready s,
     tp_Retryable = frost_Signing_Retryable, tp_StartParams = frost_Signing_StartParams E s,
     tp_ValidCoordinators = frost_Signing_ValidCoordinators s\<rparr>"

subsection \<open>The same choice as the ECDSA signing\<close>

text \<open>The ECDSA signing with the same session, peers and threshold.\<close>

definition ecdsa_view :: "'k \<Rightarrow> ('sc, 'pt) frost_signing \<Rightarrow> 'k signing" where
  "ecdsa_view key s = \<lparr>sg_base = \<lparr>bt_SID = fb_SID (fsg_base s), bt_PartyStore = (\<lambda>_. None), bt_Peers = fb_Peers (fsg_base s)\<rparr>,
     sg_coordinator = fsg_coordinator s, sg_key = NewECDSAKeyshare key (fk_Threshold (fsg_key s)) (fk_Peers (fsg_key s)),
     sg_msg = 0, sg_subscriptionID = fsg_subscriptionID s\<rparr>"

lemma frost_readyParticipants_eq: "frost_readyParticipants ks ps = readyParticipants ks ps"
  by (induction ps) auto

lemma frost_subset_loop_eq: "frost_subset_loop t ms acc = subset_loop t ms acc"
  by (induction ms arbitrary: acc) (auto simp: Let_def)

lemma frost_process_eq: "frost_signing_process E s = signing_process E (ecdsa_view key s)"
proof -
  have "frost_Signing_Ready s = Signing_Ready (ecdsa_view key s)"
    by (simp add: fun_eq_iff frost_Signing_Ready_def Signing_Ready_def frost_readyParticipants_eq ecdsa_view_def NewECDSAKeyshare_def)
  moreover have "frost_Signing_StartParams E s = Signing_StartParams E (ecdsa_view key s)"
    by (simp add: fun_eq_iff frost_Signing_StartParams_def Signing_StartParams_def signing_subset_def Let_def
        frost_readyParticipants_eq frost_subset_loop_eq ecdsa_view_def NewECDSAKeyshare_def)
  ultimately show ?thesis
    by (simp add: frost_signing_process_def signing_process_def frost_Signing_Retryable_def Signing_Retryable_def
        frost_Signing_ValidCoordinators_def Signing_ValidCoordinators_def) (simp add: ecdsa_view_def NewECDSAKeyshare_def)
qed

interpretation frost_signing_proc: process_contract "frost_signing_process E s"
  "\<lambda>ps. inj_on (session_key (te_keccak E) (te_pretty E) (fb_SID (fsg_base s))) (set ps)"
  for E :: "'c tss_env" and s :: "('sc, 'pt) frost_signing"
proof
  fix ps qs ex :: "peer_id list" assume m: "mset ps = mset qs"
  show "tp_Ready (frost_signing_process E s) ps ex = tp_Ready (frost_signing_process E s) qs ex"
    unfolding frost_process_eq [of E s "()"] by (rule signing_proc.ready_perm [OF m])
next
  fix ps qs :: "peer_id list"
  assume i: "inj_on (session_key (te_keccak E) (te_pretty E) (fb_SID (fsg_base s))) (set ps)" and m: "mset ps = mset qs"
  have "bt_SID (sg_base (ecdsa_view () s)) = fb_SID (fsg_base s)" by (simp add: ecdsa_view_def)
  with i have "inj_on (session_key (te_keccak E) (te_pretty E) (bt_SID (sg_base (ecdsa_view () s)))) (set ps)" by simp
  then show "tp_StartParams (frost_signing_process E s) ps = tp_StartParams (frost_signing_process E s) qs"
    unfolding frost_process_eq [of E s "()"] by (rule signing_proc.params_perm [OF _ m])
qed

text \<open>C19 (frost_signing_agrees): frost signing and ECDSA signing over the same peers, threshold and session
  behave alike towards the coordinator: they are ready at the same moment, choose the same signers
  and send the same start parameters, accept the same coordinators, and read start parameters alike.\<close>

theorem frost_signing_agrees:
  "frost_signing_process E s = signing_process E (ecdsa_view key s) \<and>
   frost_signing_unmarshallStartParams E params = signing_unmarshallStartParams E params"
  by (simp add: frost_process_eq [of E s key] frost_signing_unmarshallStartParams_def signing_unmarshallStartParams_def)

text \<open>Fact (frost_outsider_waits): a relayer that is left out of a frost signing ends its run with
  \<open>SubsetError\<close> without subscribing, but has already taken over the peers of the start parameters.\<close>

theorem frost_outsider_waits:
  assumes "codec_ok (te_pretty E) (te_decode E)" and "frost_signing_unmarshallStartParams E params = Inr chosen"
    and "te_hostID E \<notin> set chosen"
  shows "\<exists>s1. frost_Signing_Run E to_slice new_handler F get_result now ch sched coord params s c =
      Some (Some (SubsetError (te_hostID E)), s1, c, []) \<and> fb_Peers (fsg_base s1) = chosen"
  using assms IsParticipant_inj [OF codec_ok_inj [OF assms(1)]]
  by (simp add: frost_Signing_Run_def Let_def)

theorem frost_outsider_waits_witness:
  "\<exists>s1. frost_Signing_Run sample_env remdups (\<lambda>k is m sid. Inr (0::nat)) \<lparr>fl_unmarshal = Inr, fl_canAccept = (\<lambda>m h. Returns True), fl_accept = (\<lambda>m h. h)\<rparr>
     (\<lambda>h. Inr h) 5 (0::nat) [] False (unary_print (JArr [JStr ''aaaaaaa2'', JStr ''aaaaaaa3'']))
     \<lparr>fsg_base = \<lparr>fb_SID = ''s'', fb_Peers = []\<rparr>, fsg_id = 1, fsg_coordinator = False, fsg_key = sample_frost_keyshare,
      fsg_msg = ''m'', fsg_subscriptionID = ''''\<rparr> (NewCommunication ''aaaaaaa1'') =
     Some (Some (SubsetError ''aaaaaaa1''), s1, NewCommunication ''aaaaaaa1'', []) \<and> fb_Peers (fsg_base s1) = [''aaaaaaa2'', ''aaaaaaa3'']"
proof -
  have "codec_ok (te_pretty sample_env) (te_decode sample_env)" using codec_ok_id by simp
  moreover have "frost_signing_unmarshallStartParams sample_env (unary_print (JArr [JStr ''aaaaaaa2'', JStr ''aaaaaaa3''])) =
      Inr [''aaaaaaa2'', ''aaaaaaa3'']"
    using sample_unmarshal [of "[''aaaaaaa2'', ''aaaaaaa3'']"]
    by (simp add: frost_signing_unmarshallStartParams_def signing_unmarshallStartParams_def)
  moreover have "te_hostID sample_env \<notin> set [''aaaaaaa2'', ''aaaaaaa3'']" by simp
  ultimately show ?thesis unfolding sample_env_simps(9) [symmetric] by (rule frost_outsider_waits)
qed

end
