(* ===== verification/Coordinator.thy ===== *)
theory Coordinator
  imports EcdsaKeygen EcdsaSigning EcdsaResharing FrostKeygen FrostSigning
begin

text \<open>
  The coordinator, \<open>tss_util/tss/coordinator.go\<close>: the leader of a session collects ready messages and
  sends the start message, the others wait for it; a second goroutine watches for fail messages and
  for the timeout; an error of a known type leads to a second attempt.

  \<open>Execute\<close> and \<open>handleError\<close> each wait for a pool of two tasks.  Their loops are the events below.
  The subscriptions that the goroutines release when they return (\<open>defer\<close>) are collected in
  \<open>co_deferred\<close> and released when the pool has ended.  \<open>sub\<close> is the communication's \<open>Subscribe\<close> with
  the channel and the clock of the call.
\<close>

datatype phase =
    Idle
  | Electing "peer_id list"
  | Initiating "peer_id list" "peer_id list"  \<comment> \<open>ready peers and excluded peers\<close>
  | Waiting peer_id
  | Running bool bytes  \<comment> \<open>the processes run with these start parameters\<close>

record 'c coord_state =
  co_comm :: "'c comm_state"
  co_phase :: phase
  co_deferred :: "string list"

datatype coord_event =
    ReadyMsg wrapped_message
  | InitiateTick
  | InitiateMsg wrapped_message
  | StartMsg wrapped_message
  | TimeoutTick
  | RunsEnd "go_error list"  \<comment> \<open>every \<open>Run\<close> has returned, with these errors\<close>
  | Elected "peer_id result"
  | WatchTick
  | FailMsg wrapped_message

type_synonym 'c subscribe = "session_id \<Rightarrow> message_type \<Rightarrow> 'c comm_state \<Rightarrow> string \<times> 'c comm_state"

subsection \<open>The leader\<close>

definition broadcastInitiateMsg :: "'c tss_env \<Rightarrow> session_id \<Rightarrow> 'c comm_state \<Rightarrow> 'c comm_state" where
  "broadcastInitiateMsg E sessionID c = snd (te_broadcast E (te_peerstore E) [] TssInitiateMsg sessionID c)"

definition initiate :: "'c tss_env \<Rightarrow> 'c subscribe \<Rightarrow> tss_process \<Rightarrow> peer_id list \<Rightarrow> 'c coord_state \<Rightarrow> 'c coord_state" where
  "initiate E sub tssProcess excludedPeers s =
     (let readyPeers = [te_hostID E];
          (subID, c1) = sub (tp_SessionID tssProcess) TssReadyMsg (co_comm s)
      in s\<lparr>co_comm := broadcastInitiateMsg E (tp_SessionID tssProcess) c1,
           co_deferred := subID # co_deferred s, co_phase := Initiating readyPeers excludedPeers\<rparr>)"

definition add_ready :: "peer_id list \<Rightarrow> peer_id \<Rightarrow> peer_id list \<Rightarrow> peer_id list" where
  "add_ready excludedPeers from readyPeers =
     (if from \<notin> set excludedPeers \<and> from \<notin> set readyPeers then readyPeers @ [from] else readyPeers)"

definition initiate_ready ::
  "'c tss_env \<Rightarrow> tss_process \<Rightarrow> peer_id list \<Rightarrow> peer_id list \<Rightarrow> wrapped_message \<Rightarrow> 'c coord_state \<Rightarrow> 'c coord_state \<times> task_result" where
  "initiate_ready E tssProcess readyPeers0 excludedPeers wMsg s =
     (let readyPeers = add_ready excludedPeers (wm_From wMsg) readyPeers0;
          s1 = s\<lparr>co_phase := Initiating readyPeers excludedPeers\<rparr>
      in case tp_Ready tssProcess readyPeers excludedPeers of
           Inl err \<Rightarrow> (s1, Finish (Some err))
         | Inr False \<Rightarrow> (s1, Continue)
         | Inr True \<Rightarrow>
             (let startParams = tp_StartParams tssProcess readyPeers in
              case MarshalStartMessage (te_print E) startParams of
                Inl err \<Rightarrow> (s1, Finish (Some err))
              | Inr startMsgBytes \<Rightarrow>
                  (s1\<lparr>co_comm := snd (te_broadcast E (te_peerstore E) startMsgBytes TssStartMsg (tp_SessionID tssProcess) (co_comm s1)),
                      co_phase := Running True startParams\<rparr>, Continue)))"

subsection \<open>The others\<close>

definition waitForStart :: "'c subscribe \<Rightarrow> tss_process \<Rightarrow> peer_id \<Rightarrow> 'c coord_state \<Rightarrow> 'c coord_state" where
  "waitForStart sub tssProcess coordinator s =
     (let (initSubID, c1) = sub (tp_SessionID tssProcess) TssInitiateMsg (co_comm s);
          (startSubID, c2) = sub (tp_SessionID tssProcess) TssStartMsg c1
      in s\<lparr>co_comm := c2, co_deferred := startSubID # initSubID # co_deferred s, co_phase := Waiting coordinator\<rparr>)"

definition wait_initiate :: "'c tss_env \<Rightarrow> tss_process \<Rightarrow> peer_id \<Rightarrow> wrapped_message \<Rightarrow> 'c coord_state \<Rightarrow> 'c coord_state \<times> task_result" where
  "wait_initiate E tssProcess coordinator wMsg s =
     (if coordinator \<noteq> '''' \<and> wm_From wMsg \<noteq> coordinator then (s, Continue)
      else (s\<lparr>co_comm := snd (te_broadcast E [wm_From wMsg] [] TssReadyMsg (tp_SessionID tssProcess) (co_comm s))\<rparr>, Continue))"

definition wait_start :: "'c tss_env \<Rightarrow> peer_id \<Rightarrow> wrapped_message \<Rightarrow> 'c coord_state \<Rightarrow> 'c coord_state \<times> task_result" where
  "wait_start E coordinator startMsg s =
     (if coordinator \<noteq> '''' \<and> wm_From startMsg \<noteq> coordinator then (s, Continue)
      else case UnmarshalStartMessage (te_parse E) (wm_Payload startMsg) of
             Inl err \<Rightarrow> (s, Finish (Some err))
           | Inr msg \<Rightarrow> (s\<lparr>co_phase := Running False (Params msg)\<rparr>, Continue))"

text \<open>\<open>start\<close>, and \<open>retry\<close> once the bully elector has answered.\<close>

definition start :: "'c tss_env \<Rightarrow> 'c subscribe \<Rightarrow> tss_process \<Rightarrow> peer_id \<Rightarrow> peer_id list \<Rightarrow> 'c coord_state \<Rightarrow> 'c coord_state" where
  "start E sub tssProcess coordinator excludedPeers s =
     (if te_pretty E coordinator = te_pretty E (te_hostID E) then initiate E sub tssProcess excludedPeers s
      else waitForStart sub tssProcess coordinator s)"

definition retry_candidates :: "tss_process \<Rightarrow> peer_id list \<Rightarrow> peer_id list" where
  "retry_candidates tssProcess excludedPeers = ExcludePeers (tp_ValidCoordinators tssProcess) excludedPeers"

definition retry_elected ::
  "'c tss_env \<Rightarrow> 'c subscribe \<Rightarrow> tss_process \<Rightarrow> peer_id list \<Rightarrow> peer_id result \<Rightarrow> 'c coord_state \<Rightarrow> 'c coord_state \<times> task_result" where
  "retry_elected E sub tssProcess excludedPeers answer s =
     (case answer of
        Inl err \<Rightarrow> (s, Finish (Some err))
      | Inr coordinator \<Rightarrow> (start E sub tssProcess coordinator excludedPeers s, Continue))"

text \<open>One event of the goroutine that runs \<open>start\<close>, \<open>retry\<close> or \<open>waitForStart\<close>.\<close>

definition session_event :: "'c tss_env \<Rightarrow> 'c subscribe \<Rightarrow> tss_process \<Rightarrow> coord_event \<Rightarrow> 'c coord_state \<Rightarrow> 'c coord_state \<times> task_result" where
  "session_event E sub tssProcess e s =
     (case (co_phase s, e) of
        (Electing excludedPeers, Elected answer) \<Rightarrow> retry_elected E sub tssProcess excludedPeers answer s
      | (Initiating readyPeers excludedPeers, ReadyMsg wMsg) \<Rightarrow> initiate_ready E tssProcess readyPeers excludedPeers wMsg s
      | (Initiating readyPeers excludedPeers, InitiateTick) \<Rightarrow>
          (s\<lparr>co_comm := broadcastInitiateMsg E (tp_SessionID tssProcess) (co_comm s)\<rparr>, Continue)
      | (Waiting coordinator, InitiateMsg wMsg) \<Rightarrow> wait_initiate E tssProcess coordinator wMsg s
      | (Waiting coordinator, StartMsg startMsg) \<Rightarrow> wait_start E coordinator startMsg s
      | (Waiting coordinator, TimeoutTick) \<Rightarrow> (s, Finish (Some (CoordinatorError coordinator)))
      | (Running isCoordinator params, RunsEnd errs) \<Rightarrow> (s, Finish (te_wait E errs))
      | _ \<Rightarrow> (s, Continue))"

definition watchExecution :: "'c tss_env \<Rightarrow> session_id \<Rightarrow> peer_id \<Rightarrow> coord_event \<Rightarrow> 'c coord_state \<Rightarrow> 'c coord_state \<times> task_result" where
  "watchExecution E sessionID coordinator e s =
     (case e of
        WatchTick \<Rightarrow> (s, Finish (Some (Errorf ''tss process timed out'')))
      | FailMsg msg \<Rightarrow>
          if te_pretty E (wm_From msg) \<noteq> te_pretty E coordinator then (s, Continue)
          else (s, Finish (Some (Errorf (''tss fail message received for process '' @ sessionID))))
      | _ \<Rightarrow> (s, Continue))"

subsection \<open>The two pools\<close>

text \<open>Execute: task 0 is \<open>start\<close>, which also cancels the context when it returns nil, task 1 watches.\<close>

definition execute_task ::
  "'c tss_env \<Rightarrow> 'c subscribe \<Rightarrow> tss_process \<Rightarrow> peer_id \<Rightarrow> nat \<Rightarrow> coord_event \<Rightarrow> 'c coord_state \<Rightarrow> 'c coord_state \<times> task_result" where
  "execute_task E sub tssProcess coordinator t e s =
     (if t = 0 then (case session_event E sub tssProcess e s of
        (s1, Finish None) \<Rightarrow> (s1, FinishCancel None)
      | r \<Rightarrow> r)
      else watchExecution E (tp_SessionID tssProcess) coordinator e s)"

text \<open>handleError: task 0 watches for the empty coordinator, task 1 retries.\<close>

definition retry_task ::
  "'c tss_env \<Rightarrow> 'c subscribe \<Rightarrow> tss_process \<Rightarrow> nat \<Rightarrow> coord_event \<Rightarrow> 'c coord_state \<Rightarrow> 'c coord_state \<times> task_result" where
  "retry_task E sub tssProcess t e s =
     (if t = 0 then watchExecution E (tp_SessionID tssProcess) '''' e s
      else session_event E sub tssProcess e s)"

text \<open>
  \<open>ctx.Done()\<close> is a case of the \<open>select\<close> of the leader's and the waiting loop only: while the bully
  elector works, and while the processes run (\<open>p.Wait()\<close> of their own pool), the goroutine does not
  look at the context.  The watching goroutine always does.
\<close>

definition session_selecting :: "'c coord_state \<Rightarrow> bool" where
  "session_selecting s = (case co_phase s of
     Initiating readyPeers excludedPeers \<Rightarrow> True
   | Waiting coordinator \<Rightarrow> True
   | _ \<Rightarrow> False)"

definition execute_selecting :: "nat \<Rightarrow> 'c coord_state \<Rightarrow> bool" where
  "execute_selecting t s \<longleftrightarrow> (t = 0 \<longrightarrow> session_selecting s)"

definition retry_selecting :: "nat \<Rightarrow> 'c coord_state \<Rightarrow> bool" where
  "retry_selecting t s \<longleftrightarrow> (t = 1 \<longrightarrow> session_selecting s)"

fun release_deferred :: "string list \<Rightarrow> 'c comm_state \<Rightarrow> 'c comm_state" where
  "release_deferred [] c = c"
| "release_deferred (subID # subs) c = release_deferred subs (UnSubscribe subID c)"

definition watch_begin :: "'c subscribe \<Rightarrow> tss_process \<Rightarrow> 'c coord_state \<Rightarrow> 'c coord_state" where
  "watch_begin sub tssProcess s =
     (let (subscriptionID, c1) = sub (tp_SessionID tssProcess) TssFailMsg (co_comm s)
      in s\<lparr>co_comm := c1, co_deferred := subscriptionID # co_deferred s\<rparr>)"

text \<open>What \<open>handleError\<close> makes of the error.\<close>

datatype retry_plan = GiveUp go_error | Retry "peer_id list" | WaitForAny

definition plan_retry :: "'c tss_env \<Rightarrow> go_error \<Rightarrow> retry_plan" where
  "plan_retry E err =
     (case err of
        CoordinatorError p \<Rightarrow> Retry [p]
      | CommunicationError p e \<Rightarrow> Retry []
      | TssError culprits \<Rightarrow>
          (case PeersFromParties (te_decode E) culprits of Inl e \<Rightarrow> GiveUp e | Inr excludedPeers \<Rightarrow> Retry excludedPeers)
      | SubsetError p \<Rightarrow> WaitForAny
      | _ \<Rightarrow> GiveUp err)"

text \<open>The state in which the second attempt begins: the watch has subscribed, and the other goroutine elects or
  waits for a start message of anyone.\<close>

definition retry_begin :: "'c subscribe \<Rightarrow> tss_process \<Rightarrow> retry_plan \<Rightarrow> 'c comm_state \<Rightarrow> 'c coord_state" where
  "retry_begin sub tssProcess plan c =
     (let s0 = watch_begin sub tssProcess \<lparr>co_comm = c, co_phase = Idle, co_deferred = []\<rparr>
      in case plan of
           GiveUp e \<Rightarrow> s0
         | Retry excludedPeers \<Rightarrow> s0\<lparr>co_phase := Electing excludedPeers\<rparr>
         | WaitForAny \<Rightarrow> waitForStart sub tssProcess '''' s0)"

definition handleError ::
  "'c tss_env \<Rightarrow> 'c subscribe \<Rightarrow> tss_process \<Rightarrow> (nat \<times> coord_event task_event) list \<Rightarrow> go_error \<Rightarrow> 'c comm_state \<Rightarrow>
   (go_error option \<times> 'c comm_state) option" where
  "handleError E sub tssProcess sched err c =
     (let plan = plan_retry E err; s0 = retry_begin sub tssProcess plan c
      in case plan of
           GiveUp e \<Rightarrow> Some (Some e, release_deferred (co_deferred s0) (co_comm s0))
         | _ \<Rightarrow>
             (case pool_wait_at retry_selecting (te_wait E) (retry_task E sub tssProcess) [0, 1] sched s0 of
                None \<Rightarrow> None
              | Some (r, s1) \<Rightarrow> Some (r, release_deferred (co_deferred s1) (co_comm s1))))"

record 'c coordinator =
  pendingProcesses :: "session_id \<Rightarrow> bool option"
  cd_comm :: "'c comm_state"

definition NewCoordinator :: "'c comm_state \<Rightarrow> 'c coordinator" where
  "NewCoordinator c = \<lparr>pendingProcesses = (\<lambda>_. None), cd_comm = c\<rparr>"

text \<open>
  \<open>Execute\<close>, when no other \<open>Execute\<close> interleaves with it (see \<open>exec_step\<close> for those).  \<open>stops\<close> are the
  \<open>Stop\<close> methods of the processes, in order.  \<open>None\<close>: it has not returned yet; \<open>Panics\<close>: an empty
  list of processes.
\<close>

definition Execute ::
  "'c tss_env \<Rightarrow> 'c subscribe \<Rightarrow> tss_process list \<Rightarrow> (nat \<times> coord_event task_event) list \<Rightarrow> (nat \<times> coord_event task_event) list \<Rightarrow>
   ('c comm_state \<Rightarrow> 'c comm_state) list \<Rightarrow> 'c coordinator \<Rightarrow> (go_error option \<times> 'c coordinator) outcome option" where
  "Execute E sub tssProcesses sched sched2 stops c =
     (case tssProcesses of
        [] \<Rightarrow> Some (Panics ''index out of range'')
      | tssProcess # _ \<Rightarrow>
          (let sessionID = tp_SessionID tssProcess in
           if pendingProcesses c sessionID = Some True then Some (Returns (Some (Errorf ''process already pending''), c))
           else
             (let pending = (pendingProcesses c)(sessionID \<mapsto> True);
                  coordinator = static_Coordinator (te_keccak E) (te_pretty E) sessionID (tp_ValidCoordinators tssProcess);
                  s0 = watch_begin sub tssProcess
                         (start E sub tssProcess coordinator [] \<lparr>co_comm = cd_comm c, co_phase = Idle, co_deferred = []\<rparr>);
                  deferred = (\<lambda>(r, m). Returns (r,
                    \<lparr>pendingProcesses = pending(sessionID \<mapsto> False), cd_comm = fold (\<lambda>stop. stop) stops (CloseSession sessionID m)\<rparr>))
              in case pool_wait_at execute_selecting (te_wait E) (execute_task E sub tssProcess coordinator) [0, 1] sched s0 of
                   None \<Rightarrow> None
                 | Some (r, s1) \<Rightarrow>
                     (let m = release_deferred (co_deferred s1) (co_comm s1) in
                      case r of
                        None \<Rightarrow> Some (deferred (None, m))
                      | Some err \<Rightarrow>
                          if \<not> tp_Retryable tssProcess then Some (deferred (Some err, m))
                          else map_option deferred (handleError E sub tssProcess sched2 err m)))))"

subsection \<open>Steps of the session goroutine\<close>

lemma session_event_no_cancel: "session_event E sub p e s \<noteq> (s', FinishCancel r)"
  by (auto simp: session_event_def retry_elected_def initiate_ready_def wait_initiate_def wait_start_def Let_def
      split: phase.splits coord_event.splits sum.splits bool.splits)

lemma session_event_nil:
  assumes "session_event E sub p e s = (s', Finish None)"
  shows "\<exists>b params errs. co_phase s = Running b params \<and> e = RunsEnd errs \<and> te_wait E errs = None \<and> s' = s"
  using assms
  by (auto simp: session_event_def retry_elected_def initiate_ready_def wait_initiate_def wait_start_def Let_def
      split: phase.splits coord_event.splits sum.splits bool.splits if_splits)

lemma watch_never_nil: "watchExecution E sid p e s \<noteq> (s', Finish None)" "watchExecution E sid p e s \<noteq> (s', FinishCancel r)"
  by (auto simp: watchExecution_def split: coord_event.splits if_splits)

lemma execute_task_cancel:
  assumes "execute_task E sub p coord t e s = (s', FinishCancel r)"
  shows "t = 0 \<and> r = None \<and> (\<exists>errs. e = RunsEnd errs \<and> te_wait E errs = None)"
proof (cases "t = 0")
  case True
  obtain s1 r1 where 1: "session_event E sub p e s = (s1, r1)" by (cases "session_event E sub p e s")
  show ?thesis
  proof (cases r1)
    case Continue
    with assms True 1 show ?thesis by (simp add: execute_task_def)
  next
    case (Finish x)
    with assms True 1 session_event_nil [of E sub p e s s1] show ?thesis
      by (cases x) (auto simp: execute_task_def)
  next
    case (FinishCancel x)
    with 1 session_event_no_cancel [of E sub p e s s1 x] show ?thesis by simp
  qed
next
  case False
  with assms show ?thesis by (simp add: execute_task_def watch_never_nil)
qed

lemma execute_task_no_nil: "execute_task E sub p coord t e s \<noteq> (s', Finish None)"
proof
  assume a: "execute_task E sub p coord t e s = (s', Finish None)"
  show False
  proof (cases "t = 0")
    case True
    obtain s1 r1 where "session_event E sub p e s = (s1, r1)" by (cases "session_event E sub p e s")
    with a True show False by (auto simp: execute_task_def split: task_result.splits option.splits)
  next
    case False
    with a show False by (simp add: execute_task_def watch_never_nil)
  qed
qed

lemma execute_pool_nil:
  assumes "wait_ok (te_wait E)" and run: "pool_run (execute_task E sub p coord) sched (new_pool [0, 1], s) = Some ps'"
    and un: "uncancelled sched" and fin: "pool_live (fst ps') = []" "pool_errs (fst ps') = []"
  shows "(0, Event (RunsEnd [])) \<in> set sched"
proof -
  let ?G = "(0, Event (RunsEnd [])) \<in> set sched"
  let ?P = "\<lambda>x. pool_errs (fst x) \<noteq> [] \<or> ?G \<or> (\<not> pool_cancelled (fst x) \<and> pool_live (fst x) = [0, 1])"
  have "?P ps'"
  proof (rule pool_run_invariant_on [where P = ?P and T = "set sched", OF _ subset_refl _ run])
    show "?P (new_pool [0, 1], s)" by simp
    fix te ps ps'
    assume te: "te \<in> set sched" and P: "?P ps" and step: "pool_step (execute_task E sub p coord) te ps = Some ps'"
    from step show "?P ps'"
    proof (cases rule: pool_stepE)
      case (parent t)
      with te un show ?thesis by force
    next
      case (ctx t)
      with P show ?thesis by auto
    next
      case (cont t e s')
      with P show ?thesis by simp
    next
      case (fin t e s' r)
      with execute_task_no_nil [of E sub p coord t e "snd ps" s'] show ?thesis by (cases r) auto
    next
      case (cancel t e s' r)
      from execute_task_cancel [OF cancel(3)] obtain errs where "t = 0" "e = RunsEnd errs" "te_wait E errs = None" by blast
      with assms(1) te cancel(1) show ?thesis by (simp add: wait_ok_def)
    qed
  qed
  with fin show ?thesis by auto
qed

lemma retry_pool_fails:
  assumes "wait_ok (te_wait E)" and "uncancelled sched" and "pool_wait (te_wait E) (retry_task E sub p) [0, 1] sched s = Some (r, s1)"
  shows "r \<noteq> None"
proof
  assume "r = None"
  with pool_wait_nil [OF assms(1)] assms(3) obtain p1 where run: "pool_run (retry_task E sub p) sched (new_pool [0, 1], s) = Some (p1, s1)"
    and fin: "pool_live p1 = []" "pool_errs p1 = []" by metis
  have "pool_errs (fst (p1, s1)) \<noteq> []"
  proof (rule pool_task_never_nil [where w = 0, OF _ _ assms(2) run])
    fix t e s s' r show "retry_task E sub p t e s \<noteq> (s', FinishCancel r)"
      by (simp add: retry_task_def watch_never_nil session_event_no_cancel)
    show "retry_task E sub p 0 e s \<noteq> (s', Finish None)" by (simp add: retry_task_def watch_never_nil)
  qed (use fin in auto)
  with fin show False by simp
qed

lemma handleError_fails:
  assumes "wait_ok (te_wait E)" and "uncancelled sched" and "handleError E sub p sched err c = Some (r, c1)"
  shows "r \<noteq> None"
  using assms(3) retry_pool_fails [OF assms(1,2) pool_wait_at_wait]
  by (fastforce simp: handleError_def Let_def split: retry_plan.splits option.splits)

subsection \<open>How an attempt ends\<close>

text \<open>
  What the steps keep: the session goroutine is in a proper phase, and a pool of two that has lost a
  task is cancelled.  From such a state the watch's ticker and the end of the session goroutine are
  enough: it takes \<open>ctx.Done()\<close> where it selects, and waits for its processes where they run.
\<close>

definition attempt_ok :: "pool \<times> 'c coord_state \<Rightarrow> bool" where
  "attempt_ok ps \<longleftrightarrow> co_phase (snd ps) \<noteq> Idle \<and> pool_live (fst ps) \<in> {[0, 1], [0], [1], []} \<and>
     (pool_cancelled (fst ps) \<or> pool_live (fst ps) = [0, 1])"

lemma session_event_phase:
  assumes "session_event E sub p e s = (s', r)" "co_phase s \<noteq> Idle"
  shows "co_phase s' \<noteq> Idle \<and> ((\<forall>ex. co_phase s \<noteq> Electing ex) \<longrightarrow> (\<forall>ex. co_phase s' \<noteq> Electing ex))"
  using assms
  by (auto simp: session_event_def retry_elected_def initiate_ready_def wait_initiate_def wait_start_def start_def initiate_def
      waitForStart_def split_beta Let_def split: phase.splits coord_event.splits sum.splits bool.splits if_splits)

lemma watch_frame: "watchExecution E sid coord e s = (s', r) \<Longrightarrow> s' = s"
  by (auto simp: watchExecution_def split: coord_event.splits if_splits)

lemma execute_task_phase:
  assumes "execute_task E sub p coord t e s = (s', r)" "co_phase s \<noteq> Idle" "\<forall>ex. co_phase s \<noteq> Electing ex"
  shows "co_phase s' \<noteq> Idle \<and> (\<forall>ex. co_phase s' \<noteq> Electing ex)"
proof (cases "t = 0")
  case True
  with assms(1) obtain r' where "session_event E sub p e s = (s', r')"
    by (auto simp: execute_task_def split: prod.splits task_result.splits option.splits)
  with session_event_phase [OF this] assms(2,3) show ?thesis by blast
next
  case False
  with assms show ?thesis by (auto simp: execute_task_def dest: watch_frame)
qed

lemma execute_attempt_ok:
  assumes "pool_run_at execute_selecting (execute_task E sub p coord) sched ps = Some ps'"
    and "attempt_ok ps" "\<forall>ex. co_phase (snd ps) \<noteq> Electing ex"
  shows "attempt_ok ps' \<and> (\<forall>ex. co_phase (snd ps') \<noteq> Electing ex)"
proof (rule pool_run_invariant [where P = "\<lambda>ps. attempt_ok ps \<and> (\<forall>ex. co_phase (snd ps) \<noteq> Electing ex)", OF _ _ pool_run_at_run [OF assms(1)]])
  fix te ps ps' assume P: "attempt_ok ps \<and> (\<forall>ex. co_phase (snd ps) \<noteq> Electing ex)"
    and step: "pool_step (execute_task E sub p coord) te ps = Some ps'"
  from step show "attempt_ok ps' \<and> (\<forall>ex. co_phase (snd ps') \<noteq> Electing ex)"
  proof (cases rule: pool_stepE)
    case (fin t e s' r)
    with execute_task_no_nil [of E sub p coord t e "snd ps" s'] have "r \<noteq> None" by auto
    with fin P execute_task_phase [OF fin(3)] show ?thesis by (auto simp: attempt_ok_def)
  next
    case (cancel t e s' r)
    with P execute_task_phase [OF cancel(3)] show ?thesis by (auto simp: attempt_ok_def)
  next
    case (cont t e s')
    with P execute_task_phase [OF cont(3)] show ?thesis by (auto simp: attempt_ok_def)
  qed (use P in \<open>auto simp: attempt_ok_def\<close>)
qed (use assms in simp)

text \<open>The session goroutine's way out.\<close>

definition session_exit :: "'c coord_state \<Rightarrow> coord_event task_event" where
  "session_exit s = (if session_selecting s then CtxDone else Event (RunsEnd []))"

lemma session_exits:
  assumes "0 \<in> set (pool_live p)" "pool_cancelled p" "co_phase s \<noteq> Idle" "\<forall>ex. co_phase s \<noteq> Electing ex"
  shows "\<exists>p' s'. pool_step_at execute_selecting (execute_task E sub proc coord) (0, session_exit s) (p, s) = Some (p', s') \<and>
    pool_live p' = removeAll 0 (pool_live p)"
proof (cases "co_phase s")
  case (Running b params)
  with assms show ?thesis
    by (cases "te_wait E []") (simp_all add: session_exit_def session_selecting_def pool_step_at_def pool_step_def Let_def
        execute_task_def session_event_def)
qed (use assms in \<open>simp_all add: session_exit_def session_selecting_def pool_step_at_def pool_step_def Let_def execute_selecting_def\<close>)

lemma execute_can_end:
  assumes "attempt_ok ps" "\<forall>ex. co_phase (snd ps) \<noteq> Electing ex"
  shows "\<exists>sched ps'. length sched \<le> 2 \<and> set sched \<subseteq> {(1, Event WatchTick), (1, CtxDone), (0, session_exit (snd ps))} \<and>
    pool_run_at execute_selecting (execute_task E sub p coord) sched ps = Some ps' \<and> pool_live (fst ps') = []"
proof -
  obtain q s where ps: "ps = (q, s)" by (cases ps)
  let ?task = "execute_task E sub p coord"
  have exit: "\<exists>ps'. pool_run_at execute_selecting ?task [(0, session_exit s)] (q', s) = Some ps' \<and> pool_live (fst ps') = []"
    if "pool_live q' = [0]" "pool_cancelled q'" for q'
    using session_exits [of q' s E sub p coord] that assms by (auto simp: attempt_ok_def ps)
  consider "pool_live q = [0, 1]" | "pool_live q = [0]" "pool_cancelled q" | "pool_live q = [1]" "pool_cancelled q" | "pool_live q = []"
    using assms(1) by (auto simp: attempt_ok_def ps)
  then show ?thesis
  proof cases
    case 1
    let ?q = "task_done 1 (Some (Errorf ''tss process timed out'')) q"
    from exit [of ?q] 1 obtain ps' where "pool_run_at execute_selecting ?task [(0, session_exit s)] (?q, s) = Some ps'" "pool_live (fst ps') = []"
      by auto
    moreover have "pool_step_at execute_selecting ?task (1, Event WatchTick) (q, s) = Some (?q, s)"
      using 1 by (simp add: pool_step_at_def pool_step_def Let_def execute_task_def watchExecution_def)
    ultimately show ?thesis by (intro exI [of _ "[(1, Event WatchTick), (0, session_exit s)]"]) (simp add: ps)
  next
    case 2
    from exit [OF this] show ?thesis by (intro exI [of _ "[(0, session_exit s)]"]) (auto simp: ps)
  next
    case 3
    then show ?thesis
      by (intro exI [of _ "[(1, CtxDone)]"]) (simp add: ps pool_step_at_def pool_step_def Let_def execute_selecting_def)
  next
    case 4
    then show ?thesis by (intro exI [of _ "[]"]) (simp add: ps)
  qed
qed

lemma attempt_begins:
  "attempt_ok (new_pool [0, 1], watch_begin sub p (start E sub p coord ex s)) \<and>
   (\<forall>ex'. co_phase (watch_begin sub p (start E sub p coord ex s)) \<noteq> Electing ex')"
  by (simp add: attempt_ok_def watch_begin_def start_def initiate_def waitForStart_def split_beta Let_def)

text \<open>The second attempt can end too: the ticker of its watch, the answer of the elector, \<open>ctx.Done()\<close>.\<close>

lemma handleError_can_end: "\<exists>sched2 x. length sched2 \<le> 3 \<and> handleError E sub p sched2 err c = Some x"
proof (cases "plan_retry E err")
  case (GiveUp e)
  then show ?thesis by (intro exI [of _ "[]"]) (simp add: handleError_def Let_def)
next
  case (Retry ex)
  then show ?thesis
    by (intro exI [of _ "[(0, Event WatchTick), (1, Event (Elected (Inr '''')) ), (1, CtxDone)]"])
      (simp add: handleError_def retry_begin_def Let_def pool_wait_at_def pool_step_at_def pool_step_def retry_task_def watchExecution_def
        session_event_def retry_elected_def retry_selecting_def session_selecting_def start_def initiate_def waitForStart_def split_beta)
next
  case WaitForAny
  then show ?thesis
    by (intro exI [of _ "[(0, Event WatchTick), (1, CtxDone)]"])
      (simp add: handleError_def retry_begin_def Let_def pool_wait_at_def pool_step_at_def pool_step_def retry_task_def watchExecution_def
        retry_selecting_def session_selecting_def waitForStart_def split_beta)
qed

text \<open>While the processes run, nothing but their end lets the session goroutine return.\<close>

lemma running_stuck:
  assumes "pool_run_at execute_selecting (execute_task E sub p coord) sched ps = Some ps'"
    and "\<forall>errs. (0, Event (RunsEnd errs)) \<notin> set sched" and "0 \<in> set (pool_live (fst ps))" and "co_phase (snd ps) = Running b params"
  shows "0 \<in> set (pool_live (fst ps'))"
proof (rule pool_stuck [where P = "\<lambda>s. co_phase s = Running b params" and L = UNIV and T = "- range (\<lambda>errs. (0, Event (RunsEnd errs)))",
      OF _ _ _ _ assms(3) _ assms(4,1)])
  fix e and s s' :: "'a coord_state" and r
  assume "(0, Event e) \<in> - range (\<lambda>errs. (0 :: nat, Event (RunsEnd errs)))" "co_phase s = Running b params"
    "execute_task E sub p coord 0 e s = (s', r)"
  then show "r = Continue" by (auto simp: execute_task_def session_event_def split: coord_event.splits)
next
  fix t e and s s' :: "'a coord_state" and r
  assume "co_phase s = Running b params" "execute_task E sub p coord t e s = (s', r)"
  then show "co_phase s' = Running b params"
    by (auto simp: execute_task_def session_event_def dest: watch_frame split: if_splits prod.splits coord_event.splits option.splits)
qed (use assms(2) in \<open>auto simp: execute_selecting_def session_selecting_def\<close>)

subsection \<open>The session goroutine\<close>

text \<open>The processes run with the leader's parameters only after its start message.\<close>

lemma Waiting_event:
  assumes "session_event E sub p e s = (s1, r)" and "co_phase s = Waiting coord"
  shows "co_phase s1 = Waiting coord \<or> (\<exists>m params. e = StartMsg m \<and> (coord = '''' \<or> wm_From m = coord) \<and>
    UnmarshalStartMessage (te_parse E) (wm_Payload m) = Inr \<lparr>Params = params\<rparr> \<and> co_phase s1 = Running False params)"
proof -
  have "Inr msg = Inr \<lparr>Params = Params msg\<rparr>" for msg :: start_message by simp
  with assms show ?thesis
    by (auto simp: session_event_def wait_start_def wait_initiate_def split: coord_event.splits if_splits sum.splits)
qed

lemma Running_event:
  "session_event E sub p e s = (s1, r) \<Longrightarrow> co_phase s = Running b params \<Longrightarrow> s1 = s"
  by (auto simp: session_event_def split: coord_event.splits)

lemma execute_task_state:
  assumes "execute_task E sub p coord t e s = (s1, r)"
  shows "s1 = s \<or> t = 0 \<and> (\<exists>r'. session_event E sub p e s = (s1, r'))"
  using assms
  by (cases "t = 0") (auto simp: execute_task_def watchExecution_def split: prod.splits task_result.splits option.splits coord_event.splits if_splits)

lemma waiting_pool_start:
  assumes run: "pool_run (execute_task E sub p coord) sched (new_pool [0, 1], s) = Some ps'" and s: "co_phase s = Waiting coord"
  shows "co_phase (snd ps') = Waiting coord \<or>
    (\<exists>m params. co_phase (snd ps') = Running False params \<and> (0, Event (StartMsg m)) \<in> set sched \<and>
       (coord = '''' \<or> wm_From m = coord) \<and> UnmarshalStartMessage (te_parse E) (wm_Payload m) = Inr \<lparr>Params = params\<rparr>)"
  (is "?P (snd ps')")
proof (rule pool_run_state [OF run])
  fix t e s1 s2 r
  assume ev: "(t, Event e) \<in> set sched" and P: "?P s1" and tk: "execute_task E sub p coord t e s1 = (s2, r)"
  from execute_task_state [OF tk] show "?P s2"
  proof
    assume "t = 0 \<and> (\<exists>r'. session_event E sub p e s1 = (s2, r'))"
    then obtain r' where se: "t = 0" "session_event E sub p e s1 = (s2, r')" by blast
    from P show ?thesis
    proof
      assume "co_phase s1 = Waiting coord"
      from Waiting_event [OF se(2) this] ev se(1) show ?thesis by blast
    next
      assume r: "\<exists>m params. co_phase s1 = Running False params \<and> (0, Event (StartMsg m)) \<in> set sched \<and>
        (coord = '''' \<or> wm_From m = coord) \<and> UnmarshalStartMessage (te_parse E) (wm_Payload m) = Inr \<lparr>Params = params\<rparr>"
      then have "s2 = s1" using Running_event [OF se(2)] by blast
      with P show ?thesis by simp
    qed
  qed (use P in simp)
qed (use s in simp)
subsection \<open>The leader's loop\<close>

text \<open>The ready messages, taken one after the other.\<close>

fun collect :: "'c tss_env \<Rightarrow> 'c subscribe \<Rightarrow> tss_process \<Rightarrow> wrapped_message list \<Rightarrow> 'c coord_state \<Rightarrow> 'c coord_state" where
  "collect E sub p [] s = s"
| "collect E sub p (w # ws) s = collect E sub p ws (fst (session_event E sub p (ReadyMsg w) s))"

lemma collect_snoc: "collect E sub p (ws @ [w]) s = fst (session_event E sub p (ReadyMsg w) (collect E sub p ws s))"
  by (induction ws arbitrary: s) auto

text \<open>The peers the leader counts as ready after the messages.\<close>

definition ready_after :: "peer_id \<Rightarrow> peer_id list \<Rightarrow> wrapped_message list \<Rightarrow> peer_id list" where
  "ready_after hostID excludedPeers ws = fold (add_ready excludedPeers) (map wm_From ws) [hostID]"

lemma ready_after_snoc: "ready_after h ex (ws @ [w]) = add_ready ex (wm_From w) (ready_after h ex ws)"
  by (simp add: ready_after_def)

lemma ready_after_set:
  "set (ready_after h ex ws) = insert h (wm_From ` set ws - set ex) \<and> distinct (ready_after h ex ws)"
proof (induction ws rule: rev_induct)
  case Nil
  then show ?case by (simp add: ready_after_def)
next
  case (snoc w ws)
  then show ?case by (auto simp: ready_after_snoc add_ready_def)
qed

lemma ready_event:
  assumes "co_phase s = Initiating ready ex" and "tp_Ready p (add_ready ex (wm_From w) ready) ex = Inr b"
  shows "co_phase (fst (session_event E sub p (ReadyMsg w) s)) =
    (if b then Running True (tp_StartParams p (add_ready ex (wm_From w) ready)) else Initiating (add_ready ex (wm_From w) ready) ex)"
  using assms by (simp add: session_event_def initiate_ready_def Let_def MarshalStartMessage_def)

lemma running_event: "co_phase s = Running b ps \<Longrightarrow> fst (session_event E sub p (ReadyMsg w) s) = s"
  by (simp add: session_event_def)

lemma leader_collects:
  assumes sg: "1 \<le> ek_Threshold (sg_key sg)" and s: "co_phase s = Initiating [te_hostID E] ex"
    and host: "te_hostID E \<in> set (ek_Peers (sg_key sg))"
  shows "let N = (\<lambda>ws. int (length (filter (\<lambda>p. p \<in> set (ek_Peers (sg_key sg))) (ready_after (te_hostID E) ex ws)))) in
    (if N ws \<le> ek_Threshold (sg_key sg) then co_phase (collect E sub (signing_process E sg) ws s) = Initiating (ready_after (te_hostID E) ex ws) ex
     else \<exists>ws1 ws2. ws = ws1 @ ws2 \<and> N ws1 = ek_Threshold (sg_key sg) + 1 \<and>
       co_phase (collect E sub (signing_process E sg) ws s) = Running True (Signing_StartParams E sg (ready_after (te_hostID E) ex ws1)))"
  unfolding Let_def
proof (induction ws rule: rev_induct)
  case Nil
  then show ?case using sg s host by (simp add: ready_after_def)
next
  case (snoc w ws)
  let ?com = "\<lambda>p. p \<in> set (ek_Peers (sg_key sg))" and ?p = "signing_process E sg" and ?t = "ek_Threshold (sg_key sg)"
  let ?R = "ready_after (te_hostID E) ex" and ?c = "\<lambda>ws. collect E sub ?p ws s"
  let ?N = "\<lambda>ws. int (length (filter ?com (?R ws)))"
  have grow: "?N ws \<le> ?N (ws @ [w]) \<and> ?N (ws @ [w]) \<le> ?N ws + 1" by (simp add: ready_after_snoc add_ready_def)
  have ready: "tp_Ready ?p (add_ready ex (wm_From w) (?R ws)) ex = Inr (?N (ws @ [w]) = ?t + 1)"
    by (simp add: signing_process_def Signing_Ready_def Let_def readyParticipants_filter ready_after_snoc)
  have params: "tp_StartParams ?p = Signing_StartParams E sg" by (simp add: signing_process_def)
  show ?case
  proof (cases "?N ws \<le> ?t")
    case True
    with snoc have ph: "co_phase (?c ws) = Initiating (?R ws) ex" by simp
    from ready_event [OF ph ready, of E sub] have next_ph: "co_phase (?c (ws @ [w])) =
        (if ?N (ws @ [w]) = ?t + 1 then Running True (Signing_StartParams E sg (?R (ws @ [w]))) else Initiating (?R (ws @ [w])) ex)"
      by (simp add: collect_snoc params ready_after_snoc)
    show ?thesis
    proof (cases "?N (ws @ [w]) \<le> ?t")
      case True
      with next_ph show ?thesis by simp
    next
      case False
      with grow \<open>?N ws \<le> ?t\<close> have "?N (ws @ [w]) = ?t + 1" by linarith
      with next_ph show ?thesis by (simp, intro exI [of _ "ws @ [w]"] conjI exI [of _ "[]"]) simp_all
    qed
  next
    case False
    with snoc obtain ws1 ws2 where 1: "ws = ws1 @ ws2" "?N ws1 = ?t + 1"
      "co_phase (?c ws) = Running True (Signing_StartParams E sg (?R ws1))" by auto
    then have "co_phase (?c (ws @ [w])) = Running True (Signing_StartParams E sg (?R ws1))"
      by (metis collect_snoc running_event)
    moreover have "\<not> ?N (ws @ [w]) \<le> ?t" using grow False by linarith
    ultimately show ?thesis using 1(1,2) by (simp, intro exI [of _ ws1] conjI exI [of _ "ws2 @ [w]"]) simp_all
  qed
qed

text \<open>The parties by which a protocol error names peers.\<close>

definition env_parties_of :: "'c tss_env \<Rightarrow> peer_id list \<Rightarrow> party_id list" where
  "env_parties_of E peers = map (\<lambda>p. CreatePartyID (te_lib E) (te_pretty E p)) peers"

subsection \<open>Concurrent executions\<close>

text \<open>
  Goroutines that call \<open>Execute\<close> at the same time share \<open>pendingProcesses\<close>.  The map is read before
  the lock is taken, so another goroutine may come between the check and the update.
\<close>

datatype exec_pc = Entering session_id | Passed session_id | InSession session_id | Rejected | Left

type_synonym exec_state = "(session_id \<Rightarrow> bool option) \<times> (nat \<Rightarrow> exec_pc)"

inductive exec_step :: "exec_state \<Rightarrow> exec_state \<Rightarrow> bool" where
  exec_reject: "pcs i = Entering sid \<Longrightarrow> pend sid = Some True \<Longrightarrow> exec_step (pend, pcs) (pend, pcs(i := Rejected))"
| exec_pass: "pcs i = Entering sid \<Longrightarrow> pend sid \<noteq> Some True \<Longrightarrow> exec_step (pend, pcs) (pend, pcs(i := Passed sid))"
| exec_mark: "pcs i = Passed sid \<Longrightarrow> exec_step (pend, pcs) (pend(sid \<mapsto> True), pcs(i := InSession sid))"
| exec_leave: "pcs i = InSession sid \<Longrightarrow> exec_step (pend, pcs) (pend(sid \<mapsto> False), pcs(i := Left))"

lemma keeps_session:
  assumes "\<exists>j. pcs j = InSession sid'" and "pcs i \<noteq> InSession sid'"
  shows "\<exists>j. (pcs(i := x)) j = InSession sid'"
  using assms by (metis fun_upd_other)

lemma exec_step_pending:
  assumes "exec_step s s'" and "\<forall>sid. fst s sid = Some True \<longrightarrow> (\<exists>i. snd s i = InSession sid)"
  shows "\<forall>sid. fst s' sid = Some True \<longrightarrow> (\<exists>i. snd s' i = InSession sid)"
  using assms
proof (induction rule: exec_step.induct)
  case (exec_reject pcs i sid pend)
  then show ?case using keeps_session [of pcs _ i] by simp
next
  case (exec_pass pcs i sid pend)
  then show ?case using keeps_session [of pcs _ i] by simp
next
  case (exec_mark pcs i sid pend)
  then show ?case using keeps_session [of pcs _ i] by (auto split: if_splits)
next
  case (exec_leave pcs i sid pend)
  then show ?case using keeps_session [of pcs _ i] by (auto split: if_splits)
qed

definition exec_start :: "(nat \<Rightarrow> session_id) \<Rightarrow> exec_state" where
  "exec_start sids = (\<lambda>_. None, \<lambda>i. Entering (sids i))"

subsection \<open>Properties\<close>


text \<open>C23 (execute_pending): while a session is marked pending, \<open>Execute\<close> rejects it and changes nothing (in
  particular it does not stop the rejected processes, which keep their keyshare lock); every
  \<open>Execute\<close> that started the session unmarks it again, whatever the outcome, and leaves the other
  sessions as they were.\<close>

theorem execute_pending:
  "(pendingProcesses c (tp_SessionID p) = Some True \<longrightarrow>
      Execute E sub (p # ps) sched sched2 stops c = Some (Returns (Some (Errorf ''process already pending''), c))) \<and>
   (\<forall>r c1. pendingProcesses c (tp_SessionID p) \<noteq> Some True \<and> Execute E sub (p # ps) sched sched2 stops c = Some (Returns (r, c1)) \<longrightarrow>
      pendingProcesses c1 = (pendingProcesses c)(tp_SessionID p \<mapsto> False))"
  by (auto simp: Execute_def Let_def split: option.splits if_splits)


text \<open>C11 (timeout_needs_runs): no timeout and no cancellation ends a session whose processes do not return: once they
  run, every schedule without their end leaves \<open>Execute\<close> waiting, and the session pending.\<close>

theorem timeout_needs_runs:
  assumes "pendingProcesses c (tp_SessionID p) \<noteq> Some True"
    and "coord = static_Coordinator (te_keccak E) (te_pretty E) (tp_SessionID p) (tp_ValidCoordinators p)"
    and "s0 = watch_begin sub p (start E sub p coord [] \<lparr>co_comm = cd_comm c, co_phase = Idle, co_deferred = []\<rparr>)"
    and "pool_run_at execute_selecting (execute_task E sub p coord) sched (new_pool [0, 1], s0) = Some ps"
    and "co_phase (snd ps) = Running b params" and "0 \<in> set (pool_live (fst ps))"
    and "\<forall>errs. (0, Event (RunsEnd errs)) \<notin> set sched'"
  shows "Execute E sub (p # procs) (sched @ sched') sched2 stops c = None"
proof -
  have "pool_wait_at execute_selecting (te_wait E) (execute_task E sub p coord) [0, 1] (sched @ sched') s0 = None"
    by (rule pool_wait_at_stuck [OF assms(4)]) (rule running_stuck [OF _ assms(7,6,5)])
  with assms(1) show ?thesis by (simp add: Execute_def Let_def assms(2,3))
qed

text \<open>Fact (start_only_from_coordinator): a relayer that is not the coordinator runs the processes only after a
  start message of the coordinator, and with the parameters of that message.\<close>

theorem start_only_from_coordinator:
  assumes "pool_run (execute_task E sub p coord) sched (new_pool [0, 1], waitForStart sub p coord s) = Some ps'"
    and "co_phase (snd ps') = Running leader params"
  shows "\<not> leader \<and> (\<exists>m. (0, Event (StartMsg m)) \<in> set sched \<and> (coord = '''' \<or> wm_From m = coord) \<and>
    UnmarshalStartMessage (te_parse E) (wm_Payload m) = Inr \<lparr>Params = params\<rparr>)"
  using waiting_pool_start [OF assms(1)] assms(2) by (auto simp: waitForStart_def split_beta)

text \<open>Fact (start_agreement): when the leader has enough ready peers it broadcasts a start message, and every
  relayer that waits for this leader and takes that message runs with the leader's own parameters.\<close>

theorem start_agreement:
  assumes "json_text_ok (te_print E) (te_parse E)" and "te_parse E' = te_parse E"
    and "initiate_ready E p ready ex w s = (s1, Continue)" and "co_phase s1 = Running True params"
  shows "\<exists>payload. co_comm s1 = snd (te_broadcast E (te_peerstore E) payload TssStartMsg (tp_SessionID p) (co_comm s)) \<and>
    co_phase (fst (wait_start E' (te_hostID E)
      \<lparr>wm_MessageType = TssStartMsg, wm_SessionID = tp_SessionID p, wm_Payload = payload, wm_From = te_hostID E\<rparr> s')) = Running False params"
proof -
  let ?r = "add_ready ex (wm_From w) ready"
  have r: "tp_Ready p ?r ex = Inr True"
    using assms(3,4) by (auto simp: initiate_ready_def Let_def split: sum.splits bool.splits)
  obtain payload where m: "MarshalStartMessage (te_print E) (tp_StartParams p ?r) = Inr payload"
    by (simp add: MarshalStartMessage_def)
  have 1: "co_phase s1 = Running True (tp_StartParams p ?r)"
      "co_comm s1 = snd (te_broadcast E (te_peerstore E) payload TssStartMsg (tp_SessionID p) (co_comm s))"
    using assms(3) r m by (auto simp: initiate_ready_def Let_def)
  with assms(4) have "tp_StartParams p ?r = params" by simp
  with start_roundtrip [OF assms(1) m] 1 assms(2) show ?thesis
    by (intro exI [of _ payload]) (simp add: wait_start_def)
qed

lemma leader_run:
  assumes "1 \<le> ek_Threshold (sg_key sg)" and "te_hostID E \<in> set (ek_Peers (sg_key sg))"
  shows "(\<exists>params. co_phase (collect E sub (signing_process E sg) ws (initiate E sub (signing_process E sg) ex s)) = Running True params) =
      (ek_Threshold (sg_key sg) < int (card (insert (te_hostID E) (wm_From ` set ws - set ex) \<inter> set (ek_Peers (sg_key sg))))) \<and>
    (\<forall>params. co_phase (collect E sub (signing_process E sg) ws (initiate E sub (signing_process E sg) ex s)) = Running True params \<longrightarrow>
      (\<exists>ready. params = Signing_StartParams E sg ready \<and> distinct ready \<and> set ready \<subseteq> insert (te_hostID E) (wm_From ` set ws - set ex) \<and>
        int (length (readyParticipants (ek_Peers (sg_key sg)) ready)) = ek_Threshold (sg_key sg) + 1))"
proof -
  let ?s = "initiate E sub (signing_process E sg) ex s" and ?R = "ready_after (te_hostID E) ex"
  let ?com = "\<lambda>p. p \<in> set (ek_Peers (sg_key sg))"
  have ph: "co_phase ?s = Initiating [te_hostID E] ex" by (simp add: initiate_def Let_def split_beta)
  have card: "length (filter ?com (?R vs)) = card (insert (te_hostID E) (wm_From ` set vs - set ex) \<inter> set (ek_Peers (sg_key sg)))" for vs
  proof -
    have "distinct (filter ?com (?R vs))" using ready_after_set by simp
    then have "length (filter ?com (?R vs)) = card (set (filter ?com (?R vs)))" by (simp only: distinct_card)
    also have "set (filter ?com (?R vs)) = insert (te_hostID E) (wm_From ` set vs - set ex) \<inter> set (ek_Peers (sg_key sg))"
      using ready_after_set [of "te_hostID E" ex vs] by auto
    finally show ?thesis .
  qed
  note c = leader_collects [OF assms(1) ph assms(2), where sub = sub and ws = ws, unfolded Let_def]
  show ?thesis
  proof (cases "int (length (filter ?com (?R ws))) \<le> ek_Threshold (sg_key sg)")
    case True
    with c card show ?thesis by simp
  next
    case False
    with c obtain ws1 ws2 where 1: "ws = ws1 @ ws2" "int (length (filter ?com (?R ws1))) = ek_Threshold (sg_key sg) + 1"
      "co_phase (collect E sub (signing_process E sg) ws ?s) = Running True (Signing_StartParams E sg (?R ws1))" by auto
    from ready_after_set [of "te_hostID E" ex ws1] have "distinct (?R ws1)"
      "set (?R ws1) \<subseteq> insert (te_hostID E) (wm_From ` set ws - set ex)" by (auto simp: 1(1))
    with 1 False show ?thesis by (auto simp: card readyParticipants_filter)
  qed
qed



text \<open>Fact (fail_message_scope): a fail message ends the session exactly when it comes from the coordinator; in
  the second attempt no fail message of any peer is heeded.\<close>

theorem fail_message_scope:
  assumes "codec_ok (te_pretty E) (te_decode E)"
  shows "(snd (execute_task E sub proc coord 1 (FailMsg m) s) \<noteq> Continue) = (wm_From m = coord) \<and>
    (wm_From m \<noteq> '''' \<longrightarrow> retry_task E sub proc 0 (FailMsg m) s = (s, Continue))"
  using inj_eq [OF codec_ok_inj [OF assms]] by (auto simp: execute_task_def retry_task_def watchExecution_def)

text \<open>C24 (rejection_justified): however the executions interleave, a session that is marked pending is being
  executed by someone, so a rejection is never spurious and no crash-free history leaves a session
  marked for good.\<close>

theorem rejection_justified:
  assumes "exec_step\<^sup>*\<^sup>* (exec_start sids) s"
  shows "fst s sid = Some True \<longrightarrow> (\<exists>i. snd s i = InSession sid)"
proof -
  have "\<forall>sid. fst s sid = Some True \<longrightarrow> (\<exists>i. snd s i = InSession sid)"
    using assms
  proof (induction rule: rtranclp_induct)
    case base
    then show ?case by (simp add: exec_start_def)
  next
    case (step s1 s2)
    from exec_step_pending [OF step(2,3)] show ?case .
  qed
  then show ?thesis by blast
qed

text \<open>Fact (execute_race): the check is not atomic with the mark: two executions of the same session that enter
  together both run it.\<close>

theorem execute_race:
  "\<exists>s. exec_step\<^sup>*\<^sup>* (exec_start (\<lambda>_. sid)) s \<and> snd s 0 = InSession sid \<and> snd s 1 = InSession sid"
proof -
  let ?e = "\<lambda>_. Entering sid"
  have "exec_step (exec_start (\<lambda>_. sid)) (\<lambda>_. None, ?e(0 := Passed sid))"
    unfolding exec_start_def by (rule exec_pass) simp_all
  moreover have "exec_step (\<lambda>_. None, ?e(0 := Passed sid)) (\<lambda>_. None, ?e(0 := Passed sid, 1 := Passed sid))"
    by (rule exec_pass) simp_all
  moreover have "exec_step (\<lambda>_. None, ?e(0 := Passed sid, 1 := Passed sid))
      ((\<lambda>_. None)(sid \<mapsto> True), ?e(0 := Passed sid, 1 := Passed sid, 0 := InSession sid))"
    by (rule exec_mark) simp
  moreover have "exec_step ((\<lambda>_. None)(sid \<mapsto> True), ?e(0 := Passed sid, 1 := Passed sid, 0 := InSession sid))
      ((\<lambda>_. None)(sid \<mapsto> True, sid \<mapsto> True), ?e(0 := Passed sid, 1 := Passed sid, 0 := InSession sid, 1 := InSession sid))"
    by (rule exec_mark) simp
  ultimately have "exec_step\<^sup>*\<^sup>* (exec_start (\<lambda>_. sid))
      ((\<lambda>_. None)(sid \<mapsto> True, sid \<mapsto> True), ?e(0 := Passed sid, 1 := Passed sid, 0 := InSession sid, 1 := InSession sid))"
    by (meson rtranclp.rtrancl_into_rtrancl rtranclp.rtrancl_refl)
  then show ?thesis by (intro exI conjI) (assumption, simp_all)
qed

subsection \<open>Witnesses\<close>

definition sample_sub :: "nat subscribe" where
  "sample_sub sid mt c = Subscribe sid mt 5 0 c"

definition sample_process :: tss_process where
  "sample_process = \<lparr>tp_SessionID = ''s'', tp_Ready = (\<lambda>ready ex. Inr (length ready = 2)), tp_Retryable = True,
     tp_StartParams = (\<lambda>ready. ''params''), tp_ValidCoordinators = []\<rparr>"

definition sample_payload :: "bytes \<Rightarrow> bytes" where
  "sample_payload params = unary_print (JObj [(''params'', JStr (b64_encode params))])"

lemma sample_payload_start: "UnmarshalStartMessage unary_parse (sample_payload params) = Inr \<lparr>Params = params\<rparr>"
  using start_roundtrip [OF json_text_ok_unary] by (simp add: MarshalStartMessage_def sample_payload_def)

definition sample_start_msg :: wrapped_message where
  "sample_start_msg = \<lparr>wm_MessageType = TssStartMsg, wm_SessionID = ''s'', wm_Payload = sample_payload ''params'', wm_From = ''aaaaaaa2''\<rparr>"

definition sample_sched :: "(nat \<times> coord_event task_event) list" where
  "sample_sched = [(0, Event (StartMsg sample_start_msg)), (0, Event (RunsEnd [])), (1, CtxDone)]"

lemma sample_Execute:
  "\<exists>c1. Execute sample_env sample_sub [sample_process] sample_sched [] [] (NewCoordinator (NewCommunication ''aaaaaaa1'')) =
     Some (Returns (None, c1))"
  by (simp add: Execute_def sample_process_def NewCoordinator_def Let_def static_Coordinator_hd start_def waitForStart_def
      split_beta watch_begin_def pool_wait_at_def pool_step_at_def execute_selecting_def sample_sched_def pool_step_def execute_task_def session_event_def wait_start_def
      sample_start_msg_def sample_payload_start task_done_def new_pool_def first_error_def)


lemma sample_coordinator: "static_Coordinator (te_keccak sample_env) (te_pretty sample_env) (tp_SessionID sample_process) (tp_ValidCoordinators sample_process) = ''''"
  by (simp add: sample_process_def static_Coordinator_hd)

text \<open>The session of \<open>sample_sched\<close>, after the start message.\<close>

lemma sample_attempt:
  "\<exists>s. pool_run_at execute_selecting (execute_task sample_env sample_sub sample_process '''') [(0, Event (StartMsg sample_start_msg))]
     (new_pool [0, 1], watch_begin sample_sub sample_process (start sample_env sample_sub sample_process '''' []
        \<lparr>co_comm = cd_comm (NewCoordinator (NewCommunication ''aaaaaaa1'')), co_phase = Idle, co_deferred = []\<rparr>)) =
     Some (new_pool [0, 1], s) \<and> co_phase s = Running False ''params''"
  by (simp add: pool_step_at_def pool_step_def execute_task_def session_event_def wait_start_def start_def watch_begin_def waitForStart_def
      split_beta Let_def sample_start_msg_def sample_payload_start)


theorem timeout_needs_runs_witness:
  "Execute sample_env sample_sub [sample_process] ([(0, Event (StartMsg sample_start_msg))] @ [(1, Event WatchTick), (0, ParentDone)]) [] []
     (NewCoordinator (NewCommunication ''aaaaaaa1'')) = None"
proof -
  obtain s where run: "pool_run_at execute_selecting (execute_task sample_env sample_sub sample_process '''') [(0, Event (StartMsg sample_start_msg))]
     (new_pool [0, 1], watch_begin sample_sub sample_process (start sample_env sample_sub sample_process '''' []
        \<lparr>co_comm = cd_comm (NewCoordinator (NewCommunication ''aaaaaaa1'')), co_phase = Idle, co_deferred = []\<rparr>)) = Some (new_pool [0, 1], s)"
    and ph: "co_phase s = Running False ''params''"
    using sample_attempt by blast
  have "pendingProcesses (NewCoordinator (NewCommunication ''aaaaaaa1'')) (tp_SessionID sample_process) \<noteq> Some True"
    by (simp add: NewCoordinator_def)
  from timeout_needs_runs [OF this sample_coordinator [symmetric] refl run, of False "''params''"] ph show ?thesis by simp
qed

theorem execute_pending_witness:
  "Execute sample_env sample_sub [sample_process] [] [] [] \<lparr>pendingProcesses = (\<lambda>_. None)(''s'' \<mapsto> True), cd_comm = NewCommunication ''aaaaaaa1''\<rparr> =
     Some (Returns (Some (Errorf ''process already pending''),
       \<lparr>pendingProcesses = (\<lambda>_. None)(''s'' \<mapsto> True), cd_comm = NewCommunication ''aaaaaaa1''\<rparr>))"
  by (rule execute_pending [THEN conjunct1, THEN mp]) (simp add: sample_process_def)

lemma sample_waiting_run:
  "\<exists>ps'. pool_run (execute_task sample_env sample_sub sample_process ''aaaaaaa2'') [(0, Event (StartMsg sample_start_msg))]
     (new_pool [0, 1], waitForStart sample_sub sample_process ''aaaaaaa2''
        \<lparr>co_comm = NewCommunication ''aaaaaaa1'', co_phase = Idle, co_deferred = []\<rparr>) = Some ps' \<and>
   co_phase (snd ps') = Running False ''params''"
  by (simp add: pool_step_def execute_task_def session_event_def wait_start_def waitForStart_def split_beta Let_def
      sample_start_msg_def sample_payload_start)

theorem start_only_from_coordinator_witness:
  "\<exists>m :: wrapped_message. UnmarshalStartMessage (te_parse sample_env) (wm_Payload m) = Inr \<lparr>Params = ''params''\<rparr> \<and> wm_From m = ''aaaaaaa2''"
proof -
  from sample_waiting_run obtain ps' where "pool_run (execute_task sample_env sample_sub sample_process ''aaaaaaa2'')
     [(0, Event (StartMsg sample_start_msg))] (new_pool [0, 1], waitForStart sample_sub sample_process ''aaaaaaa2''
        \<lparr>co_comm = NewCommunication ''aaaaaaa1'', co_phase = Idle, co_deferred = []\<rparr>) = Some ps'"
    "co_phase (snd ps') = Running False ''params''" by blast
  from start_only_from_coordinator [OF this] obtain m :: wrapped_message where
    "''aaaaaaa2'' = [] \<or> wm_From m = ''aaaaaaa2''" "UnmarshalStartMessage (te_parse sample_env) (wm_Payload m) = Inr \<lparr>Params = ''params''\<rparr>"
    by blast
  then show ?thesis by (intro exI [of _ m]) simp
qed

theorem start_agreement_witness:
  "\<exists>payload. co_phase (fst (wait_start sample_env ''aaaaaaa1''
      \<lparr>wm_MessageType = TssStartMsg, wm_SessionID = ''s'', wm_Payload = payload, wm_From = ''aaaaaaa1''\<rparr>
      (\<lparr>co_comm = NewCommunication ''aaaaaaa2'', co_phase = Waiting ''aaaaaaa1'', co_deferred = []\<rparr> :: nat coord_state))) = Running False ''params''"
proof -
  let ?w = "\<lparr>wm_MessageType = TssReadyMsg, wm_SessionID = ''s'', wm_Payload = '''', wm_From = ''aaaaaaa2''\<rparr>"
  let ?s = "\<lparr>co_comm = NewCommunication ''aaaaaaa1'', co_phase = Initiating [''aaaaaaa1''] [], co_deferred = []\<rparr> :: nat coord_state"
  have "json_text_ok (te_print sample_env) (te_parse sample_env)" using json_text_ok_unary by simp
  moreover obtain s1 where "initiate_ready sample_env sample_process [''aaaaaaa1''] [] ?w ?s = (s1, Continue)"
    "co_phase s1 = Running True ''params''"
    by (simp add: initiate_ready_def Let_def add_ready_def sample_process_def MarshalStartMessage_def)
  ultimately show ?thesis
    using start_agreement [of sample_env sample_env sample_process "[''aaaaaaa1'']" "[]" ?w ?s s1 "''params''"
        "\<lparr>co_comm = NewCommunication ''aaaaaaa2'', co_phase = Waiting ''aaaaaaa1'', co_deferred = []\<rparr>"]
    by (auto simp: sample_process_def)
qed



theorem fail_message_scope_witness:
  "retry_task sample_env sample_sub sample_process 0 (FailMsg sample_start_msg)
     \<lparr>co_comm = NewCommunication ''aaaaaaa1'', co_phase = Idle, co_deferred = []\<rparr> =
   (\<lparr>co_comm = NewCommunication ''aaaaaaa1'', co_phase = Idle, co_deferred = []\<rparr>, Continue)"
proof -
  have "codec_ok (te_pretty sample_env) (te_decode sample_env)" using codec_ok_id by simp
  from fail_message_scope [OF this, THEN conjunct2, THEN mp] show ?thesis by (simp add: sample_start_msg_def)
qed

theorem rejection_justified_witness:
  "\<exists>i::nat. ((\<lambda>_. Entering ''s'')(0 := Passed ''s'', 0 := InSession ''s'')) i = InSession ''s''"
proof -
  have "exec_step (exec_start (\<lambda>_. ''s'')) (\<lambda>_. None, (\<lambda>_. Entering ''s'')(0 := Passed ''s''))"
    unfolding exec_start_def by (rule exec_pass) simp_all
  moreover have "exec_step (\<lambda>_. None, (\<lambda>_. Entering ''s'')(0 := Passed ''s''))
      ((\<lambda>_. None)(''s'' \<mapsto> True), (\<lambda>_. Entering ''s'')(0 := Passed ''s'', 0 := InSession ''s''))"
    by (rule exec_mark) simp
  ultimately have "exec_step\<^sup>*\<^sup>* (exec_start (\<lambda>_. ''s''))
      ((\<lambda>_. None)(''s'' \<mapsto> True), (\<lambda>_. Entering ''s'')(0 := Passed ''s'', 0 := InSession ''s''))"
    by (meson rtranclp.rtrancl_into_rtrancl rtranclp.rtrancl_refl)
  from rejection_justified [OF this, of "''s''"] show ?thesis by simp
qed

end
