(* ===== verification/Session.thy ===== *)
theory Session
  imports Coordinator
begin

text \<open>
  A whole session: many relayers, each with its own coordinator goroutine, and the network between them.
  Every relayer makes the moves of \<open>session_event\<close>; an initiate, ready or start message it takes must have
  been sent, and carries its sender (\<open>Network\<close> shows that a receiver knows it).  Whoever is not in \<open>honest\<close>
  may send anything under its own name.  A relayer may leave at any time, as it does when its attempt ends:
  with the processes, an error, a timeout or a cancelled context.
\<close>

definition session_message :: "'c tss_env \<Rightarrow> tss_process \<Rightarrow> message_type \<Rightarrow> bytes \<Rightarrow> wrapped_message" where
  "session_message E p msgType payload =
     \<lparr>wm_MessageType = msgType, wm_SessionID = tp_SessionID p, wm_Payload = payload, wm_From = te_hostID E\<rparr>"

lemma session_message_simps [simp]:
  "wm_MessageType (session_message E p mt b) = mt" "wm_SessionID (session_message E p mt b) = tp_SessionID p"
  "wm_Payload (session_message E p mt b) = b" "wm_From (session_message E p mt b) = te_hostID E"
  by (simp_all add: session_message_def)

text \<open>What a move broadcasts: a leader its initiate message when it begins and at every tick of the initiate period,
  and its start message when it starts; a waiting relayer its ready message to whom it takes an initiate message from.\<close>

definition begin_sent :: "'c tss_env \<Rightarrow> tss_process \<Rightarrow> 'c coord_state \<Rightarrow> wrapped_message set" where
  "begin_sent E p s = (case co_phase s of Initiating ready ex \<Rightarrow> {session_message E p TssInitiateMsg []} | _ \<Rightarrow> {})"

definition start_sent :: "'c tss_env \<Rightarrow> tss_process \<Rightarrow> 'c coord_state \<Rightarrow> wrapped_message set" where
  "start_sent E p s =
     (case co_phase s of
        Running leads params \<Rightarrow>
          (case MarshalStartMessage (te_print E) params of
             Inl err \<Rightarrow> {}
           | Inr payload \<Rightarrow> {session_message E p TssStartMsg payload})
      | _ \<Rightarrow> {})"

definition sent :: "'c tss_env \<Rightarrow> tss_process \<Rightarrow> coord_event \<Rightarrow> 'c coord_state \<Rightarrow> 'c coord_state \<Rightarrow> wrapped_message set" where
  "sent E p e s s1 =
     (case (co_phase s, e) of
        (Initiating ready ex, ReadyMsg w) \<Rightarrow> start_sent E p s1
      | (Initiating ready ex, InitiateTick) \<Rightarrow> begin_sent E p s1
      | (Electing ex, Elected answer) \<Rightarrow> begin_sent E p s1
      | (Waiting coordinator, InitiateMsg w) \<Rightarrow>
          (if coordinator \<noteq> '''' \<and> wm_From w \<noteq> coordinator then {} else {session_message E p TssReadyMsg []})
      | _ \<Rightarrow> {})"

lemma sent_is_broadcast:
  assumes "session_event E sub p e s = (s1, Continue)" and "m \<in> sent E p e s s1"
  shows "wm_From m = te_hostID E \<and>
    (\<exists>peers c. co_comm s1 = snd (te_broadcast E peers (wm_Payload m) (wm_MessageType m) (wm_SessionID m) c))"
  using assms
  by (auto simp: sent_def session_event_def begin_sent_def start_sent_def initiate_ready_def retry_elected_def start_def initiate_def
      waitForStart_def wait_initiate_def broadcastInitiateMsg_def Let_def split_beta
      split: phase.splits coord_event.splits sum.splits bool.splits if_splits)
    (intro exI, rule refl)+

type_synonym 'c session_system = "(peer_id \<Rightarrow> 'c coord_state) \<times> wrapped_message set"

record 'c relayers =
  rs_env :: "peer_id \<Rightarrow> 'c tss_env"
  rs_sub :: "peer_id \<Rightarrow> 'c subscribe"
  rs_process :: "peer_id \<Rightarrow> tss_process"
  rs_honest :: "peer_id set"

text \<open>The channels of a session get the messages of their type.\<close>

definition deliverable :: "wrapped_message set \<Rightarrow> coord_event \<Rightarrow> bool" where
  "deliverable net e =
     (case e of
        InitiateMsg m \<Rightarrow> m \<in> net \<and> wm_MessageType m = TssInitiateMsg
      | ReadyMsg m \<Rightarrow> m \<in> net \<and> wm_MessageType m = TssReadyMsg
      | StartMsg m \<Rightarrow> m \<in> net \<and> wm_MessageType m = TssStartMsg
      | _ \<Rightarrow> True)"

inductive session_step :: "'c relayers \<Rightarrow> 'c session_system \<Rightarrow> 'c session_system \<Rightarrow> bool" for R where
  event: "i \<in> rs_honest R \<Longrightarrow> deliverable net e \<Longrightarrow>
     session_event (rs_env R i) (rs_sub R i) (rs_process R i) e (nodes i) = (s1, Continue) \<Longrightarrow>
     session_step R (nodes, net) (nodes(i := s1), net \<union> sent (rs_env R i) (rs_process R i) e (nodes i) s1)"
| leave: "i \<in> rs_honest R \<Longrightarrow> session_step R (nodes, net) (nodes(i := (nodes i)\<lparr>co_phase := Idle\<rparr>), net)"
| inject: "wm_From m \<notin> rs_honest R \<Longrightarrow> session_step R (nodes, net) (nodes, insert m net)"

text \<open>Every relayer starts with the coordinator its static elector names.\<close>

definition elected :: "'c relayers \<Rightarrow> peer_id \<Rightarrow> peer_id" where
  "elected R i = static_Coordinator (te_keccak (rs_env R i)) (te_pretty (rs_env R i)) (tp_SessionID (rs_process R i))
     (tp_ValidCoordinators (rs_process R i))"

definition session_start :: "'c relayers \<Rightarrow> (peer_id \<Rightarrow> 'c coord_state) \<Rightarrow> 'c session_system" where
  "session_start R s0 =
     (let nodes = (\<lambda>i. start (rs_env R i) (rs_sub R i) (rs_process R i) (elected R i) [] (s0 i))
      in (nodes, \<Union>i\<in>rs_honest R. begin_sent (rs_env R i) (rs_process R i) (nodes i)))"

subsection \<open>Moves of one relayer\<close>

lemma Idle_event: "session_event E sub p e s = (s1, r) \<Longrightarrow> co_phase s = Idle \<Longrightarrow> s1 = s \<and> sent E p e s s1 = {}"
  by (auto simp: session_event_def sent_def split: coord_event.splits)

lemma Running_quiet: "session_event E sub p e s = (s1, r) \<Longrightarrow> co_phase s = Running b params \<Longrightarrow> s1 = s \<and> sent E p e s s1 = {}"
  by (auto simp: session_event_def sent_def split: coord_event.splits)

lemma begin_sent_type: "m \<in> begin_sent E p s \<Longrightarrow> wm_MessageType m = TssInitiateMsg \<and> wm_From m = te_hostID E"
  by (auto simp: begin_sent_def split: phase.splits)

lemma types_differ [simp]:
  "TssInitiateMsg \<noteq> TssStartMsg" "TssReadyMsg \<noteq> TssStartMsg" "TssReadyMsg \<noteq> TssInitiateMsg"
  "TssStartMsg \<noteq> TssInitiateMsg" "TssStartMsg \<noteq> TssReadyMsg" "TssInitiateMsg \<noteq> TssReadyMsg"
  by (simp_all add: message_type_defs)

text \<open>Start messages come from leaders that start.\<close>

lemma no_start_sent:
  assumes "\<forall>ready ex. co_phase s \<noteq> Initiating ready ex" and "m \<in> sent E p e s s1"
  shows "wm_MessageType m \<noteq> TssStartMsg"
  using assms by (auto simp: sent_def dest: begin_sent_type split: phase.splits coord_event.splits if_splits)

lemma Initiating_event:
  assumes "session_event E sub p e s = (s1, r)" and "co_phase s = Initiating ready ex"
  obtains (still) ready' where "co_phase s1 = Initiating ready' ex" "\<forall>m\<in>sent E p e s s1. wm_MessageType m \<noteq> TssStartMsg"
  | (starts) params payload where "co_phase s1 = Running True params" "MarshalStartMessage (te_print E) params = Inr payload"
      "sent E p e s s1 = {session_message E p TssStartMsg payload}"
proof -
  have "(\<exists>ready'. co_phase s1 = Initiating ready' ex \<and> (\<forall>m\<in>sent E p e s s1. wm_MessageType m \<noteq> TssStartMsg)) \<or>
    (\<exists>params payload. co_phase s1 = Running True params \<and> MarshalStartMessage (te_print E) params = Inr payload \<and>
      sent E p e s s1 = {session_message E p TssStartMsg payload})"
    using assms
    by (auto simp: session_event_def initiate_ready_def sent_def start_sent_def Let_def dest: begin_sent_type
        split: coord_event.splits sum.splits bool.splits)
  with still starts show thesis by blast
qed

lemma session_net_mono: "(session_step R)\<^sup>*\<^sup>* st st' \<Longrightarrow> snd st \<subseteq> snd st'"
  by (induction rule: rtranclp_induct) (auto elim!: session_step.cases)

text \<open>A leader that takes a ready message waits for more, or starts and sends its parameters.\<close>

lemma ready_step:
  assumes "i \<in> rs_honest R" and "co_phase (nodes i) = Initiating ready ex" and "w \<in> net" and "wm_MessageType w = TssReadyMsg"
    and "tp_Ready (rs_process R i) (add_ready ex (wm_From w) ready) ex = Inr False"
  shows "session_step R (nodes, net) (nodes(i := (nodes i)\<lparr>co_phase := Initiating (add_ready ex (wm_From w) ready) ex\<rparr>), net)"
proof -
  let ?s = "(nodes i)\<lparr>co_phase := Initiating (add_ready ex (wm_From w) ready) ex\<rparr>"
  have "session_event (rs_env R i) (rs_sub R i) (rs_process R i) (ReadyMsg w) (nodes i) = (?s, Continue)"
    using assms(2,5) by (simp add: session_event_def initiate_ready_def Let_def)
  moreover have "sent (rs_env R i) (rs_process R i) (ReadyMsg w) (nodes i) ?s = {}" using assms(2) by (simp add: sent_def start_sent_def)
  ultimately show ?thesis
    using session_step.event [of i R net "ReadyMsg w" nodes ?s] assms(1,3,4) by (simp add: deliverable_def)
qed

lemma start_step:
  assumes "i \<in> rs_honest R" and "co_phase (nodes i) = Initiating ready ex" and "w \<in> net" and "wm_MessageType w = TssReadyMsg"
    and "tp_Ready (rs_process R i) (add_ready ex (wm_From w) ready) ex = Inr True"
    and "params = tp_StartParams (rs_process R i) (add_ready ex (wm_From w) ready)"
  shows "\<exists>s payload. co_phase s = Running True params \<and> MarshalStartMessage (te_print (rs_env R i)) params = Inr payload \<and>
    session_step R (nodes, net) (nodes(i := s), insert (session_message (rs_env R i) (rs_process R i) TssStartMsg payload) net)"
proof -
  let ?E = "rs_env R i" and ?p = "rs_process R i"
  obtain payload where pay: "MarshalStartMessage (te_print ?E) params = Inr payload" by (simp add: MarshalStartMessage_def)
  with assms(2,5,6) obtain s where ev: "session_event ?E (rs_sub R i) ?p (ReadyMsg w) (nodes i) = (s, Continue)" "co_phase s = Running True params"
    by (simp add: session_event_def initiate_ready_def Let_def)
  moreover have "sent ?E ?p (ReadyMsg w) (nodes i) s = {session_message ?E ?p TssStartMsg payload}"
    using assms(2) ev(2) pay by (simp add: sent_def start_sent_def)
  ultimately show ?thesis
    using session_step.event [of i R net "ReadyMsg w" nodes s] assms(1,3,4) pay by (auto simp: deliverable_def)
qed

text \<open>Who waits and takes the start message runs with its parameters.\<close>

lemma follow_step:
  assumes "i \<in> rs_honest R" and "co_phase (nodes i) = Waiting (wm_From (m :: wrapped_message))"
    and "m \<in> net" and "wm_MessageType m = TssStartMsg"
    and "UnmarshalStartMessage (te_parse (rs_env R i)) (wm_Payload m) = Inr \<lparr>Params = params\<rparr>"
  shows "session_step R (nodes, net) (nodes(i := (nodes i)\<lparr>co_phase := Running False params\<rparr>), net)"
proof -
  let ?s = "(nodes i)\<lparr>co_phase := Running False params\<rparr>"
  have "session_event (rs_env R i) (rs_sub R i) (rs_process R i) (StartMsg m) (nodes i) = (?s, Continue)"
    using assms(2,5) by (simp add: session_event_def wait_start_def)
  moreover have "sent (rs_env R i) (rs_process R i) (StartMsg m) (nodes i) ?s = {}" using assms(2) by (simp add: sent_def)
  ultimately show ?thesis
    using session_step.event [of i R net "StartMsg m" nodes ?s] assms(1,3,4) by (simp add: deliverable_def)
qed

text \<open>Who waits and takes the initiate message of its coordinator answers that it is ready.\<close>

lemma answer_step:
  assumes "i \<in> rs_honest R" and "co_phase (nodes i) = Waiting (wm_From (m :: wrapped_message))"
    and "m \<in> net" and "wm_MessageType m = TssInitiateMsg"
  shows "\<exists>s. co_phase s = Waiting (wm_From m) \<and>
    session_step R (nodes, net) (nodes(i := s), insert (session_message (rs_env R i) (rs_process R i) TssReadyMsg []) net)"
proof -
  let ?E = "rs_env R i" and ?p = "rs_process R i"
  obtain s where ev: "session_event ?E (rs_sub R i) ?p (InitiateMsg m) (nodes i) = (s, Continue)" "co_phase s = Waiting (wm_From m)"
    using assms(2) by (simp add: session_event_def wait_initiate_def)
  moreover have "sent ?E ?p (InitiateMsg m) (nodes i) s = {session_message ?E ?p TssReadyMsg []}" using assms(2) by (simp add: sent_def)
  ultimately show ?thesis
    using session_step.event [of i R net "InitiateMsg m" nodes s] assms(1,3,4) by (auto simp: deliverable_def)
qed

text \<open>What the honest relayers have in common: the session, the hash and the encoding of peers, the
  candidates (in any order), and JSON that each reads from the others.\<close>

definition session_ok :: "'c relayers \<Rightarrow> session_id \<Rightarrow> (bytes \<Rightarrow> bytes) \<Rightarrow> (peer_id \<Rightarrow> string) \<Rightarrow> peer_id list \<Rightarrow> bool" where
  "session_ok R sid k pr cands \<longleftrightarrow>
     inj pr \<and> inj_on (session_key k pr sid) (set cands) \<and> '''' \<notin> rs_honest R \<and>
     (\<forall>i\<in>rs_honest R. te_hostID (rs_env R i) = i \<and> te_keccak (rs_env R i) = k \<and> te_pretty (rs_env R i) = pr \<and>
        tp_SessionID (rs_process R i) = sid \<and> mset (tp_ValidCoordinators (rs_process R i)) = mset cands \<and>
        (\<forall>j\<in>rs_honest R. json_text_ok (te_print (rs_env R i)) (te_parse (rs_env R j))))"

lemma elected_same:
  assumes "session_ok R sid k pr cands" and "i \<in> rs_honest R"
  shows "elected R i = static_Coordinator k pr sid cands"
proof -
  have i: "te_keccak (rs_env R i) = k" "te_pretty (rs_env R i) = pr" "tp_SessionID (rs_process R i) = sid"
    "mset (tp_ValidCoordinators (rs_process R i)) = mset cands"
    using assms unfolding session_ok_def by blast+
  have "static_Coordinator k pr sid cands = static_Coordinator k pr sid (tp_ValidCoordinators (rs_process R i))"
    using order_agreement [OF i(4) [symmetric]] assms(1) unfolding session_ok_def by blast
  with i show ?thesis by (simp add: elected_def)
qed

subsection \<open>Instances\<close>

definition sample_relayers :: "nat relayers" where
  "sample_relayers = \<lparr>rs_env = (\<lambda>i. sample_env\<lparr>te_hostID := i\<rparr>), rs_sub = (\<lambda>i. sample_sub),
     rs_process = (\<lambda>i. sample_process\<lparr>tp_ValidCoordinators := [''aaaaaaa1'', ''aaaaaaa2'']\<rparr>),
     rs_honest = {''aaaaaaa1'', ''aaaaaaa2''}\<rparr>"

text \<open>Relayers that have done nothing yet.\<close>

definition fresh_nodes :: "peer_id \<Rightarrow> nat coord_state" where
  "fresh_nodes i = \<lparr>co_comm = NewCommunication i, co_phase = Idle, co_deferred = []\<rparr>"

lemma sample_relayers_simps [simp]:
  "rs_env sample_relayers i = sample_env\<lparr>te_hostID := i\<rparr>" "rs_sub sample_relayers i = sample_sub"
  "rs_process sample_relayers i = sample_process\<lparr>tp_ValidCoordinators := [''aaaaaaa1'', ''aaaaaaa2'']\<rparr>"
  "rs_honest sample_relayers = {''aaaaaaa1'', ''aaaaaaa2''}"
  by (simp_all add: sample_relayers_def)

lemma sample_leader: "static_Coordinator (\<lambda>b. b) (\<lambda>p. p) ''s'' [''aaaaaaa1'', ''aaaaaaa2''] = ''aaaaaaa2''"
  using static_member [of "[''aaaaaaa1'', ''aaaaaaa2'']" "\<lambda>b. b" "\<lambda>p. p" "''s''"] session_key_example(1) by auto

lemma sample_session_ok: "session_ok sample_relayers ''s'' (\<lambda>b. b) (\<lambda>p. p) [''aaaaaaa1'', ''aaaaaaa2'']"
proof -
  have "inj_on (session_key (\<lambda>b. b) (\<lambda>p. p) ''s'') (set [''aaaaaaa1'', ''aaaaaaa2''])"
    using session_key_example by (auto simp: inj_on_def)
  then show ?thesis
    using json_text_ok_unary by (auto simp: session_ok_def sample_process_def)
qed

end
