(* ===== verification/Consensus.thy ===== *)
theory Consensus
  imports Session
begin

text \<open>
  What a session is for: the relayers agree on the start parameters.  The abstract machine decides once and
  then lets relayers join and leave; it simulates the session with its handshakes, ticks, timeouts and
  dishonest senders.
\<close>

record decision =
  de_params :: "bytes option"
  de_joined :: "peer_id set"

inductive decision_step :: "peer_id set \<Rightarrow> peer_id \<Rightarrow> decision \<Rightarrow> decision \<Rightarrow> bool" for honest L where
  decide: "decision_step honest L \<lparr>de_params = None, de_joined = {}\<rparr> \<lparr>de_params = Some params, de_joined = {L}\<rparr>"
| join: "i \<in> honest \<Longrightarrow> i \<noteq> L \<Longrightarrow> i \<notin> S \<Longrightarrow>
     decision_step honest L \<lparr>de_params = Some params, de_joined = S\<rparr> \<lparr>de_params = Some params, de_joined = insert i S\<rparr>"
| leave: "i \<in> S \<Longrightarrow>
     decision_step honest L \<lparr>de_params = Some params, de_joined = S\<rparr> \<lparr>de_params = Some params, de_joined = S - {i}\<rparr>"

definition undecided :: decision where
  "undecided = \<lparr>de_params = None, de_joined = {}\<rparr>"

definition runs :: "phase \<Rightarrow> bool" where
  "runs ph \<longleftrightarrow> (case ph of Running leads params \<Rightarrow> True | _ \<Rightarrow> False)"

lemma runs_simps [simp]:
  "runs (Running leads params)" "\<not> runs (Waiting coord)" "\<not> runs (Initiating ready ex)" "\<not> runs (Electing ex)" "\<not> runs Idle"
  by (simp_all add: runs_def)

text \<open>The part a relayer plays once \<open>d\<close> is what has been decided: nobody but the leader leads, and nobody
  runs with anything else.\<close>

definition plays :: "peer_id \<Rightarrow> bytes option \<Rightarrow> peer_id \<Rightarrow> phase \<Rightarrow> bool" where
  "plays L d i ph \<longleftrightarrow> ph = Idle \<or>
     (if i = L then (case d of None \<Rightarrow> \<exists>ready ex. ph = Initiating ready ex | Some params \<Rightarrow> ph = Running True params)
      else ph = Waiting L \<or> (\<exists>params. d = Some params \<and> ph = Running False params))"

lemma plays_Idle [simp]: "plays L d i Idle"
  by (simp add: plays_def)

definition led_session :: "'c relayers \<Rightarrow> peer_id \<Rightarrow> bool" where
  "led_session R L \<longleftrightarrow> L \<in> rs_honest R \<and> L \<noteq> '''' \<and>
     (\<forall>i\<in>rs_honest R. te_hostID (rs_env R i) = i \<and> json_text_ok (te_print (rs_env R L)) (te_parse (rs_env R i)))"

definition start_carries :: "'c relayers \<Rightarrow> peer_id \<Rightarrow> bytes option \<Rightarrow> wrapped_message \<Rightarrow> bool" where
  "start_carries R L d m \<longleftrightarrow> (wm_From m = L \<and> wm_MessageType m = TssStartMsg \<longrightarrow>
     (\<exists>params. d = Some params \<and>
       (\<forall>i\<in>rs_honest R. UnmarshalStartMessage (te_parse (rs_env R i)) (wm_Payload m) = Inr \<lparr>Params = params\<rparr>)))"

definition matches :: "'c relayers \<Rightarrow> peer_id \<Rightarrow> decision \<Rightarrow> 'c session_system \<Rightarrow> bool" where
  "matches R L dec st \<longleftrightarrow> led_session R L \<and>
     (\<forall>i\<in>rs_honest R. plays L (de_params dec) i (co_phase (fst st i))) \<and>
     de_joined dec = {i \<in> rs_honest R. runs (co_phase (fst st i))} \<and>
     (\<forall>m\<in>snd st. start_carries R L (de_params dec) m)"

lemma plays_None: "plays L None i ph \<Longrightarrow> \<not> runs ph"
  by (auto simp: plays_def split: if_splits)

lemma matches_undecided: "matches R L \<lparr>de_params = None, de_joined = S\<rparr> st \<Longrightarrow> S = {}"
  by (auto simp: matches_def dest: plays_None)

text \<open>A move that starts nothing keeps the match.\<close>

lemma matches_update:
  assumes "matches R L dec (nodes, net)" and "plays L (de_params dec) i (co_phase s1)"
    and "runs (co_phase s1) = runs (co_phase (nodes i))" and "\<forall>m\<in>ms. wm_MessageType m \<noteq> TssStartMsg"
  shows "matches R L dec (nodes(i := s1), net \<union> ms)"
  using assms by (auto simp: matches_def start_carries_def)

lemma leader_moves:
  assumes m: "matches R L dec (nodes, net)"
    and ev: "session_event (rs_env R L) (rs_sub R L) (rs_process R L) e (nodes L) = (s1, Continue)"
  shows "\<exists>dec'. (dec' = dec \<or> decision_step (rs_honest R) L dec dec') \<and>
    matches R L dec' (nodes(L := s1), net \<union> sent (rs_env R L) (rs_process R L) e (nodes L) s1)"
proof -
  have L: "L \<in> rs_honest R" "te_hostID (rs_env R L) = L"
    and json: "\<And>i. i \<in> rs_honest R \<Longrightarrow> json_text_ok (te_print (rs_env R L)) (te_parse (rs_env R i))"
    using m by (auto simp: matches_def led_session_def)
  have "plays L (de_params dec) L (co_phase (nodes L))" using m L by (simp add: matches_def)
  then consider (idle) "co_phase (nodes L) = Idle" | (init) ready ex where "de_params dec = None" "co_phase (nodes L) = Initiating ready ex"
    | (run) params where "co_phase (nodes L) = Running True params"
    by (auto simp: plays_def split: option.splits)
  then show ?thesis
  proof cases
    case idle
    with Idle_event [OF ev] m show ?thesis by auto
  next
    case run
    with Running_quiet [OF ev run] m show ?thesis by auto
  next
    case init
    from ev init(2) show ?thesis
    proof (cases rule: Initiating_event)
      case (still ready')
      then have "matches R L dec (nodes(L := s1), net \<union> sent (rs_env R L) (rs_process R L) e (nodes L) s1)"
        by (intro matches_update [OF m]) (simp_all add: plays_def init)
      then show ?thesis by blast
    next
      case (starts params payload)
      from init(1) obtain S where dec: "dec = \<lparr>de_params = None, de_joined = S\<rparr>" by (cases dec) auto
      with m matches_undecided have S: "S = {}" by blast
      let ?dec = "\<lparr>de_params = Some params, de_joined = {L}\<rparr>"
      have "UnmarshalStartMessage (te_parse (rs_env R i)) payload = Inr \<lparr>Params = params\<rparr>" if "i \<in> rs_honest R" for i
        by (rule start_roundtrip [OF json [OF that] starts(2)])
      then have "matches R L ?dec (nodes(L := s1), net \<union> sent (rs_env R L) (rs_process R L) e (nodes L) s1)"
        using m L starts(1,3) unfolding matches_def dec S
        by (auto simp: start_carries_def plays_def dest: plays_None)
      with decision_step.decide [of "rs_honest R" L params] dec S show ?thesis by blast
    qed
  qed
qed

lemma follower_moves:
  assumes m: "matches R L dec (nodes, net)" and i: "i \<in> rs_honest R" "i \<noteq> L" and del: "deliverable net e"
    and ev: "session_event (rs_env R i) (rs_sub R i) (rs_process R i) e (nodes i) = (s1, Continue)"
  shows "\<exists>dec'. (dec' = dec \<or> decision_step (rs_honest R) L dec dec') \<and>
    matches R L dec' (nodes(i := s1), net \<union> sent (rs_env R i) (rs_process R i) e (nodes i) s1)"
proof -
  have "plays L (de_params dec) i (co_phase (nodes i))" "L \<noteq> ''''" using m i by (simp_all add: matches_def led_session_def)
  then consider (idle) "co_phase (nodes i) = Idle" | (waits) "co_phase (nodes i) = Waiting L"
    | (run) params where "co_phase (nodes i) = Running False params"
    using i(2) by (auto simp: plays_def)
  then show ?thesis
  proof cases
    case idle
    with Idle_event [OF ev] m show ?thesis by auto
  next
    case run
    with Running_quiet [OF ev run] m show ?thesis by auto
  next
    case waits
    have ms: "\<forall>m\<in>sent (rs_env R i) (rs_process R i) e (nodes i) s1. wm_MessageType m \<noteq> TssStartMsg"
      by (intro ballI no_start_sent [of "nodes i"]) (auto simp: waits)
    from Waiting_event [OF ev waits] \<open>L \<noteq> ''''\<close> consider "co_phase s1 = Waiting L"
      | (takes) w params where "e = StartMsg w" "wm_From w = L" "co_phase s1 = Running False params"
        "UnmarshalStartMessage (te_parse (rs_env R i)) (wm_Payload w) = Inr \<lparr>Params = params\<rparr>" by blast
    then show ?thesis
    proof cases
      case 1
      with matches_update [OF m, of i s1] ms i waits show ?thesis by (auto simp: plays_def)
    next
      case takes
      then have "start_carries R L (de_params dec) w" "wm_MessageType w = TssStartMsg"
        using del m by (auto simp: deliverable_def matches_def)
      with takes(2,4) i(1) have d: "de_params dec = Some params" by (auto simp: start_carries_def)
      then obtain S where dec: "dec = \<lparr>de_params = Some params, de_joined = S\<rparr>" by (cases dec) auto
      then have "i \<notin> S" using m waits by (auto simp: matches_def)
      moreover have "matches R L \<lparr>de_params = Some params, de_joined = insert i S\<rparr>
          (nodes(i := s1), net \<union> sent (rs_env R i) (rs_process R i) e (nodes i) s1)"
        using m i takes(3) ms unfolding matches_def dec by (auto simp: plays_def start_carries_def)
      ultimately show ?thesis using decision_step.join [OF i] dec by blast
    qed
  qed
qed

lemma leaver_moves:
  assumes m: "matches R L dec (nodes, net)" and i: "i \<in> rs_honest R"
  shows "\<exists>dec'. (dec' = dec \<or> decision_step (rs_honest R) L dec dec') \<and>
    matches R L dec' (nodes(i := (nodes i)\<lparr>co_phase := Idle\<rparr>), net)"
proof (cases "runs (co_phase (nodes i))")
  case True
  with m i plays_None obtain params S where dec: "dec = \<lparr>de_params = Some params, de_joined = S\<rparr>" "i \<in> S"
    by (cases dec; cases "de_params dec") (auto simp: matches_def)
  have "matches R L \<lparr>de_params = Some params, de_joined = S - {i}\<rparr> (nodes(i := (nodes i)\<lparr>co_phase := Idle\<rparr>), net)"
    using m dec by (auto simp: matches_def)
  with decision_step.leave [OF dec(2)] dec(1) show ?thesis by blast
next
  case False
  with matches_update [OF m, of i "(nodes i)\<lparr>co_phase := Idle\<rparr>" "{}"] show ?thesis by auto
qed

interpretation session: simulation "session_step R" "decision_step (rs_honest R) L" "matches R L"
  for R :: "'c relayers" and L
proof
  fix dec and st st' :: "'c session_system"
  assume m: "matches R L dec st" and "session_step R st st'"
  from this(2) show "\<exists>dec'. (dec' = dec \<or> decision_step (rs_honest R) L dec dec') \<and> matches R L dec' st'"
  proof (cases rule: session_step.cases)
    case (event i net e nodes s1)
    with m leader_moves [of R L dec nodes net e s1] follower_moves [of R L dec nodes net i e s1] show ?thesis
      by (cases "i = L") simp_all
  next
    case (leave i nodes net)
    with m leaver_moves [of R L dec nodes net i] show ?thesis by simp
  next
    case (inject w nodes net)
    with m have "matches R L dec st'" by (auto simp: matches_def start_carries_def led_session_def)
    then show ?thesis by blast
  qed
qed

lemma session_matches:
  assumes ok: "session_ok R sid k pr cands" and L: "static_Coordinator k pr sid cands = L" "L \<in> rs_honest R"
  shows "matches R L undecided (session_start R s0)"
proof -
  have led: "led_session R L" using ok L(2) unfolding session_ok_def led_session_def by blast
  have ph: "co_phase (fst (session_start R s0) i) = (if i = L then Initiating [L] [] else Waiting L)" if "i \<in> rs_honest R" for i
  proof -
    have "te_hostID (rs_env R i) = i" "te_pretty (rs_env R i) = pr" "elected R i = L" "pr L = pr i \<longleftrightarrow> i = L"
      using ok that elected_same [OF ok that] L(1) unfolding session_ok_def by (auto simp: inj_eq)
    then show ?thesis
      by (cases "i = L") (simp_all add: session_start_def start_def initiate_def waitForStart_def Let_def split_beta)
  qed
  then have "plays L None i (co_phase (fst (session_start R s0) i))" "\<not> runs (co_phase (fst (session_start R s0) i))"
    if "i \<in> rs_honest R" for i using that by (simp_all add: plays_def)
  moreover have "wm_MessageType m \<noteq> TssStartMsg" if "m \<in> snd (session_start R s0)" for m
    using that by (auto simp: session_start_def Let_def dest: begin_sent_type)
  ultimately show ?thesis using led by (auto simp: matches_def undecided_def start_carries_def)
qed

lemma matches_reachable:
  assumes "session_ok R sid k pr cands" and "static_Coordinator k pr sid cands = L" "L \<in> rs_honest R"
    and "(session_step R)\<^sup>*\<^sup>* (session_start R s0) st"
  obtains dec where "(decision_step (rs_honest R) L)\<^sup>*\<^sup>* undecided dec" "matches R L dec st"
  using session.simulates_run [OF assms(4) session_matches [OF assms(1-3)]] by blast

lemma matches_runs:
  assumes "matches R L dec st" and "i \<in> rs_honest R" and "co_phase (fst st i) = Running leads params"
  shows "de_params dec = Some params \<and> leads = (i = L)"
proof -
  have "plays L (de_params dec) i (Running leads params)" using assms by (auto simp: matches_def)
  then show ?thesis by (auto simp: plays_def split: if_splits option.splits)
qed

subsection \<open>Properties\<close>



subsection \<open>Instances\<close>

text \<open>The whole handshake of the two sample relayers: initiate, ready, start.\<close>

lemma sample_started:
  "\<exists>nodes net m. (session_step sample_relayers)\<^sup>*\<^sup>* (session_start sample_relayers s0) (nodes, net) \<and>
     co_phase (nodes ''aaaaaaa2'') = Running True ''params'' \<and> co_phase (nodes ''aaaaaaa1'') = Waiting ''aaaaaaa2'' \<and>
     m \<in> net \<and> wm_From m = ''aaaaaaa2'' \<and> wm_MessageType m = TssStartMsg \<and>
     UnmarshalStartMessage unary_parse (wm_Payload m) = Inr \<lparr>Params = ''params''\<rparr>"
proof -
  let ?R = sample_relayers and ?E = "\<lambda>i. sample_env\<lparr>te_hostID := i\<rparr>" and ?L = "''aaaaaaa2''" and ?F = "''aaaaaaa1''"
  let ?P = "sample_process\<lparr>tp_ValidCoordinators := [?F, ?L]\<rparr>"
  let ?init = "session_message (?E ?L) ?P TssInitiateMsg []" and ?ready = "session_message (?E ?F) ?P TssReadyMsg []"
  obtain n0 net0 where st0: "session_start ?R s0 = (n0, net0)" by (metis surj_pair)
  have e: "elected ?R i = ?L" for i by (simp add: elected_def sample_process_def sample_leader)
  have init: "co_phase (n0 ?L) = Initiating [?L] []" "co_phase (n0 ?F) = Waiting ?L"
    using st0 by (auto simp: session_start_def Let_def e start_def initiate_def waitForStart_def split_beta)
  then have "?init \<in> net0" using st0 by (auto simp: session_start_def Let_def begin_sent_def split: phase.splits)
  with answer_step [of ?F ?R n0 ?init net0] init obtain s1 where
    1: "co_phase s1 = Waiting ?L" "session_step ?R (n0, net0) (n0(?F := s1), insert ?ready net0)" by auto
  let ?n1 = "n0(?F := s1)" and ?net1 = "insert ?ready net0"
  have "co_phase (?n1 ?L) = Initiating [?L] []" using init(1) by simp
  moreover have "tp_Ready (rs_process ?R ?L) (add_ready [] (wm_From ?ready) [?L]) [] = Inr True"
    "''params'' = tp_StartParams (rs_process ?R ?L) (add_ready [] (wm_From ?ready) [?L])" by (simp_all add: sample_process_def add_ready_def)
  ultimately have "\<exists>s payload. co_phase s = Running True ''params'' \<and> MarshalStartMessage (te_print (rs_env ?R ?L)) ''params'' = Inr payload \<and>
      session_step ?R (?n1, ?net1) (?n1(?L := s), insert (session_message (rs_env ?R ?L) (rs_process ?R ?L) TssStartMsg payload) ?net1)"
    by (intro start_step [where w = ?ready and ready = "[?L]" and ex = "[]"]) simp_all
  then obtain s2 payload where
    2: "co_phase s2 = Running True ''params''" "MarshalStartMessage unary_print ''params'' = Inr payload"
    "session_step ?R (?n1, ?net1) (?n1(?L := s2), insert (session_message (?E ?L) ?P TssStartMsg payload) ?net1)"
    by (elim exE conjE) simp
  let ?start = "session_message (?E ?L) ?P TssStartMsg payload"
  have "UnmarshalStartMessage unary_parse payload = Inr \<lparr>Params = ''params''\<rparr>" by (rule start_roundtrip [OF json_text_ok_unary 2(2)])
  moreover note run2 [of "session_step ?R" "(n0, net0)" "(?n1, ?net1)" "(?n1(?L := s2), insert ?start ?net1)", OF 1(2) 2(3)]
  ultimately show ?thesis
    using st0 1(1) 2(1) by (intro exI [of _ "?n1(?L := s2)"] exI [of _ "insert ?start ?net1"] exI [of _ ?start]) simp
qed

lemma sample_reachable:
  "\<exists>st. (session_step sample_relayers)\<^sup>*\<^sup>* (session_start sample_relayers s0) st \<and>
     co_phase (fst st ''aaaaaaa2'') = Running True ''params'' \<and> co_phase (fst st ''aaaaaaa1'') = Running False ''params''"
proof -
  let ?R = sample_relayers
  obtain nodes net m where st: "(session_step ?R)\<^sup>*\<^sup>* (session_start ?R s0) (nodes, net)"
    "co_phase (nodes ''aaaaaaa2'') = Running True ''params''" "co_phase (nodes ''aaaaaaa1'') = Waiting ''aaaaaaa2''"
    "m \<in> net" "wm_From m = ''aaaaaaa2''" "wm_MessageType m = TssStartMsg"
    "UnmarshalStartMessage unary_parse (wm_Payload m) = Inr \<lparr>Params = ''params''\<rparr>"
    using sample_started by blast
  let ?n = "nodes(''aaaaaaa1'' := (nodes ''aaaaaaa1'')\<lparr>co_phase := Running False ''params''\<rparr>)"
  have "session_step ?R (nodes, net) (?n, net)" using follow_step [of "''aaaaaaa1''" ?R nodes m net "''params''"] st(3-7) by simp
  with st(1) have "(session_step ?R)\<^sup>*\<^sup>* (session_start ?R s0) (?n, net)" by (rule rtranclp.rtrancl_into_rtrancl)
  with st(2) show ?thesis by (intro exI [of _ "(?n, net)"]) simp
qed



end
