(* ===== verification/Progress.thy ===== *)
theory Progress
  imports Consensus
begin

text \<open>
  Sessions get on: as long as the leader has not left, enough waiting signers make it start, by the handshake
  of initiate and ready messages, and once it has started no waiting relayer is left behind.
\<close>

subsection \<open>Nobody is left behind\<close>

text \<open>A leader that runs has sent its start message.\<close>

definition start_in_net :: "peer_id \<Rightarrow> 'c session_system \<Rightarrow> bool" where
  "start_in_net L st \<longleftrightarrow>
     (case co_phase (fst st L) of
        Running leads params \<Rightarrow> \<exists>m\<in>snd st. wm_From m = L \<and> wm_MessageType m = TssStartMsg
      | Waiting coordinator \<Rightarrow> False
      | Electing ex \<Rightarrow> False
      | _ \<Rightarrow> True)"

lemma start_in_net_step:
  assumes "session_step R st st'" and "start_in_net L st" and "te_hostID (rs_env R L) = L"
  shows "start_in_net L st'"
  using assms(1)
proof (cases rule: session_step.cases)
  case (event i net e nodes s1)
  show ?thesis
  proof (cases "i = L")
    case i: True
    from assms(2) event(1) consider (idle) "co_phase (nodes L) = Idle" | (init) ready ex where "co_phase (nodes L) = Initiating ready ex"
      | (run) leads params where "co_phase (nodes L) = Running leads params"
      by (auto simp: start_in_net_def split: phase.splits)
    then show ?thesis
    proof cases
      case idle
      with Idle_event [OF event(5)] i event(2) show ?thesis by (simp add: start_in_net_def)
    next
      case init
      from event(5) init [folded i] show ?thesis
        by (cases rule: Initiating_event) (use i event(2) assms(3) in \<open>auto simp: start_in_net_def\<close>)
    next
      case run
      with Running_quiet [OF event(5)] i event(1,2) assms(2) show ?thesis by auto
    qed
  next
    case False
    with assms(2) event(1,2) show ?thesis by (auto simp: start_in_net_def split: phase.splits)
  qed
next
  case (leave i nodes net)
  with assms(2) show ?thesis by (auto simp: start_in_net_def split: phase.splits)
next
  case (inject m nodes net)
  with assms(2) show ?thesis by (auto simp: start_in_net_def split: phase.splits)
qed

lemma start_in_net_reachable:
  assumes "session_ok R sid k pr cands" and "static_Coordinator k pr sid cands = L" and "L \<in> rs_honest R"
    and "(session_step R)\<^sup>*\<^sup>* (session_start R s0) st"
  shows "start_in_net L st"
  using assms(4)
proof (induction rule: rtranclp_induct)
  case base
  have "te_hostID (rs_env R L) = L" "elected R L = L"
    using assms(1-3) elected_same [OF assms(1,3)] unfolding session_ok_def by auto
  then show ?case by (simp add: start_in_net_def session_start_def start_def initiate_def split_beta Let_def)
next
  case (step st st')
  have "te_hostID (rs_env R L) = L" using assms(1,3) unfolding session_ok_def by auto
  with start_in_net_step [OF step(2,3)] show ?case .
qed

lemma followers_join:
  assumes "matches R L dec (nodes, net)" and "co_phase (nodes L) = Running True params"
    and "m \<in> net" and "wm_From m = L" and "wm_MessageType m = TssStartMsg"
    and "finite H" and "H \<subseteq> {i \<in> rs_honest R. co_phase (nodes i) = Waiting L}"
  shows "\<exists>nodes'. (session_step R)\<^sup>*\<^sup>* (nodes, net) (nodes', net) \<and> (\<forall>i\<in>H. co_phase (nodes' i) = Running False params) \<and>
    (\<forall>i. i \<notin> H \<longrightarrow> nodes' i = nodes i)"
  using assms(6,7)
proof (induction H)
  case empty
  then show ?case by auto
next
  case (insert i H)
  then obtain n1 where n1: "(session_step R)\<^sup>*\<^sup>* (nodes, net) (n1, net)" "\<forall>i\<in>H. co_phase (n1 i) = Running False params"
    "\<forall>i. i \<notin> H \<longrightarrow> n1 i = nodes i" by auto
  have i: "i \<in> rs_honest R" "co_phase (n1 i) = Waiting L" using insert.prems insert.hyps n1(3) by auto
  have "de_params dec = Some params"
    using matches_runs [OF assms(1), of L] assms(1,2) by (auto simp: matches_def led_session_def)
  then have "UnmarshalStartMessage (te_parse (rs_env R i)) (wm_Payload m) = Inr \<lparr>Params = params\<rparr>"
    using assms(1,3,4,5) i(1) by (force simp: matches_def start_carries_def)
  with follow_step [of i R n1 m net params] i assms(3,4,5)
  have "session_step R (n1, net) (n1(i := (n1 i)\<lparr>co_phase := Running False params\<rparr>), net)" by simp
  with n1(1) have "(session_step R)\<^sup>*\<^sup>* (nodes, net) (n1(i := (n1 i)\<lparr>co_phase := Running False params\<rparr>), net)"
    by (rule rtranclp.rtrancl_into_rtrancl)
  with n1(2,3) show ?case
    by (intro exI [of _ "n1(i := (n1 i)\<lparr>co_phase := Running False params\<rparr>)"]) (simp add: fun_upd_def)
qed

lemma session_catches_up:
  assumes "session_ok R sid k pr cands" and "static_Coordinator k pr sid cands = L" and "L \<in> rs_honest R" and "finite (rs_honest R)"
    and "(session_step R)\<^sup>*\<^sup>* (session_start R s0) st" and "co_phase (fst st L) = Running True params"
  shows "\<exists>st'. (session_step R)\<^sup>*\<^sup>* st st' \<and>
    (\<forall>i\<in>rs_honest R. co_phase (fst st' i) = (if co_phase (fst st i) = Waiting L then Running False params else co_phase (fst st i)))"
proof -
  obtain nodes net where st: "st = (nodes, net)" by (cases st)
  obtain dec where "matches R L dec (nodes, net)" using matches_reachable [OF assms(1-3,5)] unfolding st .
  moreover obtain m where "m \<in> net" "wm_From m = L" "wm_MessageType m = TssStartMsg"
    using start_in_net_reachable [OF assms(1-3,5)] assms(6) by (auto simp: start_in_net_def st)
  ultimately obtain nodes' where n: "(session_step R)\<^sup>*\<^sup>* (nodes, net) (nodes', net)"
    "\<forall>i\<in>{i \<in> rs_honest R. co_phase (nodes i) = Waiting L}. co_phase (nodes' i) = Running False params"
    "\<forall>i. i \<notin> {i \<in> rs_honest R. co_phase (nodes i) = Waiting L} \<longrightarrow> nodes' i = nodes i"
    using followers_join [of R L dec nodes net params m "{i \<in> rs_honest R. co_phase (nodes i) = Waiting L}"] assms(4,6) st by auto
  have "co_phase (nodes' i) = (if co_phase (nodes i) = Waiting L then Running False params else co_phase (nodes i))" if "i \<in> rs_honest R" for i
    using n(2,3) that by simp
  with n(1) st show ?thesis by (intro exI [of _ "(nodes', net)"]) simp
qed

subsection \<open>The handshake of a signing\<close>

lemma tick_step:
  assumes "i \<in> rs_honest R" and "co_phase (nodes i) = Initiating ready ex"
  shows "\<exists>s. co_phase s = Initiating ready ex \<and>
    session_step R (nodes, net) (nodes(i := s), insert (session_message (rs_env R i) (rs_process R i) TssInitiateMsg []) net)"
proof -
  let ?E = "rs_env R i" and ?p = "rs_process R i"
  obtain s where ev: "session_event ?E (rs_sub R i) ?p InitiateTick (nodes i) = (s, Continue)" "co_phase s = Initiating ready ex"
    using assms(2) by (simp add: session_event_def)
  moreover have "sent ?E ?p InitiateTick (nodes i) s = {session_message ?E ?p TssInitiateMsg []}"
    using assms(2) ev(2) by (simp add: sent_def begin_sent_def)
  ultimately show ?thesis
    using session_step.event [of i R net InitiateTick nodes s] assms(1) by (auto simp: deliverable_def)
qed

text \<open>A tick of the leader and the answer of a waiting relayer bring that relayer's ready message to the leader.\<close>

lemma handshake:
  assumes "L \<in> rs_honest R" and "q \<in> rs_honest R" and "\<And>i. i \<in> rs_honest R \<Longrightarrow> te_hostID (rs_env R i) = i"
    and "co_phase (nodes L) = Initiating ready ex" and "co_phase (nodes q) = Waiting L"
  shows "\<exists>nodes' net' w. (session_step R)\<^sup>*\<^sup>* (nodes, net) (nodes', net') \<and> (\<forall>i. co_phase (nodes' i) = co_phase (nodes i)) \<and>
    w \<in> net' \<and> wm_MessageType w = TssReadyMsg \<and> wm_From w = q"
proof -
  let ?init = "session_message (rs_env R L) (rs_process R L) TssInitiateMsg []"
  let ?ready = "session_message (rs_env R q) (rs_process R q) TssReadyMsg []"
  have "q \<noteq> L" using assms(4,5) by auto
  obtain s where s: "co_phase s = Initiating ready ex" "session_step R (nodes, net) (nodes(L := s), insert ?init net)"
    using tick_step [of L R nodes ready ex net] assms(1,4) by auto
  obtain s' where s': "co_phase s' = Waiting L"
    "session_step R (nodes(L := s), insert ?init net) (nodes(L := s, q := s'), insert ?ready (insert ?init net))"
    using answer_step [of q R "nodes(L := s)" ?init "insert ?init net"] assms(1,2,3,5) \<open>q \<noteq> L\<close> by auto
  note run2 [of "session_step R", OF s(2) s'(2)]
  moreover have "co_phase ((nodes(L := s, q := s')) i) = co_phase (nodes i)" for i using s(1) s'(1) assms(4,5) by simp
  ultimately show ?thesis using assms(2,3) by (intro exI [of _ "nodes(L := s, q := s')"] exI [of _ "insert ?ready (insert ?init net)"] exI [of _ ?ready]) simp
qed

text \<open>The leader of a signing has not yet seen as many signers as it needs while it collects them.\<close>

definition collecting :: "peer_id \<Rightarrow> 'k signing \<Rightarrow> phase \<Rightarrow> bool" where
  "collecting L sg ph \<longleftrightarrow>
     (case ph of
        Initiating ready ex \<Rightarrow> ex = [] \<and> distinct ready \<and> L \<in> set ready \<and>
          int (length (readyParticipants (ek_Peers (sg_key sg)) ready)) \<le> ek_Threshold (sg_key sg)
      | Electing ex \<Rightarrow> False
      | _ \<Rightarrow> True)"

lemma ready_count:
  assumes "collecting L sg (Initiating ready [])"
  shows "tp_Ready (signing_process E sg) (add_ready [] q ready) [] = Inr True \<or>
    tp_Ready (signing_process E sg) (add_ready [] q ready) [] = Inr False \<and> collecting L sg (Initiating (add_ready [] q ready) [])"
  using assms by (auto simp: collecting_def signing_process_def Signing_Ready_def Let_def readyParticipants_filter add_ready_def)

lemma collecting_event:
  assumes "session_event E sub (signing_process E' sg) e s = (s1, Continue)" and "collecting L sg (co_phase s)"
  shows "collecting L sg (co_phase s1)"
proof (cases "\<exists>ready ex. co_phase s = Initiating ready ex")
  case True
  then obtain ready where s: "co_phase s = Initiating ready []" "distinct ready"
    using assms(2) by (auto simp: collecting_def)
  show ?thesis
  proof (cases "\<exists>w. e = ReadyMsg w")
    case True
    then obtain w where "e = ReadyMsg w" by blast
    with assms(1) s(1) ready_count [of L sg ready E' "wm_From w"] assms(2) show ?thesis
      by (auto simp: session_event_def initiate_ready_def Let_def collecting_def split: sum.splits bool.splits)
  next
    case False
    with assms s show ?thesis by (auto simp: session_event_def split: coord_event.splits)
  qed
next
  case False
  with assms show ?thesis
    by (auto simp: collecting_def session_event_def wait_initiate_def wait_start_def
        split: phase.splits coord_event.splits sum.splits if_splits)
qed

lemma collecting_reachable:
  assumes "session_ok R sid k pr cands" and "static_Coordinator k pr sid cands = L" and "L \<in> rs_honest R"
    and "rs_process R L = signing_process E sg" and "1 \<le> ek_Threshold (sg_key sg)"
    and "(session_step R)\<^sup>*\<^sup>* (session_start R s0) st"
  shows "collecting L sg (co_phase (fst st L))"
  using assms(6)
proof (induction rule: rtranclp_induct)
  case base
  have "te_hostID (rs_env R L) = L" "elected R L = L"
    using assms(1-3) elected_same [OF assms(1,3)] unfolding session_ok_def by auto
  then show ?case
    using assms(5) by (simp add: collecting_def session_start_def start_def initiate_def split_beta Let_def)
next
  case (step st st')
  from step(2) show ?case
  proof (cases rule: session_step.cases)
    case (event i net e nodes s1)
    with step(3) assms(4) collecting_event [of "rs_env R L" "rs_sub R L" E sg e "nodes L" s1] show ?thesis by auto
  qed (use step(3) in \<open>auto simp: collecting_def\<close>)
qed

text \<open>Enough waiting signers bring the leader to start, one handshake after the other.\<close>

lemma signing_collects:
  assumes "rs_process R L = signing_process E sg" and "L \<in> rs_honest R" and "\<And>i. i \<in> rs_honest R \<Longrightarrow> te_hostID (rs_env R i) = i"
  shows "co_phase (nodes L) = Initiating ready [] \<Longrightarrow> collecting L sg (co_phase (nodes L)) \<Longrightarrow>
    set qs \<subseteq> {i \<in> rs_honest R. co_phase (nodes i) = Waiting L} \<Longrightarrow>
    ek_Threshold (sg_key sg) < int (card ((set ready \<union> set qs) \<inter> set (ek_Peers (sg_key sg)))) \<Longrightarrow>
    \<exists>nodes' net' params. (session_step R)\<^sup>*\<^sup>* (nodes, net) (nodes', net') \<and> co_phase (nodes' L) = Running True params \<and>
      (\<forall>i. i \<noteq> L \<longrightarrow> co_phase (nodes' i) = co_phase (nodes i))"
proof (induction qs arbitrary: nodes net ready)
  case Nil
  then have "distinct ready" by (simp add: collecting_def)
  moreover have "set ready \<inter> set (ek_Peers (sg_key sg)) = set (readyParticipants (ek_Peers (sg_key sg)) ready)"
    by (auto simp: readyParticipants_filter)
  ultimately have "card (set ready \<inter> set (ek_Peers (sg_key sg))) = length (readyParticipants (ek_Peers (sg_key sg)) ready)"
    by (simp only: distinct_card readyParticipants_filter distinct_filter)
  with Nil.prems(1,2,4) show ?case by (simp add: collecting_def)
next
  case (Cons q qs)
  have q: "q \<in> rs_honest R" "co_phase (nodes q) = Waiting L" using Cons.prems(3) by auto
  obtain n1 net1 w where 1: "(session_step R)\<^sup>*\<^sup>* (nodes, net) (n1, net1)" "\<And>i. co_phase (n1 i) = co_phase (nodes i)"
    "w \<in> net1" "wm_MessageType w = TssReadyMsg" "wm_From w = q"
    using handshake [OF assms(2) q(1) assms(3) Cons.prems(1) q(2), of net] by auto
  let ?ready = "add_ready [] q ready"
  have L1: "co_phase (n1 L) = Initiating ready []" using 1(2) Cons.prems(1) by simp
  have "collecting L sg (Initiating ready [])" using Cons.prems(1,2) by simp
  from ready_count [OF this, of E q] show ?case
  proof
    assume "tp_Ready (signing_process E sg) ?ready [] = Inr True"
    then obtain s payload where s: "co_phase s = Running True (tp_StartParams (rs_process R L) ?ready)"
      "session_step R (n1, net1) (n1(L := s), insert (session_message (rs_env R L) (rs_process R L) TssStartMsg payload) net1)"
      using start_step [of L R n1 ready "[]" w net1, OF assms(2) L1 1(3,4) _ refl] assms(1) 1(5) by auto
    from 1(1) s(2) have "(session_step R)\<^sup>*\<^sup>* (nodes, net)
        (n1(L := s), insert (session_message (rs_env R L) (rs_process R L) TssStartMsg payload) net1)"
      by (rule rtranclp.rtrancl_into_rtrancl)
    with s(1) 1(2) show ?thesis
      by (intro exI [of _ "n1(L := s)"] exI) (auto simp: fun_upd_def)
  next
    assume r: "tp_Ready (signing_process E sg) ?ready [] = Inr False \<and> collecting L sg (Initiating ?ready [])"
    let ?n2 = "n1(L := (n1 L)\<lparr>co_phase := Initiating ?ready []\<rparr>)"
    have "session_step R (n1, net1) (?n2, net1)"
      using ready_step [of L R n1 ready "[]" w net1] assms(1,2) L1 1(3-5) r by simp
    with 1(1) have run: "(session_step R)\<^sup>*\<^sup>* (nodes, net) (?n2, net1)" by (rule rtranclp.rtrancl_into_rtrancl)
    have "set qs \<subseteq> {i \<in> rs_honest R. co_phase (?n2 i) = Waiting L}" using Cons.prems(1,3) 1(2) by auto
    moreover have "set ?ready \<union> set qs = set ready \<union> set (q # qs)" by (auto simp: add_ready_def)
    ultimately have "\<exists>nodes' net' params. (session_step R)\<^sup>*\<^sup>* (?n2, net1) (nodes', net') \<and> co_phase (nodes' L) = Running True params \<and>
        (\<forall>i. i \<noteq> L \<longrightarrow> co_phase (nodes' i) = co_phase (?n2 i))"
      by (intro Cons.IH [of ?n2 ?ready]) (use Cons.prems(4) r in simp_all)
    then obtain n3 net3 params where "(session_step R)\<^sup>*\<^sup>* (?n2, net1) (n3, net3)" "co_phase (n3 L) = Running True params"
      "\<forall>i. i \<noteq> L \<longrightarrow> co_phase (n3 i) = co_phase (?n2 i)" by blast
    with run 1(2) show ?thesis by (intro exI [of _ n3] exI [of _ net3] exI [of _ params]) (auto intro: rtranclp_trans)
  qed
qed

subsection \<open>Properties\<close>


text \<open>C5 (signing_completes): a signing session never gets stuck.  In every reachable state in which the leader has not
  started and not left, if it and the committee members that wait for it are more than the threshold, the session can
  go on by handshakes until the leader runs and every relayer that waited runs with the same parameters.\<close>

theorem signing_completes:
  assumes "session_ok R sid k pr cands" and "static_Coordinator k pr sid cands = L" and "L \<in> rs_honest R" and "finite (rs_honest R)"
    and "rs_process R L = signing_process E sg" and "1 \<le> ek_Threshold (sg_key sg)"
    and "(session_step R)\<^sup>*\<^sup>* (session_start R s0) st" and "co_phase (fst st L) = Initiating ready ex"
    and "ek_Threshold (sg_key sg) <
      int (card (insert L {i \<in> rs_honest R. co_phase (fst st i) = Waiting L} \<inter> set (ek_Peers (sg_key sg))))"
  shows "\<exists>st' params. (session_step R)\<^sup>*\<^sup>* st st' \<and> co_phase (fst st' L) = Running True params \<and>
    (\<forall>i\<in>rs_honest R. co_phase (fst st i) = Waiting L \<longrightarrow> co_phase (fst st' i) = Running False params)"
proof -
  obtain nodes net where st: "st = (nodes, net)" by (cases st)
  let ?W = "{i \<in> rs_honest R. co_phase (nodes i) = Waiting L}" and ?C = "set (ek_Peers (sg_key sg))"
  have col: "collecting L sg (co_phase (nodes L))" using collecting_reachable [OF assms(1-3,5-7)] st by simp
  then have ex: "ex = []" "L \<in> set ready" using assms(8) st by (simp_all add: collecting_def)
  obtain qs where qs: "set qs = ?W" using finite_list [of ?W] assms(4) by auto
  have "card (insert L ?W \<inter> ?C) \<le> card ((set ready \<union> set qs) \<inter> ?C)"
    using ex qs by (intro card_mono) auto
  with assms(9) st have "ek_Threshold (sg_key sg) < int (card ((set ready \<union> set qs) \<inter> ?C))" by simp
  with signing_collects [OF assms(5,3), of nodes ready qs net] col assms(1,8) ex qs st
  obtain n1 net1 params where 1: "(session_step R)\<^sup>*\<^sup>* (nodes, net) (n1, net1)" "co_phase (n1 L) = Running True params"
    "\<forall>i. i \<noteq> L \<longrightarrow> co_phase (n1 i) = co_phase (nodes i)" by (auto simp: session_ok_def)
  from assms(7) 1(1) have "(session_step R)\<^sup>*\<^sup>* (session_start R s0) (n1, net1)" unfolding st by (rule rtranclp_trans)
  from session_catches_up [OF assms(1-4) this] 1(2) obtain st' where 2: "(session_step R)\<^sup>*\<^sup>* (n1, net1) st'"
    "\<forall>i\<in>rs_honest R. co_phase (fst st' i) = (if co_phase (n1 i) = Waiting L then Running False params else co_phase (n1 i))" by auto
  have "co_phase (fst st' i) = Running False params" if "i \<in> rs_honest R" "co_phase (nodes i) = Waiting L" for i
    using 1(2,3) 2(2) that assms(8) st by (cases "i = L") auto
  moreover have "co_phase (fst st' L) = Running True params" using 2(2) 1(2) assms(3) by simp
  moreover have "(session_step R)\<^sup>*\<^sup>* st st'" using 1(1) 2(1) unfolding st by (rule rtranclp_trans)
  ultimately show ?thesis using st by (intro exI [of _ st'] exI [of _ params]) simp
qed

subsection \<open>Instances\<close>

text \<open>Three relayers that sign with threshold 1, so that two of them suffice.\<close>

definition signing_relayers :: "nat relayers" where
  "signing_relayers = \<lparr>rs_env = (\<lambda>i. sample_env\<lparr>te_hostID := i\<rparr>), rs_sub = (\<lambda>i. sample_sub),
     rs_process = (\<lambda>i. signing_process (sample_env\<lparr>te_hostID := i\<rparr>) sample_signing),
     rs_honest = {''aaaaaaa1'', ''aaaaaaa2'', ''aaaaaaa3''}\<rparr>"

lemma signing_relayers_simps [simp]:
  "rs_env signing_relayers i = sample_env\<lparr>te_hostID := i\<rparr>"
  "rs_process signing_relayers i = signing_process (sample_env\<lparr>te_hostID := i\<rparr>) sample_signing"
  "rs_honest signing_relayers = {''aaaaaaa1'', ''aaaaaaa2'', ''aaaaaaa3''}"
  by (simp_all add: signing_relayers_def)

lemma signing_leader:
  "static_Coordinator (\<lambda>b. b) (\<lambda>p. p) ''s'' [''aaaaaaa1'', ''aaaaaaa2'', ''aaaaaaa3''] = ''aaaaaaa3''"
  using static_member [of "[''aaaaaaa1'', ''aaaaaaa2'', ''aaaaaaa3'']" "\<lambda>b. b" "\<lambda>p. p" "''s''"] session_key_example
  by (auto dest: leD)

lemma signing_session_ok: "session_ok signing_relayers ''s'' (\<lambda>b. b) (\<lambda>p. p) [''aaaaaaa1'', ''aaaaaaa2'', ''aaaaaaa3'']"
proof -
  have "inj_on (session_key (\<lambda>b. b) (\<lambda>p. p) ''s'') (set [''aaaaaaa1'', ''aaaaaaa2'', ''aaaaaaa3''])"
    using session_key_example by (auto simp: inj_on_def)
  then show ?thesis
    using json_text_ok_unary by (auto simp: session_ok_def signing_process_def Signing_ValidCoordinators_def)
qed

lemma signing_started:
  "co_phase (fst (session_start signing_relayers s0) ''aaaaaaa3'') = Initiating [''aaaaaaa3''] []"
  "co_phase (fst (session_start signing_relayers s0) ''aaaaaaa2'') = Waiting ''aaaaaaa3''"
  "co_phase (fst (session_start signing_relayers s0) ''aaaaaaa1'') = Waiting ''aaaaaaa3''"
proof -
  have "elected signing_relayers i = ''aaaaaaa3''" for i
    by (simp add: elected_def signing_process_def Signing_ValidCoordinators_def signing_leader)
  then show "co_phase (fst (session_start signing_relayers s0) ''aaaaaaa3'') = Initiating [''aaaaaaa3''] []"
    "co_phase (fst (session_start signing_relayers s0) ''aaaaaaa2'') = Waiting ''aaaaaaa3''"
    "co_phase (fst (session_start signing_relayers s0) ''aaaaaaa1'') = Waiting ''aaaaaaa3''"
    by (simp_all add: session_start_def Let_def start_def initiate_def waitForStart_def split_beta)
qed


theorem signing_completes_witness:
  "\<exists>st params. (session_step signing_relayers)\<^sup>*\<^sup>* (session_start signing_relayers fresh_nodes) st \<and>
     co_phase (fst st ''aaaaaaa3'') = Running True params \<and> co_phase (fst st ''aaaaaaa1'') = Running False params \<and>
     co_phase (fst st ''aaaaaaa2'') = Running False params"
proof -
  let ?st = "session_start signing_relayers fresh_nodes" and ?L = "''aaaaaaa3''"
  let ?W = "insert ?L {i \<in> rs_honest signing_relayers. co_phase (fst ?st i) = Waiting ?L} \<inter> set (ek_Peers (sg_key sample_signing))"
  have "card {?L, ''aaaaaaa2''} \<le> card ?W" by (rule card_mono) (simp_all add: signing_started)
  then have enough: "ek_Threshold (sg_key sample_signing) < int (card ?W)" by simp
  have h: "?L \<in> rs_honest signing_relayers" "finite (rs_honest signing_relayers)" "1 \<le> ek_Threshold (sg_key sample_signing)"
    "(session_step signing_relayers)\<^sup>*\<^sup>* ?st ?st" by simp_all
  from signing_completes [OF signing_session_ok signing_leader h(1,2) signing_relayers_simps(2) h(3,4) signing_started(1) enough]
  show ?thesis using signing_started(2,3) by auto
qed

end
