(* ===== verification/Retry.thy ===== *)
theory Retry
  imports Progress
begin

text \<open>
  Sessions beyond the first attempt.  A relayer whose attempt ends with an error that \<open>handleError\<close> retries
  begins a second one (\<open>retry_begin\<close>): it elects a coordinator anew or, left out of the subset, waits for a
  start message of anyone.  A session may also be executed again under its name, as every keygen and every
  request for the same hash is.  The start messages of all these attempts share one network.
\<close>

inductive attempt_step :: "'c relayers \<Rightarrow> 'c session_system \<Rightarrow> 'c session_system \<Rightarrow> bool" for R where
  move: "session_step R st st' \<Longrightarrow> attempt_step R st st'"
| again: "i \<in> rs_honest R \<Longrightarrow> co_phase (nodes i) = Idle \<Longrightarrow> plan_retry (rs_env R i) err = plan \<Longrightarrow> (\<And>e. plan \<noteq> GiveUp e) \<Longrightarrow>
     attempt_step R (nodes, net) (nodes(i := retry_begin (rs_sub R i) (rs_process R i) plan
       (release_deferred (co_deferred (nodes i)) (co_comm (nodes i)))), net)"
| anew: "i \<in> rs_honest R \<Longrightarrow> co_phase (nodes i) = Idle \<Longrightarrow>
     s = start (rs_env R i) (rs_sub R i) (rs_process R i) (elected R i) [] \<lparr>co_comm = c, co_phase = Idle, co_deferred = []\<rparr> \<Longrightarrow>
     attempt_step R (nodes, net) (nodes(i := s), net \<union> begin_sent (rs_env R i) (rs_process R i) s)"
text \<open>Every way the phase of a relayer changes with an event.\<close>

lemma session_event_transition:
  assumes "session_event E sub p e s = (s1, r)"
  obtains (same) "co_phase s1 = co_phase s"
  | (collects) ready ex w where "co_phase s = Initiating ready ex" "co_phase s1 = Initiating (add_ready ex w ready) ex"
  | (leads) ready ex w where "co_phase s = Initiating ready ex" "tp_Ready p (add_ready ex w ready) ex = Inr True"
      "co_phase s1 = Running True (tp_StartParams p (add_ready ex w ready))"
  | (elects) ex coord where "co_phase s = Electing ex" "co_phase s1 = Initiating [te_hostID E] ex \<or> co_phase s1 = Waiting coord"
  | (follows) m coord params where "e = StartMsg m" "co_phase s = Waiting coord" "coord = '''' \<or> wm_From m = coord"
      "UnmarshalStartMessage (te_parse E) (wm_Payload m) = Inr \<lparr>Params = params\<rparr>" "co_phase s1 = Running False params"
proof (cases "co_phase s")
  case (Electing ex)
  show thesis
  proof (cases "\<exists>answer. e = Elected answer")
    case True
    then obtain answer where "e = Elected answer" by blast
    with assms Electing have "retry_elected E sub p ex answer s = (s1, r)" by (simp add: session_event_def)
    with Electing same elects show thesis
      by (auto simp: retry_elected_def start_def initiate_def waitForStart_def split_beta Let_def split: sum.splits if_splits)
  next
    case False
    with assms Electing have "s1 = s" by (auto simp: session_event_def split: coord_event.splits)
    with same show thesis by simp
  qed
next
  case (Initiating ready ex)
  show thesis
  proof (cases "\<exists>w. e = ReadyMsg w")
    case True
    then obtain w where "e = ReadyMsg w" by blast
    with assms Initiating have "initiate_ready E p ready ex w s = (s1, r)" by (simp add: session_event_def)
    with Initiating collects leads show thesis
      by (auto simp: initiate_ready_def Let_def split: sum.splits bool.splits)
  next
    case False
    with assms Initiating have "co_phase s1 = co_phase s" by (auto simp: session_event_def split: coord_event.splits)
    with same show thesis .
  qed
next
  case (Waiting coord)
  from Waiting_event [OF assms Waiting] same follows [OF _ Waiting] Waiting show thesis by auto
qed (use assms same in \<open>auto simp: session_event_def split: coord_event.splits\<close>)

subsection \<open>What is behind the parameters\<close>

text \<open>Parameters that an honest relayer computed when its process declared enough peers ready.\<close>

definition legit :: "'c relayers \<Rightarrow> bytes \<Rightarrow> bool" where
  "legit R params \<longleftrightarrow> (\<exists>q\<in>rs_honest R. \<exists>ready ex. distinct ready \<and>
     tp_Ready (rs_process R q) ready ex = Inr True \<and> params = tp_StartParams (rs_process R q) ready)"

definition reads :: "'c relayers \<Rightarrow> peer_id \<Rightarrow> wrapped_message \<Rightarrow> bytes \<Rightarrow> bool" where
  "reads R i m params \<longleftrightarrow> UnmarshalStartMessage (te_parse (rs_env R i)) (wm_Payload m) = Inr \<lparr>Params = params\<rparr>"

definition justified_phase :: "'c relayers \<Rightarrow> wrapped_message set \<Rightarrow> peer_id \<Rightarrow> phase \<Rightarrow> bool" where
  "justified_phase R net i ph =
     (case ph of
        Initiating ready ex \<Rightarrow> distinct ready
      | Running leads params \<Rightarrow> legit R params \<or> \<not> leads \<and> (\<exists>m\<in>net. wm_From m \<notin> rs_honest R \<and> reads R i m params)
      | _ \<Rightarrow> True)"

definition justified :: "'c relayers \<Rightarrow> 'c session_system \<Rightarrow> bool" where
  "justified R st \<longleftrightarrow> (\<forall>i\<in>rs_honest R. justified_phase R (snd st) i (co_phase (fst st i))) \<and>
     (\<forall>m\<in>snd st. wm_From m \<in> rs_honest R \<and> wm_MessageType m = TssStartMsg \<longrightarrow> (\<exists>params. legit R params \<and> (\<forall>i\<in>rs_honest R. reads R i m params)))"

lemma justified_phase_mono: "justified_phase R net i ph \<Longrightarrow> net \<subseteq> net' \<Longrightarrow> justified_phase R net' i ph"
  by (auto simp: justified_phase_def split: phase.splits)

lemma add_ready_distinct: "distinct ready \<Longrightarrow> distinct (add_ready ex w ready)"
  by (simp add: add_ready_def)

lemma legitI:
  "q \<in> rs_honest R \<Longrightarrow> distinct ready \<Longrightarrow> tp_Ready (rs_process R q) ready ex = Inr True \<Longrightarrow>
     legit R (tp_StartParams (rs_process R q) ready)"
  unfolding legit_def by blast

lemma justified_update:
  assumes "justified R (nodes, net)" and "justified_phase R net i (co_phase s)"
    and "\<And>m. m \<in> ms \<Longrightarrow> wm_MessageType m = TssStartMsg \<Longrightarrow> \<exists>params. legit R params \<and> (\<forall>i\<in>rs_honest R. reads R i m params)"
  shows "justified R (nodes(i := s), net \<union> ms)"
  using assms by (fastforce simp: justified_def intro: justified_phase_mono)
lemma begins_justified:
  "justified_phase R net i (co_phase (start E sub p coord ex s))"
  "(\<And>e. plan \<noteq> GiveUp e) \<Longrightarrow> justified_phase R net i (co_phase (retry_begin sub p plan c))"
  by (auto simp: justified_phase_def start_def initiate_def waitForStart_def retry_begin_def watch_begin_def split_beta Let_def
      split: retry_plan.splits)

lemma justified_event:
  assumes inv: "justified R (nodes, net)" and i: "i \<in> rs_honest R" and del: "deliverable net e"
    and ev: "session_event (rs_env R i) (rs_sub R i) (rs_process R i) e (nodes i) = (s1, r)"
  shows "justified_phase R net i (co_phase s1)"
  using ev
proof (cases rule: session_event_transition)
  case same
  with inv i show ?thesis by (simp add: justified_def)
next
  case (collects ready ex w)
  with inv i show ?thesis by (force simp: justified_def justified_phase_def intro: add_ready_distinct)
next
  case (leads ready ex w)
  from inv i leads(1) have "distinct ready" by (force simp: justified_def justified_phase_def)
  with leads legitI [OF i add_ready_distinct] show ?thesis by (simp add: justified_phase_def)
next
  case (elects ex coord)
  then show ?thesis by (auto simp: justified_phase_def)
next
  case (follows m coord params)
  have m: "m \<in> net" "wm_MessageType m = TssStartMsg" "reads R i m params" using del follows by (simp_all add: deliverable_def reads_def)
  show ?thesis
  proof (cases "wm_From m \<in> rs_honest R")
    case True
    with inv m(1,2) obtain params' where "legit R params'" "reads R i m params'" using i by (auto simp: justified_def)
    with m(3) have "legit R params" by (simp add: reads_def)
    with follows(5) show ?thesis by (simp add: justified_phase_def)
  next
    case False
    with m follows(5) show ?thesis by (auto simp: justified_phase_def)
  qed
qed

lemma sent_justified:
  assumes i: "i \<in> rs_honest R"
    and json: "\<And>j. j \<in> rs_honest R \<Longrightarrow> json_text_ok (te_print (rs_env R i)) (te_parse (rs_env R j))"
    and ev: "session_event (rs_env R i) (rs_sub R i) (rs_process R i) e s = (s1, r)"
    and ph: "justified_phase R net i (co_phase s1)"
    and m: "m \<in> sent (rs_env R i) (rs_process R i) e s s1" "wm_MessageType m = TssStartMsg"
  shows "\<exists>params. legit R params \<and> (\<forall>j\<in>rs_honest R. reads R j m params)"
proof -
  obtain ready ex where "co_phase s = Initiating ready ex"
    using m no_start_sent [of s m "rs_env R i" "rs_process R i" e s1] by blast
  with ev obtain params payload where
    run: "co_phase s1 = Running True params" "MarshalStartMessage (te_print (rs_env R i)) params = Inr payload" "wm_Payload m = payload"
    by (cases rule: Initiating_event) (use m in auto)
  have "reads R j m params" if "j \<in> rs_honest R" for j
    unfolding reads_def run(3) by (rule start_roundtrip [OF json [OF that] run(2)])
  moreover have "legit R params" using ph run(1) by (simp add: justified_phase_def)
  ultimately show ?thesis by blast
qed

lemma justified_step:
  assumes "attempt_step R st st'" and "justified R st"
    and json: "\<And>i j. i \<in> rs_honest R \<Longrightarrow> j \<in> rs_honest R \<Longrightarrow> json_text_ok (te_print (rs_env R i)) (te_parse (rs_env R j))"
  shows "justified R st'"
  using assms(1)
proof (cases rule: attempt_step.cases)
  case move
  then show ?thesis
  proof (cases rule: session_step.cases)
    case (event i net e nodes s1)
    have inv: "justified R (nodes, net)" using assms(2) event(1) by simp
    note ph = justified_event [OF inv event(3-5)]
    show ?thesis unfolding event(2)
      by (rule justified_update [OF inv ph]) (rule sent_justified [OF event(3) json [OF event(3)] event(5) ph])
  next
    case (leave i nodes net)
    with assms(2) justified_update [of R nodes net i "(nodes i)\<lparr>co_phase := Idle\<rparr>" "{}"] show ?thesis
      by (simp add: justified_phase_def)
  next
    case (inject m nodes net)
    with assms(2) show ?thesis by (fastforce simp: justified_def intro: justified_phase_mono)
  qed
next
  case (again i nodes err plan net)
  have inv: "justified R (nodes, net)" using assms(2) again(1) by simp
  have "justified_phase R net i (co_phase (retry_begin (rs_sub R i) (rs_process R i) plan
      (release_deferred (co_deferred (nodes i)) (co_comm (nodes i)))))" by (rule begins_justified(2)) (use again in simp)
  from justified_update [OF inv this, of "{}"] show ?thesis unfolding again(2) by simp
next
  case (anew i nodes s c net)
  have inv: "justified R (nodes, net)" using assms(2) anew(1) by simp
  have "justified_phase R net i (co_phase s)" unfolding anew(5) by (rule begins_justified(1))
  then show ?thesis unfolding anew(2) by (rule justified_update [OF inv]) (auto dest: begin_sent_type)
qed

lemma justified_reachable:
  assumes "(attempt_step R)\<^sup>*\<^sup>* (session_start R s0) st"
    and "\<And>i j. i \<in> rs_honest R \<Longrightarrow> j \<in> rs_honest R \<Longrightarrow> json_text_ok (te_print (rs_env R i)) (te_parse (rs_env R j))"
  shows "justified R st"
  using assms(1)
proof (induction rule: rtranclp_induct)
  case base
  have "wm_MessageType m \<noteq> TssStartMsg" if "m \<in> snd (session_start R s0)" for m
    using that by (auto simp: session_start_def Let_def dest: begin_sent_type)
  then show ?case by (auto simp: justified_def session_start_def Let_def begins_justified(1))
next
  case (step st st')
  from justified_step [OF step(2,3) assms(2)] show ?case .
qed
subsection \<open>Moves\<close>

lemma attempt_run: "(session_step R)\<^sup>*\<^sup>* st st' \<Longrightarrow> (attempt_step R)\<^sup>*\<^sup>* st st'"
  by (induction rule: rtranclp_induct) (auto intro: attempt_step.move rtranclp.rtrancl_into_rtrancl)

text \<open>A relayer that left after a communication error elects itself and begins again.\<close>

lemma retry_move:
  assumes "i \<in> rs_honest R" and "te_hostID (rs_env R i) = i" and "co_phase (nodes i) = Idle"
  shows "\<exists>s net'. co_phase s = Initiating [i] [] \<and> net \<subseteq> net' \<and> (attempt_step R)\<^sup>*\<^sup>* (nodes, net) (nodes(i := s), net')"
proof -
  let ?E = "rs_env R i" and ?p = "rs_process R i" and ?sub = "rs_sub R i"
  let ?s = "retry_begin ?sub ?p (plan_retry ?E (CommunicationError '''' (Errorf '''')))
      (release_deferred (co_deferred (nodes i)) (co_comm (nodes i)))"
  have plan: "plan_retry ?E (CommunicationError '''' (Errorf '''')) = Retry []" by (simp add: plan_retry_def)
  then have s: "co_phase ?s = Electing []" by (simp add: retry_begin_def Let_def)
  have 1: "attempt_step R (nodes, net) (nodes(i := ?s), net)"
    using attempt_step.again [of i R nodes _ "plan_retry ?E (CommunicationError '''' (Errorf ''''))" net, OF assms(1,3) refl] by (simp add: plan)
  obtain s1 where ev: "session_event ?E ?sub ?p (Elected (Inr i)) ((nodes(i := ?s)) i) = (s1, Continue)" "co_phase s1 = Initiating [i] []"
    using s assms(2) by (auto simp: session_event_def retry_elected_def start_def initiate_def split_beta Let_def)
  have "deliverable net (Elected (Inr i))" by (simp add: deliverable_def)
  note 2 = attempt_step.move [OF session_step.event [of i R net _ "nodes(i := ?s)", OF assms(1) this ev(1)]]
  note run2 [of "attempt_step R", OF 1 2]
  with ev(2) show ?thesis by (intro exI [of _ s1] exI conjI) auto
qed

lemma leave_retry:
  assumes "i \<in> rs_honest R" and "te_hostID (rs_env R i) = i"
  shows "\<exists>nodes' net'. co_phase (nodes' i) = Initiating [i] [] \<and> (\<forall>j. j \<noteq> i \<longrightarrow> nodes' j = nodes j) \<and> net \<subseteq> net' \<and>
    (attempt_step R)\<^sup>*\<^sup>* (nodes, net) (nodes', net')"
proof -
  let ?n = "nodes(i := (nodes i)\<lparr>co_phase := Idle\<rparr>)"
  have 1: "attempt_step R (nodes, net) (?n, net)" by (rule attempt_step.move, rule session_step.leave, rule assms(1))
  have idle: "co_phase (?n i) = Idle" by simp
  from retry_move [of i R ?n net, OF assms idle] obtain s net' where
    2: "co_phase s = Initiating [i] []" "net \<subseteq> net'" "(attempt_step R)\<^sup>*\<^sup>* (?n, net) (?n(i := s), net')" by (elim exE conjE) (rule that)
  have "(attempt_step R)\<^sup>*\<^sup>* (nodes, net) (?n(i := s), net')" by (rule converse_rtranclp_into_rtranclp [of "attempt_step R", OF 1 2(3)])
  with 2(1,2) show ?thesis by (intro exI [of _ "?n(i := s)"] exI [of _ net']) simp
qed

subsection \<open>Properties\<close>

text \<open>The relayers of one key: the same committee and threshold, and encodings that each reads from the others.\<close>

definition committee_ok :: "'c relayers \<Rightarrow> (peer_id \<Rightarrow> 'k signing) \<Rightarrow> peer_id set \<Rightarrow> int \<Rightarrow> bool" where
  "committee_ok R sg committee t \<longleftrightarrow> 0 \<le> t \<and> (\<forall>i\<in>rs_honest R.
     rs_process R i = signing_process (rs_env R i) (sg i) \<and> set (ek_Peers (sg_key (sg i))) = committee \<and> ek_Threshold (sg_key (sg i)) = t \<and>
     (\<forall>j\<in>rs_honest R. json_text_ok (te_print (rs_env R i)) (te_parse (rs_env R j)) \<and> codec_ok (te_pretty (rs_env R i)) (te_decode (rs_env R j))))"

lemma legit_signers:
  assumes ok: "committee_ok R sg committee t" and i: "i \<in> rs_honest R" and "legit R params"
  shows "\<exists>signers. signing_unmarshallStartParams (rs_env R i) params = Inr signers \<and> distinct signers \<and>
    int (length signers) = t + 1 \<and> set signers \<subseteq> committee"
proof -
  from assms(3) obtain q ready ex where q: "q \<in> rs_honest R" "distinct ready" "tp_Ready (rs_process R q) ready ex = Inr True"
    "params = tp_StartParams (rs_process R q) ready" unfolding legit_def by blast
  let ?E = "(rs_env R q)\<lparr>te_parse := te_parse (rs_env R i), te_decode := te_decode (rs_env R i)\<rparr>"
  have p: "rs_process R q = signing_process (rs_env R q) (sg q)" "set (ek_Peers (sg_key (sg q))) = committee" "ek_Threshold (sg_key (sg q)) = t" "0 \<le> t"
    and codec: "json_text_ok (te_print ?E) (te_parse ?E)" "codec_ok (te_pretty ?E) (te_decode ?E)"
    using ok q(1) i unfolding committee_ok_def by simp_all
  have ready: "int (length (readyParticipants (ek_Peers (sg_key (sg q))) ready)) = t + 1"
    using q(3) p by (simp add: signing_process_def Signing_Ready_def Let_def)
  have "Signing_StartParams ?E (sg q) ready = params"
    using q(4) p(1) by (simp add: signing_process_def Signing_StartParams_def signing_subset_def)
  moreover have "signing_unmarshallStartParams ?E params = signing_unmarshallStartParams (rs_env R i) params"
    by (simp add: signing_unmarshallStartParams_def split: option.split)
  ultimately show ?thesis
    using signing_params_subset [OF codec q(2), of "sg q"] p ready by auto
qed

text \<open>C7 (attempts_choose_signers): through any number of attempts and executions of a signing session, and whatever dishonest
  peers send, an honest relayer runs only for threshold + 1 distinct members of the committee as signers, unless
  it follows a start message that a dishonest peer sent.\<close>

theorem attempts_choose_signers:
  assumes "committee_ok R sg committee t" and "(attempt_step R)\<^sup>*\<^sup>* (session_start R s0) st"
    and "i \<in> rs_honest R" and "co_phase (fst st i) = Running leads params"
  shows "(\<exists>signers. signing_unmarshallStartParams (rs_env R i) params = Inr signers \<and> distinct signers \<and>
      int (length signers) = t + 1 \<and> set signers \<subseteq> committee) \<or>
    \<not> leads \<and> (\<exists>m\<in>snd st. wm_From m \<notin> rs_honest R \<and>
      UnmarshalStartMessage (te_parse (rs_env R i)) (wm_Payload m) = Inr \<lparr>Params = params\<rparr>)"
proof -
  have "justified R st"
    using justified_reachable [OF assms(2)] assms(1) unfolding committee_ok_def by blast
  with assms(3,4) have "legit R params \<or> \<not> leads \<and> (\<exists>m\<in>snd st. wm_From m \<notin> rs_honest R \<and> reads R i m params)"
    by (force simp: justified_def justified_phase_def)
  with legit_signers [OF assms(1,3)] show ?thesis unfolding reads_def by blast
qed

subsection \<open>Instances\<close>

lemma signing_committee_ok:
  "committee_ok signing_relayers (\<lambda>i. sample_signing) {''aaaaaaa1'', ''aaaaaaa2'', ''aaaaaaa3''} 1"
  using json_text_ok_unary codec_ok_id by (simp add: committee_ok_def)

text \<open>Two ready signers of this key are the signers.\<close>

lemma two_signers:
  assumes "p \<noteq> q" and "{p, q} \<subseteq> {''aaaaaaa1'', ''aaaaaaa2'', ''aaaaaaa3''}" and "E = sample_env\<lparr>te_hostID := i\<rparr>"
  shows "tp_Ready (signing_process E sample_signing) [p, q] [] = Inr True"
    "\<exists>signers. signing_unmarshallStartParams (sample_env\<lparr>te_hostID := j\<rparr>) (tp_StartParams (signing_process E sample_signing) [p, q]) = Inr signers \<and>
       set signers = {p, q}"
proof -
  have r: "readyParticipants [''aaaaaaa1'', ''aaaaaaa2'', ''aaaaaaa3''] [p, q] = [p, q]"
    using assms(2) by (simp add: readyParticipants_filter)
  then show "tp_Ready (signing_process E sample_signing) [p, q] [] = Inr True"
    by (simp add: signing_process_def Signing_Ready_def Let_def)
  obtain signers where s: "signing_unmarshallStartParams E (Signing_StartParams E sample_signing [p, q]) = Inr signers"
    "int (length signers) = 2" "distinct signers" "set signers \<subseteq> {p, q}"
    using signing_params_subset [of E "[p, q]" sample_signing] assms r json_text_ok_unary codec_ok_id by auto
  have "card (set signers) = 2" using s(2,3) by (simp add: distinct_card)
  then have "set signers = {p, q}" using s(4) assms(1) by (intro card_subset_eq) auto
  moreover have "signing_unmarshallStartParams (sample_env\<lparr>te_hostID := j\<rparr>) b = signing_unmarshallStartParams E b" for b
    using assms(3) by (simp add: signing_unmarshallStartParams_def split: option.split)
  ultimately show "\<exists>signers. signing_unmarshallStartParams (sample_env\<lparr>te_hostID := j\<rparr>) (tp_StartParams (signing_process E sample_signing) [p, q]) = Inr signers \<and>
       set signers = {p, q}"
    using s(1) by (simp add: signing_process_def)
qed

text \<open>The leader starts with whichever of the two others it takes a ready message from.\<close>

lemma attempt_starts:
  assumes "co_phase (nodes ''aaaaaaa3'') = Initiating [''aaaaaaa3''] []" and "q \<in> {''aaaaaaa1'', ''aaaaaaa2''}"
    and "w \<in> net" and "wm_MessageType w = TssReadyMsg" and "wm_From w = q"
  shows "\<exists>s m params signers. co_phase s = Running True params \<and> wm_From m = ''aaaaaaa3'' \<and> wm_MessageType m = TssStartMsg \<and>
    reads signing_relayers ''aaaaaaa2'' m params \<and>
    signing_unmarshallStartParams (rs_env signing_relayers ''aaaaaaa2'') params = Inr signers \<and> set signers = {''aaaaaaa3'', q} \<and>
    session_step signing_relayers (nodes, net) (nodes(''aaaaaaa3'' := s), insert m net)"
proof -
  let ?R = signing_relayers and ?L = "''aaaaaaa3''"
  let ?p = "rs_process ?R ?L"
  have add: "add_ready [] (wm_From w) [?L] = [?L, q]" using assms(2,5) by (auto simp: add_ready_def)
  have two: "tp_Ready ?p [?L, q] [] = Inr True"
    "\<exists>signers. signing_unmarshallStartParams (rs_env ?R ''aaaaaaa2'') (tp_StartParams ?p [?L, q]) = Inr signers \<and> set signers = {?L, q}"
    using two_signers [of ?L q "sample_env\<lparr>te_hostID := ?L\<rparr>" ?L] assms(2) by auto
  have "?L \<in> rs_honest ?R" by simp
  from start_step [of ?L ?R nodes "[?L]" "[]" w net, OF this assms(1,3,4) _ refl, unfolded add, OF two(1)]
  obtain s payload where s: "co_phase s = Running True (tp_StartParams ?p [?L, q])"
    "MarshalStartMessage (te_print (rs_env ?R ?L)) (tp_StartParams ?p [?L, q]) = Inr payload"
    "session_step ?R (nodes, net) (nodes(?L := s), insert (session_message (rs_env ?R ?L) ?p TssStartMsg payload) net)" by blast
  let ?m = "session_message (rs_env ?R ?L) ?p TssStartMsg payload"
  have json: "json_text_ok (te_print (rs_env ?R ?L)) (te_parse (rs_env ?R j))" for j using json_text_ok_unary by simp
  have m: "wm_From ?m = ?L" "wm_MessageType ?m = TssStartMsg" "reads ?R j ?m (tp_StartParams ?p [?L, q])" for j
    unfolding reads_def session_message_simps by (simp, rule refl, rule start_roundtrip [OF json s(2)])
  from two(2) obtain signers where "signing_unmarshallStartParams (rs_env ?R ''aaaaaaa2'') (tp_StartParams ?p [?L, q]) = Inr signers"
    "set signers = {?L, q}" by (elim exE conjE) (rule that)
  with s(1,3) m show ?thesis by (intro exI [of _ s] exI [of _ ?m] exI [of _ "tp_StartParams ?p [?L, q]"] exI [of _ signers] conjI)
qed

text \<open>Both others have answered the leader.\<close>

lemma both_ready:
  "\<exists>nodes net w1 w2. (session_step signing_relayers)\<^sup>*\<^sup>* (session_start signing_relayers s0) (nodes, net) \<and>
     co_phase (nodes ''aaaaaaa3'') = Initiating [''aaaaaaa3''] [] \<and> co_phase (nodes ''aaaaaaa2'') = Waiting ''aaaaaaa3'' \<and>
     w1 \<in> net \<and> wm_MessageType w1 = TssReadyMsg \<and> wm_From w1 = ''aaaaaaa1'' \<and>
     w2 \<in> net \<and> wm_MessageType w2 = TssReadyMsg \<and> wm_From w2 = ''aaaaaaa2''"
proof -
  let ?R = signing_relayers and ?L = "''aaaaaaa3''"
  obtain n0 net0 where st0: "session_start ?R s0 = (n0, net0)" by (metis surj_pair)
  have ph: "co_phase (n0 ?L) = Initiating [?L] []" "co_phase (n0 ''aaaaaaa2'') = Waiting ?L" "co_phase (n0 ''aaaaaaa1'') = Waiting ?L"
    using signing_started [of s0] st0 by simp_all
  have h: "?L \<in> rs_honest ?R" "''aaaaaaa1'' \<in> rs_honest ?R" "''aaaaaaa2'' \<in> rs_honest ?R" "te_hostID (rs_env ?R i) = i" for i by simp_all
  from handshake [OF h(1,2,4) ph(1,3), of net0] obtain n1 net1 w1 where 1: "(session_step ?R)\<^sup>*\<^sup>* (n0, net0) (n1, net1)"
    "\<And>i. co_phase (n1 i) = co_phase (n0 i)" "w1 \<in> net1" "wm_MessageType w1 = TssReadyMsg" "wm_From w1 = ''aaaaaaa1''" by blast
  have ph1: "co_phase (n1 ?L) = Initiating [?L] []" "co_phase (n1 ''aaaaaaa2'') = Waiting ?L" using ph 1(2) by simp_all
  from handshake [OF h(1,3,4) ph1, of net1] obtain n2 net2 w2 where 2: "(session_step ?R)\<^sup>*\<^sup>* (n1, net1) (n2, net2)"
    "\<And>i. co_phase (n2 i) = co_phase (n1 i)" "w2 \<in> net2" "wm_MessageType w2 = TssReadyMsg" "wm_From w2 = ''aaaaaaa2''" by blast
  have "w1 \<in> net2" using session_net_mono [OF 2(1)] 1(3) by auto
  moreover have "(session_step ?R)\<^sup>*\<^sup>* (n0, net0) (n2, net2)" using 1(1) 2(1) by (rule rtranclp_trans)
  ultimately show ?thesis using st0 1(4,5) 2(2-5) ph1 by (intro exI [of _ n2] exI [of _ net2] exI [of _ w1] exI [of _ w2]) simp
qed

text \<open>C8 (retry_may_disagree): the agreement of a session does not extend to its retries.  Start messages do not say
  which attempt they belong to, so a signer can follow the start message of an attempt that its coordinator has given
  up, and run with other signers than the coordinator runs its next attempt with; no dishonest peer is needed.\<close>

theorem retry_may_disagree:
  "\<exists>st params params' signers signers'. (attempt_step signing_relayers)\<^sup>*\<^sup>* (session_start signing_relayers fresh_nodes) st \<and>
     co_phase (fst st ''aaaaaaa3'') = Running True params \<and> co_phase (fst st ''aaaaaaa2'') = Running False params' \<and>
     signing_unmarshallStartParams (rs_env signing_relayers ''aaaaaaa2'') params = Inr signers \<and>
     signing_unmarshallStartParams (rs_env signing_relayers ''aaaaaaa2'') params' = Inr signers' \<and> set signers \<noteq> set signers'"
proof -
  let ?R = signing_relayers and ?L = "''aaaaaaa3''" and ?F = "''aaaaaaa2''"
  have h: "?L \<in> rs_honest ?R" "?F \<in> rs_honest ?R" "te_hostID (rs_env ?R ?L) = ?L" by simp_all
  obtain n0 net0 w1 w2 where 0: "(session_step ?R)\<^sup>*\<^sup>* (session_start ?R fresh_nodes) (n0, net0)"
    "co_phase (n0 ?L) = Initiating [?L] []" "co_phase (n0 ?F) = Waiting ?L"
    "w1 \<in> net0" "wm_MessageType w1 = TssReadyMsg" "wm_From w1 = ''aaaaaaa1''"
    "w2 \<in> net0" "wm_MessageType w2 = TssReadyMsg" "wm_From w2 = ?F"
    using both_ready [of fresh_nodes] by (elim exE conjE) (rule that)
  have F: "?F \<in> {''aaaaaaa1'', ''aaaaaaa2''}" and one: "''aaaaaaa1'' \<in> {''aaaaaaa1'', ''aaaaaaa2''}" by simp_all
  from attempt_starts [of n0 ?F w2 net0, OF 0(2) F 0(7-9)] obtain s1 m1 p1 g1 where 1: "wm_From m1 = ?L" "wm_MessageType m1 = TssStartMsg" "reads ?R ?F m1 p1"
    "signing_unmarshallStartParams (rs_env ?R ?F) p1 = Inr g1" "set g1 = {?L, ?F}"
    "session_step ?R (n0, net0) (n0(?L := s1), insert m1 net0)"
    by (elim exE conjE) (rule that)
  let ?n1 = "n0(?L := s1)" and ?net1 = "insert m1 net0"
  from leave_retry [of ?L ?R ?n1 ?net1, OF h(1,3)] obtain n3 net3 where
    3: "co_phase (n3 ?L) = Initiating [?L] []" "\<forall>j. j \<noteq> ?L \<longrightarrow> n3 j = ?n1 j" "?net1 \<subseteq> net3" "(attempt_step ?R)\<^sup>*\<^sup>* (?n1, ?net1) (n3, net3)"
    by (elim exE conjE) (rule that)
  have w1: "w1 \<in> net3" and m1: "m1 \<in> net3" using 3(3) 0(4) by auto  from attempt_starts [of n3 "''aaaaaaa1''" w1 net3, OF 3(1) one w1 0(5,6)]
  obtain s4 m4 p4 g4 where 4: "co_phase s4 = Running True p4" "signing_unmarshallStartParams (rs_env ?R ?F) p4 = Inr g4"
    "set g4 = {?L, ''aaaaaaa1''}" "session_step ?R (n3, net3) (n3(?L := s4), insert m4 net3)"
    by (elim exE conjE) (rule that)
  let ?n4 = "n3(?L := s4)"
  let ?n5 = "?n4(?F := (?n4 ?F)\<lparr>co_phase := Running False p1\<rparr>)"
  have "co_phase (?n4 ?F) = Waiting (wm_From m1)" "m1 \<in> insert m4 net3" using 0(3) 1(1) 3(2) m1 by simp_all
  from follow_step [of ?F ?R ?n4 m1, OF h(2) this 1(2)] 1(3)
  have 5: "session_step ?R (?n4, insert m4 net3) (?n5, insert m4 net3)" by (simp only: reads_def)
  have "(session_step ?R)\<^sup>*\<^sup>* (session_start ?R fresh_nodes) (?n1, ?net1)" using 0(1) 1(6) by (rule rtranclp.rtrancl_into_rtrancl)
  note run1 = rtranclp_trans [of "attempt_step ?R", OF attempt_run [OF this] 3(4)]
  have "(session_step ?R)\<^sup>*\<^sup>* (n3, net3) (?n5, insert m4 net3)" using 4(4) 5 by (rule run2 [of "session_step ?R"])
  note run = rtranclp_trans [of "attempt_step ?R", OF run1 attempt_run [OF this]]  have "set g4 \<noteq> set g1" unfolding 1(5) 4(3) by (simp add: doubleton_eq_iff)
  moreover have "co_phase (?n5 ?L) = Running True p4" "co_phase (?n5 ?F) = Running False p1" using 4(1) by simp_all
  ultimately show ?thesis
    using run 1(4) 4(2) by (intro exI [of _ "(?n5, insert m4 net3)"] exI [of _ p4] exI [of _ p1] exI [of _ g4] exI [of _ g1]) simp
qed

theorem attempts_choose_signers_witness:
  "\<exists>st params signers. (attempt_step signing_relayers)\<^sup>*\<^sup>* (session_start signing_relayers fresh_nodes) st \<and>
     co_phase (fst st ''aaaaaaa3'') = Running True params \<and>
     signing_unmarshallStartParams (rs_env signing_relayers ''aaaaaaa3'') params = Inr signers \<and> length signers = 2"
proof -
  obtain nodes net w1 w2 where 0: "(session_step signing_relayers)\<^sup>*\<^sup>* (session_start signing_relayers fresh_nodes) (nodes, net)"
    "co_phase (nodes ''aaaaaaa3'') = Initiating [''aaaaaaa3''] []" "w2 \<in> net" "wm_MessageType w2 = TssReadyMsg" "wm_From w2 = ''aaaaaaa2''"
    using both_ready [of fresh_nodes] by (elim exE conjE) (rule that)
  have "''aaaaaaa2'' \<in> {''aaaaaaa1'', ''aaaaaaa2''}" by simp
  from attempt_starts [of nodes "''aaaaaaa2''" w2 net, OF 0(2) this 0(3-5)]
  obtain s m params where s: "co_phase s = Running True params"
    "session_step signing_relayers (nodes, net) (nodes(''aaaaaaa3'' := s), insert m net)" by (elim exE conjE) (rule that)
  let ?st = "(nodes(''aaaaaaa3'' := s), insert m net)"
  have "(session_step signing_relayers)\<^sup>*\<^sup>* (session_start signing_relayers fresh_nodes) ?st"
    using 0(1) s(2) by (rule rtranclp.rtrancl_into_rtrancl)
  then have run: "(attempt_step signing_relayers)\<^sup>*\<^sup>* (session_start signing_relayers fresh_nodes) ?st" by (rule attempt_run)
  have "''aaaaaaa3'' \<in> rs_honest signing_relayers" "co_phase (fst ?st ''aaaaaaa3'') = Running True params" using s(1) by simp_all
  from attempts_choose_signers [OF signing_committee_ok run this] obtain signers where
    "signing_unmarshallStartParams (rs_env signing_relayers ''aaaaaaa3'') params = Inr signers" "int (length signers) = 2" by auto
  with run s(1) show ?thesis by (intro exI [of _ ?st] exI [of _ params] exI [of _ signers]) simp
qed

end
