(* ===== verification/Delivery.thy ===== *)
theory Delivery
  imports Session
begin

text \<open>
  Sessions over the network: the start message that the leader broadcasts through \<open>Libp2pCommunication\<close>
  arrives on the start channel of every relayer it can reach.
\<close>

subsection \<open>From the leader's broadcast to the follower's channel\<close>

text \<open>The \<open>Subscribe\<close> of a relayer's communication, with the channel and the clock of each call.\<close>

definition comm_subscribe :: "(message_type \<Rightarrow> 64 word) \<Rightarrow> (message_type \<Rightarrow> 'c) \<Rightarrow> 'c subscribe" where
  "comm_subscribe now ch = (\<lambda>sid mt c. Subscribe sid mt (now mt) (ch mt) c)"

lemma Subscribe_subscriber: "c \<in> set (GetSubscribers (cs_subs (snd (Subscribe sid mt now c m))) sid mt)"
  by (force simp: Subscribe_def split_beta GetSubscribers_chans SubscribeTo_chans update_conv' dest: map_of_SomeD
      intro: map_of_SomeD [of "AList.update k c xs" k c for k xs])

lemma waits_on_channel:
  "ch TssStartMsg \<in> set (GetSubscribers (cs_subs (co_comm (waitForStart (comm_subscribe now ch) p coordinator s)))
     (tp_SessionID p) TssStartMsg)"
  using Subscribe_subscriber by (simp add: waitForStart_def comm_subscribe_def split_beta)

lemma broadcast_wire:
  assumes "\<And>xs. mset (sched xs) = mset xs" and "distinct peers" and "q \<in> set peers" and "q \<noteq> cs_hostID c"
    and "send_error net pr (wire_message pj msg mt sid) sid c q = None"
  shows "(used_stream net sid c q, wire_message pj msg mt sid @ [newline]) \<in>
    set (cs_wire (snd (Broadcast net pr pj sched peers msg mt sid c)))"
proof -
  let ?ts = "broadcast_targets c peers"
  have s: "mset (sched ?ts) = mset ?ts" by (rule assms(1))
  then have "distinct (sched ?ts)" using assms(2) mset_eq_distinct [of "sched ?ts" ?ts] by (simp add: broadcast_targets_def)
  moreover have "q \<in> set (sched ?ts)" using assms(3,4) mset_eq_set [OF s] by (auto simp: broadcast_targets_def)
  ultimately show ?thesis using assms(5) by (simp add: Broadcast_send_all send_all_wire)
qed

lemma frame_delivered:
  assumes "json_text_ok pj qj"
  shows "set (ProcessMessagesFromStream qj subs remote (wire_message pj msg mt sid @ [newline])) =
    (\<lambda>ch. (ch, \<lparr>wm_MessageType = mt, wm_SessionID = sid, wm_Payload = msg, wm_From = remote\<rparr>)) ` set (GetSubscribers subs sid mt)"
proof -
  let ?w = "wire_message pj msg mt sid"
  let ?m = "\<lparr>wm_MessageType = mt, wm_SessionID = sid, wm_Payload = msg, wm_From = remote\<rparr>"
  have m: "marshal_wrapped pj ?m = Inr ?w" using marshal_wrapped_wire [of pj ?m] by simp
  have "ReadStream (?w @ newline # []) = Inr (?w, [])"
    by (rule ReadStream_frame [OF marshal_wrapped_line [OF assms m]])
  moreover have "unmarshal_wrapped qj ?w = Inr (?m\<lparr>wm_From := ''''\<rparr>)" by (rule wrapped_roundtrip [OF assms m])
  ultimately show ?thesis
    by (simp add: ProcessMessagesFromStream.simps [of qj subs remote "?w @ [newline]"]
        ProcessMessagesFromStream.simps [of qj subs remote "[]"] ReadStream_def)
qed

text \<open>The relayer at the other end takes the frame as the start message it waits for.\<close>

lemma start_frame_taken:
  assumes "json_text_ok (te_print E) (te_parse E')" and "MarshalStartMessage (te_print E) params = Inr payload"
    and "m = \<lparr>wm_MessageType = TssStartMsg, wm_SessionID = tp_SessionID p', wm_Payload = payload, wm_From = leader\<rparr>"
  shows "(ch TssStartMsg, m) \<in> set (ProcessMessagesFromStream (te_parse E')
      (cs_subs (co_comm (waitForStart (comm_subscribe now ch) p' leader f))) leader
      (wire_message (te_print E) payload TssStartMsg (tp_SessionID p') @ [newline]))"
    and "session_event E' sub p' (StartMsg m) (waitForStart (comm_subscribe now ch) p' leader f) =
      ((waitForStart (comm_subscribe now ch) p' leader f)\<lparr>co_phase := Running False params\<rparr>, Continue)"
  using waits_on_channel [of ch now p' leader f] start_roundtrip [OF assms(1,2)] assms(3)
  by (auto simp: frame_delivered [OF assms(1)] session_event_def wait_start_def waitForStart_def split_beta)

subsection \<open>Properties\<close>

text \<open>C6 (start_reaches_followers): the leader's start message arrives.  When the leader starts the processes, every other
  peer of its peerstore to which the send works gets a frame on its stream; a relayer that waits for the
  start of this session finds there, on its start channel, a message from the leader, and runs with the leader's
  parameters when it takes it.\<close>

theorem start_reaches_followers:
  assumes "te_broadcast E = Broadcast net (te_pretty E) (te_print E) sched" and "\<And>xs. mset (sched xs) = mset xs"
    and "distinct (te_peerstore E)" and "j \<in> set (te_peerstore E)" and "j \<noteq> cs_hostID (co_comm s)"
    and "json_text_ok (te_print E) (te_parse E')" and "tp_SessionID p' = tp_SessionID p"
    and "initiate_ready E p ready ex w s = (s1, r)" and "co_phase s1 = Running True params"
    and "co_phase s = Initiating ready ex" and "MarshalStartMessage (te_print E) params = Inr payload"
    and "send_error net (te_pretty E) (wire_message (te_print E) payload TssStartMsg (tp_SessionID p)) (tp_SessionID p) (co_comm s) j = None"
  shows "\<exists>frame m. (used_stream net (tp_SessionID p) (co_comm s) j, frame) \<in> set (cs_wire (co_comm s1)) \<and>
    (ch TssStartMsg, m) \<in> set (ProcessMessagesFromStream (te_parse E')
      (cs_subs (co_comm (waitForStart (comm_subscribe now ch) p' leader f))) leader frame) \<and>
    session_event E' sub p' (StartMsg m) (waitForStart (comm_subscribe now ch) p' leader f) =
      ((waitForStart (comm_subscribe now ch) p' leader f)\<lparr>co_phase := Running False params\<rparr>, Continue)"
proof -
  let ?w = "wire_message (te_print E) payload TssStartMsg (tp_SessionID p)"
  have "co_comm s1 = snd (Broadcast net (te_pretty E) (te_print E) sched (te_peerstore E) payload TssStartMsg (tp_SessionID p) (co_comm s))"
    using assms(1,8-11) by (auto simp: initiate_ready_def Let_def split: sum.splits bool.splits)
  with broadcast_wire [OF assms(2-5,12)] have "(used_stream net (tp_SessionID p) (co_comm s) j, ?w @ [newline]) \<in> set (cs_wire (co_comm s1))"
    by simp
  with start_frame_taken(1) [OF assms(6,11) refl, where p' = p' and ch = ch and now = now and leader = leader and f = f]
    start_frame_taken(2) [OF assms(6,11) refl, where p' = p' and ch = ch and now = now and leader = leader and f = f and sub = sub]
  show ?thesis unfolding assms(7) by blast
qed

subsection \<open>Instances\<close>

definition lan_tss_env :: "nat tss_env" where
  "lan_tss_env = sample_env\<lparr>te_broadcast := Broadcast lan_env (\<lambda>p. p) unary_print (\<lambda>xs. xs), te_hostID := ''a'',
     te_peerstore := [''a'', ''bb'', ''ccc'']\<rparr>"

lemma lan_tss_env_simps [simp]:
  "te_broadcast lan_tss_env = Broadcast lan_env (\<lambda>p. p) unary_print (\<lambda>xs. xs)" "te_print lan_tss_env = unary_print"
  "te_parse lan_tss_env = unary_parse" "te_pretty lan_tss_env = (\<lambda>p. p)" "te_peerstore lan_tss_env = [''a'', ''bb'', ''ccc'']"
  by (simp_all add: lan_tss_env_def)

abbreviation lan_leader :: "nat coord_state" where
  "lan_leader \<equiv> \<lparr>co_comm = NewCommunication ''a'', co_phase = Initiating [''a''] [], co_deferred = []\<rparr>"

theorem start_reaches_followers_witness:
  "\<exists>frame m. (3, frame) \<in> set (cs_wire (co_comm (fst (initiate_ready lan_tss_env sample_process [''a''] []
       \<lparr>wm_MessageType = TssReadyMsg, wm_SessionID = ''s'', wm_Payload = '''', wm_From = ''ccc''\<rparr> lan_leader)))) \<and>
     (5, m) \<in> set (ProcessMessagesFromStream unary_parse
       (cs_subs (co_comm (waitForStart (comm_subscribe (\<lambda>_. 7) (\<lambda>_. 5)) sample_process ''a'' (lan_leader\<lparr>co_comm := NewCommunication ''ccc''\<rparr>)))) ''a'' frame)"
proof -
  let ?w = "\<lparr>wm_MessageType = TssReadyMsg, wm_SessionID = ''s'', wm_Payload = '''', wm_From = ''ccc''\<rparr>"
  let ?p = sample_process and ?c = "NewCommunication ''a'' :: nat comm_state"
  obtain s1 r where i: "initiate_ready lan_tss_env ?p [''a''] [] ?w lan_leader = (s1, r)" by fastforce
  then have run: "co_phase s1 = Running True ''params''"
    by (auto simp: initiate_ready_def add_ready_def sample_process_def MarshalStartMessage_def Let_def)
  obtain payload where pay: "MarshalStartMessage (te_print lan_tss_env) ''params'' = Inr payload" by (simp add: MarshalStartMessage_def)
  have bc: "te_broadcast lan_tss_env = Broadcast lan_env (te_pretty lan_tss_env) (te_print lan_tss_env) (\<lambda>xs. xs)"
    and peers: "distinct (te_peerstore lan_tss_env)" "''ccc'' \<in> set (te_peerstore lan_tss_env)" "''ccc'' \<noteq> cs_hostID (co_comm lan_leader)"
    and json: "json_text_ok (te_print lan_tss_env) (te_parse lan_tss_env)" and ph: "co_phase lan_leader = Initiating [''a''] []"
    and sent: "send_error lan_env (te_pretty lan_tss_env) (wire_message (te_print lan_tss_env) payload TssStartMsg (tp_SessionID ?p))
      (tp_SessionID ?p) (co_comm lan_leader) ''ccc'' = None"
    using json_text_ok_unary by (simp_all add: lan_send_error) (simp add: NewCommunication_def)
  have used: "used_stream lan_env (tp_SessionID ?p) (co_comm lan_leader) ''ccc'' = 3"
    by (simp add: used_stream_def lan_env_def NewCommunication_def NewStreamManager_def stream_view_def session_streams_def)
  from start_reaches_followers [OF bc refl peers json refl i run ph pay sent, where ch = "\<lambda>_. 5" and now = "\<lambda>_. 7" and leader = "''a''"
      and f = "lan_leader\<lparr>co_comm := NewCommunication ''ccc''\<rparr>"]
  show ?thesis unfolding used i fst_conv lan_tss_env_simps by blast
qed

end
