(* ===== verification/RelayerConfig.thy ===== *)
theory RelayerConfig
  imports GoStd
begin

text \<open>
  The relayer part of the configuration: \<open>tss_util/tss_config/relayer/config.go\<close>, from the strings
  of the raw configuration to ports, durations and a log level, and \<open>time.ParseDuration\<close> of the
  standard library, which reads the durations.

  Parameters: \<open>parse_level\<close> is \<open>zerolog.ParseLevel\<close>; \<open>scaled f unit k\<close> is what the float64 arithmetic
  of \<open>ParseDuration\<close> makes of the fraction \<open>f / 10 ^ k\<close> of a unit.
\<close>

subsection \<open>Durations\<close>

definition is_digit :: "char \<Rightarrow> bool" where
  "is_digit c \<longleftrightarrow> 48 \<le> (of_char c :: nat) \<and> (of_char c :: nat) \<le> 57"

definition is_unit_char :: "char \<Rightarrow> bool" where
  "is_unit_char c \<longleftrightarrow> c \<noteq> CHR ''.'' \<and> \<not> is_digit c"

text \<open>\<open>leadingInt\<close> over the digits it consumes, with its two overflow tests.\<close>

fun leading_int :: "nat \<Rightarrow> string \<Rightarrow> nat option" where
  "leading_int x [] = Some x"
| "leading_int x (c # ds) =
     (if x > 2 ^ 63 div 10 then None
      else let y = x * 10 + (of_char c - 48) in if y > 2 ^ 63 then None else leading_int y ds)"

text \<open>\<open>leadingFraction\<close>: the digits up to the first that overflows, and how many these are.\<close>

fun leading_fraction :: "nat \<Rightarrow> nat \<Rightarrow> string \<Rightarrow> nat \<times> nat" where
  "leading_fraction x k [] = (x, k)"
| "leading_fraction x k (c # ds) =
     (if x > (2 ^ 63 - 1) div 10 then (x, k)
      else let y = x * 10 + (of_char c - 48) in if y > 2 ^ 63 then (x, k) else leading_fraction y (k + 1) ds)"

definition duration_unit :: "string \<Rightarrow> nat option" where
  "duration_unit u =
     (if u = ''ns'' then Some 1
      else if u = ''us'' \<or> u = [CHR 0xC2, CHR 0xB5, CHR ''s''] \<or> u = [CHR 0xCE, CHR 0xBC, CHR ''s''] then Some 1000
      else if u = ''ms'' then Some 1000000
      else if u = ''s'' then Some 1000000000
      else if u = ''m'' then Some 60000000000
      else if u = ''h'' then Some 3600000000000
      else None)"

text \<open>One number with its unit: the nanoseconds it stands for and the rest of the string.\<close>

definition duration_term :: "(nat \<Rightarrow> nat \<Rightarrow> nat \<Rightarrow> nat) \<Rightarrow> string \<Rightarrow> (nat \<times> string) option" where
  "duration_term scaled s =
     (let ds = takeWhile is_digit s;
          s1 = dropWhile is_digit s;
          point = (s1 \<noteq> [] \<and> hd s1 = CHR ''.'');
          fs = (if point then takeWhile is_digit (tl s1) else []);
          s2 = (if point then dropWhile is_digit (tl s1) else s1);
          u = takeWhile is_unit_char s2
      in case leading_int 0 ds of
           None \<Rightarrow> None
         | Some v \<Rightarrow>
             if ds = [] \<and> fs = [] then None
             else if u = [] then None
             else (case duration_unit u of
                 None \<Rightarrow> None
               | Some unit \<Rightarrow>
                   if v > 2 ^ 63 div unit then None
                   else let (f, k) = leading_fraction 0 0 fs;
                            w = v * unit + (if f > 0 then scaled f unit k else 0)
                        in if f > 0 \<and> w > 2 ^ 63 then None else Some (w, dropWhile is_unit_char s2)))"

lemma duration_term_shorter:
  assumes "duration_term scaled s = Some (w, r)"
  shows "length r < length s"
proof -
  define s1 where "s1 = dropWhile is_digit s"
  define s2 where "s2 = (if s1 \<noteq> [] \<and> hd s1 = CHR ''.'' then dropWhile is_digit (tl s1) else s1)"
  from assms have "takeWhile is_unit_char s2 \<noteq> []" and r: "r = dropWhile is_unit_char s2"
    by (auto simp: duration_term_def Let_def s1_def s2_def split: option.splits if_splits prod.splits)
  then have "length r < length s2"
    by (metis append_Nil length_append length_greater_0_conv less_add_same_cancel2 takeWhile_dropWhile_id)
  also have "\<dots> \<le> length s1"
    unfolding s2_def by (auto intro: order_trans [OF length_dropWhile_le])
  also have "\<dots> \<le> length s" unfolding s1_def by (rule length_dropWhile_le)
  finally show ?thesis .
qed

text \<open>The sum is kept in a \<open>uint64\<close>.\<close>

function duration_loop :: "(nat \<Rightarrow> nat \<Rightarrow> nat \<Rightarrow> nat) \<Rightarrow> string \<Rightarrow> nat \<Rightarrow> nat option" where
  "duration_loop scaled s d =
     (if s = [] then Some d
      else case duration_term scaled s of
             None \<Rightarrow> None
           | Some (w, r) \<Rightarrow>
               let d' = (d + w) mod 2 ^ 64 in if d' > 2 ^ 63 then None else duration_loop scaled r d')"
  by pat_completeness auto
termination
  by (relation "measure (\<lambda>(_, s, _). length s)") (auto dest: duration_term_shorter)

declare duration_loop.simps [simp del]

definition ParseDuration :: "(nat \<Rightarrow> nat \<Rightarrow> nat \<Rightarrow> nat) \<Rightarrow> string \<Rightarrow> int option" where
  "ParseDuration scaled s0 =
     (let neg = (s0 \<noteq> [] \<and> hd s0 = CHR ''-'');
          s = (if s0 \<noteq> [] \<and> (hd s0 = CHR ''-'' \<or> hd s0 = CHR ''+'') then tl s0 else s0)
      in if s = ''0'' then Some 0
         else if s = [] then None
         else case duration_loop scaled s 0 of
                None \<Rightarrow> None
              | Some d \<Rightarrow> if neg then Some (- int d) else if d > 2 ^ 63 - 1 then None else Some (int d))"

subsection \<open>The configuration\<close>

record topology_configuration =
  tcfg_Path :: string

record uploader_config =
  up_URL :: string
  up_AuthToken :: string
  up_MaxRetries :: nat
  up_MaxElapsedTime :: int

record raw_mpc_config =
  rmc_KeysharePath :: string
  rmc_FrostKeysharePath :: string
  rmc_Key :: string
  rmc_Port :: string
  rmc_Topology :: topology_configuration
  rmc_CommHealthCheckInterval :: string

record raw_bully_config =
  rbc_PingWaitTime :: string
  rbc_PingBackOff :: string
  rbc_PingInterval :: string
  rbc_ElectionWaitTime :: string
  rbc_BullyWaitTime :: string

record raw_relayer_config =
  rrc_OpenTelemetryCollectorURL :: string
  rrc_LogLevel :: string
  rrc_LogFile :: string
  rrc_HealthPort :: string
  rrc_Env :: string
  rrc_Id :: string
  rrc_Mpc :: raw_mpc_config
  rrc_Bully :: raw_bully_config
  rrc_Uploader :: uploader_config

record mpc_config =
  mc_Topology :: topology_configuration
  mc_Port :: "16 word"
  mc_KeysharePath :: string
  mc_FrostKeysharePath :: string
  mc_Key :: string
  mc_CommHealthCheckInterval :: int

record bully_config =
  bc_PingWaitTime :: int
  bc_PingBackOff :: int
  bc_PingInterval :: int
  bc_ElectionWaitTime :: int
  bc_BullyWaitTime :: int

record relayer_config =
  rc_OpenTelemetryCollectorURL :: string
  rc_LogLevel :: int
  rc_LogFile :: string
  rc_HealthPort :: "16 word"
  rc_Env :: string
  rc_Id :: string
  rc_Mpc :: mpc_config
  rc_Bully :: bully_config
  rc_Uploader :: uploader_config

definition Validate :: "raw_relayer_config \<Rightarrow> go_error option" where
  "Validate c =
     (if rmc_Key (rrc_Mpc c) = '''' then Some (Errorf ''topology configuration mpc key not provided'')
      else if tcfg_Path (rmc_Topology (rrc_Mpc c)) = '''' then Some (Errorf ''topology configuration path not provided'')
      else None)"

text \<open>The steps of the parsers end at the first error.\<close>

definition and_then :: "'a result \<Rightarrow> ('a \<Rightarrow> 'b result) \<Rightarrow> 'b result" where
  "and_then r f = (case r of Inl err \<Rightarrow> Inl err | Inr x \<Rightarrow> f x)"

lemma and_then_simps [simp]: "and_then (Inl e) f = Inl e" "and_then (Inr x) f = f x"
  by (simp_all add: and_then_def)

lemma and_then_Inr: "and_then r f = Inr y \<longleftrightarrow> (\<exists>x. r = Inr x \<and> f x = Inr y)"
  by (cases r) auto

text \<open>A port is read as a signed number of 16 bits and then converted to \<open>uint16\<close>.\<close>

definition parse_port :: "string \<Rightarrow> string \<Rightarrow> 16 word result" where
  "parse_port what s = (case parse_int s 0 16 of Inl e \<Rightarrow> Inl (Errorf what) | Inr p \<Rightarrow> Inr (word_of_int p))"

definition parse_duration :: "(nat \<Rightarrow> nat \<Rightarrow> nat \<Rightarrow> nat) \<Rightarrow> string \<Rightarrow> string \<Rightarrow> int result" where
  "parse_duration scaled what s = (case ParseDuration scaled s of None \<Rightarrow> Inl (Errorf what) | Some d \<Rightarrow> Inr d)"

definition parseMpcConfig :: "(nat \<Rightarrow> nat \<Rightarrow> nat \<Rightarrow> nat) \<Rightarrow> raw_relayer_config \<Rightarrow> mpc_config result" where
  "parseMpcConfig scaled raw =
     and_then (parse_port ''unable to parse mpc port from tss_config'' (rmc_Port (rrc_Mpc raw))) (\<lambda>port.
     and_then (parse_duration scaled ''unable to parse communication health check interval time''
         (rmc_CommHealthCheckInterval (rrc_Mpc raw))) (\<lambda>duration.
     Inr \<lparr>mc_Topology = rmc_Topology (rrc_Mpc raw), mc_Port = port, mc_KeysharePath = rmc_KeysharePath (rrc_Mpc raw),
       mc_FrostKeysharePath = rmc_FrostKeysharePath (rrc_Mpc raw), mc_Key = rmc_Key (rrc_Mpc raw),
       mc_CommHealthCheckInterval = duration\<rparr>))"

definition parseBullyConfig :: "(nat \<Rightarrow> nat \<Rightarrow> nat \<Rightarrow> nat) \<Rightarrow> raw_relayer_config \<Rightarrow> bully_config result" where
  "parseBullyConfig scaled raw =
     and_then (parse_duration scaled ''unable to parse bully election wait time'' (rbc_ElectionWaitTime (rrc_Bully raw))) (\<lambda>electionWaitTime.
     and_then (parse_duration scaled ''unable to parse bully ping wait time'' (rbc_PingWaitTime (rrc_Bully raw))) (\<lambda>pingWaitTime.
     and_then (parse_duration scaled ''unable to parse bully ping interval time'' (rbc_PingInterval (rrc_Bully raw))) (\<lambda>pingInterval.
     and_then (parse_duration scaled ''unable to parse bully ping back off time'' (rbc_PingBackOff (rrc_Bully raw))) (\<lambda>pingBackOff.
     and_then (parse_duration scaled ''unable to parse bully wait time'' (rbc_BullyWaitTime (rrc_Bully raw))) (\<lambda>bullyWaitTime.
     Inr \<lparr>bc_PingWaitTime = pingWaitTime, bc_PingBackOff = pingBackOff, bc_PingInterval = pingInterval,
       bc_ElectionWaitTime = electionWaitTime, bc_BullyWaitTime = bullyWaitTime\<rparr>)))))"

definition NewRelayerConfig ::
  "(string \<Rightarrow> int option) \<Rightarrow> (nat \<Rightarrow> nat \<Rightarrow> nat \<Rightarrow> nat) \<Rightarrow> raw_relayer_config \<Rightarrow> relayer_config result" where
  "NewRelayerConfig parse_level scaled raw =
     (case Validate raw of Some err \<Rightarrow> Inl err
      | None \<Rightarrow>
     (case parse_level (rrc_LogLevel raw) of None \<Rightarrow> Inl (Errorf (''unknown log level: '' @ rrc_LogLevel raw))
      | Some logLevel \<Rightarrow>
     and_then (parse_port ''unable to parse health port'' (rrc_HealthPort raw)) (\<lambda>healthPort.
     and_then (parseMpcConfig scaled raw) (\<lambda>mpcConfig.
     and_then (parseBullyConfig scaled raw) (\<lambda>bullyConfig.
     Inr \<lparr>rc_OpenTelemetryCollectorURL = rrc_OpenTelemetryCollectorURL raw, rc_LogLevel = logLevel,
       rc_LogFile = rrc_LogFile raw, rc_HealthPort = healthPort, rc_Env = rrc_Env raw, rc_Id = rrc_Id raw,
       rc_Mpc = mpcConfig, rc_Bully = bullyConfig, rc_Uploader = rrc_Uploader raw\<rparr>)))))"

text \<open>
  The \<open>default\<close> tags of the raw configuration, which \<open>defaults.Set\<close> writes into the fields that are
  empty.
\<close>

definition or_default :: "string \<Rightarrow> string \<Rightarrow> string" where
  "or_default d s = (if s = '''' then d else s)"

definition default_config :: "raw_relayer_config \<Rightarrow> raw_relayer_config" where
  "default_config c =
     c\<lparr>rrc_LogLevel := or_default ''info'' (rrc_LogLevel c), rrc_LogFile := or_default ''out.log'' (rrc_LogFile c),
       rrc_HealthPort := or_default ''9001'' (rrc_HealthPort c),
       rrc_Mpc := (rrc_Mpc c)\<lparr>rmc_Port := or_default ''9000'' (rmc_Port (rrc_Mpc c)),
         rmc_CommHealthCheckInterval := or_default ''5m'' (rmc_CommHealthCheckInterval (rrc_Mpc c))\<rparr>,
       rrc_Bully := \<lparr>rbc_PingWaitTime = or_default ''1s'' (rbc_PingWaitTime (rrc_Bully c)),
         rbc_PingBackOff = or_default ''1s'' (rbc_PingBackOff (rrc_Bully c)),
         rbc_PingInterval = or_default ''1s'' (rbc_PingInterval (rrc_Bully c)),
         rbc_ElectionWaitTime = or_default ''2s'' (rbc_ElectionWaitTime (rrc_Bully c)),
         rbc_BullyWaitTime = or_default ''3m'' (rbc_BullyWaitTime (rrc_Bully c))\<rparr>,
       rrc_Uploader := (rrc_Uploader c)\<lparr>
         up_MaxRetries := (if up_MaxRetries (rrc_Uploader c) = 0 then 5 else up_MaxRetries (rrc_Uploader c)),
         up_MaxElapsedTime := (if up_MaxElapsedTime (rrc_Uploader c) = 0 then 300000 else up_MaxElapsedTime (rrc_Uploader c))\<rparr>\<rparr>"

subsection \<open>Numbers as text\<close>

lemma is_digit_digit_char: "d < 10 \<Longrightarrow> is_digit (digit_char d)"
  by (simp add: is_digit_def digit_char_def)

lemma show_nat_is_digit: "list_all is_digit (show_nat n)"
  by (metis list_all_iff show_nat_digits is_digit_digit_char)

lemma leading_int_append:
  "leading_int x (a @ b) = (case leading_int x a of None \<Rightarrow> None | Some y \<Rightarrow> leading_int y b)"
  by (induction a arbitrary: x) (auto simp: Let_def)

lemma leading_int_show_nat: "leading_int 0 (show_nat n) = (if n \<le> 2 ^ 63 then Some n else None)"
proof (induction n rule: show_nat.induct)
  case (1 n)
  show ?case
  proof (cases "n < 10")
    case True
    then show ?thesis by (simp add: show_nat.simps [of n] digit_char_def)
  next
    case False
    then have "leading_int 0 (show_nat n) =
        (case leading_int 0 (show_nat (n div 10)) of None \<Rightarrow> None | Some y \<Rightarrow> leading_int y [digit_char (n mod 10)])"
      by (simp add: show_nat.simps [of n] leading_int_append)
    also have "\<dots> = (if n \<le> 2 ^ 63 then Some n else None)"
      using "1.IH" False by (auto simp: digit_char_def)
    finally show ?thesis .
  qed
qed

lemma parse_digits_show_nat_all:
  "parse_digits b 10 maxv 0 (show_nat n) = (if n \<le> maxv then Inr n else Inl ErrRange)"
proof (induction n rule: show_nat.induct)
  case (1 n)
  have d: "digit_val (digit_char k) = Some k" "digit_char k \<noteq> CHR ''_''" if "k < 10" for k
    using that by (auto simp: digit_val_def of_char_digit_char digit_char_not_special Let_def)
  show ?case
  proof (cases "n < 10")
    case True
    then show ?thesis by (simp add: show_nat.simps [of n] d)
  next
    case False
    then have "parse_digits b 10 maxv 0 (show_nat n) =
        (case parse_digits b 10 maxv 0 (show_nat (n div 10)) of Inl e \<Rightarrow> Inl e
          | Inr m \<Rightarrow> parse_digits b 10 maxv m [digit_char (n mod 10)])"
      by (simp add: show_nat.simps [of n] parse_digits_append)
    also have "\<dots> = (if n \<le> maxv then Inr n else Inl ErrRange)"
      using "1.IH" False by (auto simp: d)
    finally show ?thesis .
  qed
qed

lemma unit_starts:
  "duration_unit u = Some k \<Longrightarrow> 0 < k \<and> u \<noteq> [] \<and> list_all is_unit_char u \<and> \<not> is_digit (hd u) \<and> hd u \<noteq> CHR ''.''"
  by (auto simp: duration_unit_def is_unit_char_def is_digit_def split: if_splits)

lemma takeWhile_all_append: "list_all P xs \<Longrightarrow> \<not> P (hd ys) \<or> ys = [] \<Longrightarrow> takeWhile P (xs @ ys) = xs \<and> dropWhile P (xs @ ys) = ys"
  by (induction xs) (cases ys; auto)+

lemma duration_term_number:
  assumes "duration_unit u = Some k"
  shows "duration_term scaled (show_nat n @ u) = (if n * k \<le> 2 ^ 63 then Some (n * k, []) else None)"
proof -
  note u = unit_starts [OF assms]
  have s: "takeWhile is_digit (show_nat n @ u) = show_nat n \<and> dropWhile is_digit (show_nat n @ u) = u"
    using takeWhile_all_append [OF show_nat_is_digit] u by blast
  have t: "takeWhile is_unit_char u = u" "dropWhile is_unit_char u = []"
    using u takeWhile_all_append [of is_unit_char u "[]"] by auto
  have v: "n > 2 ^ 63 div k \<longleftrightarrow> n * k > 2 ^ 63"
    using u by (metis div_less_iff_less_mult less_eq_div_iff_mult_less_eq not_le)
  have "n * k > 2 ^ 63" if "n > 2 ^ 63"
    using that u by (metis less_le_trans mult.right_neutral mult_le_mono2 Suc_leI One_nat_def)
  with v u show ?thesis
    by (auto simp: duration_term_def leading_int_show_nat Let_def s [THEN conjunct1] s [THEN conjunct2] t assms del: takeWhile_eq_all_conv)
qed

lemma ParseDuration_number:
  assumes "duration_unit u = Some k"
  shows "ParseDuration scaled (show_nat n @ u) = (if n * k < 2 ^ 63 then Some (int (n * k)) else None)"
proof -
  have "hd (show_nat n) \<in> set (show_nat n)" by simp
  then have d: "is_digit (hd (show_nat n))" using show_nat_is_digit by (metis list_all_iff)
  then have hd: "hd (show_nat n @ u) \<noteq> CHR ''-''" "hd (show_nat n @ u) \<noteq> CHR ''+''"
    by (auto simp: hd_append is_digit_def)
  have z: "show_nat n @ u \<noteq> ''0''"
  proof
    assume "show_nat n @ u = ''0''"
    then have "u = []" by (metis append_eq_Cons_conv append_is_Nil_conv show_nat_neq_Nil)
    then show False using unit_starts [OF assms] by simp
  qed
  have "duration_loop scaled (show_nat n @ u) 0 = (if n * k \<le> 2 ^ 63 then Some (n * k) else None)"
    by (subst duration_loop.simps) (simp add: duration_term_number [OF assms] duration_loop.simps Let_def)
  with hd z show ?thesis by (simp add: ParseDuration_def)
qed

lemma hd_show_nat: "0 < n \<Longrightarrow> hd (show_nat n) \<noteq> CHR ''0''"
proof (induction n rule: show_nat.induct)
  case (1 n)
  show ?case
  proof (cases "n < 10")
    case True
    have "(of_char (digit_char n) :: nat) = 48 + n" using True by (rule of_char_digit_char)
    with True 1 show ?thesis by (auto simp: show_nat.simps [of n])
  next
    case False
    with 1 have "hd (show_nat (n div 10)) \<noteq> CHR ''0''" by simp
    with False show ?thesis by (simp add: show_nat.simps [of n] hd_append)
  qed
qed

lemma base_prefix_show_nat: "0 < n \<Longrightarrow> base_prefix (show_nat n) = (10, show_nat n)"
  using hd_show_nat [of n] by (cases "show_nat n" rule: base_prefix.cases) auto

lemma show_nat_signs: "hd (show_nat n) \<noteq> CHR ''-''" "hd (show_nat n) \<noteq> CHR ''+''" "CHR ''_'' \<notin> set (show_nat n)"
proof -
  have "\<not> is_digit CHR ''-''" "\<not> is_digit CHR ''+''" "\<not> is_digit CHR ''_''" by (simp_all add: is_digit_def)
  then show "hd (show_nat n) \<noteq> CHR ''-''" "hd (show_nat n) \<noteq> CHR ''+''" "CHR ''_'' \<notin> set (show_nat n)"
    using show_nat_is_digit [of n] hd_in_set [OF show_nat_neq_Nil, of n] by (metis list_all_iff)+
qed

lemma parse_uint_decimal:
  "0 < n \<Longrightarrow> parse_uint (show_nat n) 0 16 = (if n < 2 ^ 16 then Inr n else Inl ErrRange)"
  by (auto simp: parse_uint_def base_prefix_show_nat parse_digits_show_nat_all show_nat_signs)

lemma parse_int_decimal:
  assumes "0 < n"
  shows "parse_int (show_nat n) 0 16 = (if n < 2 ^ 15 then Inr (int n) else Inl ErrRange)"
    and "parse_int (CHR ''-'' # show_nat n) 0 16 = (if n \<le> 2 ^ 15 then Inr (- int n) else Inl ErrRange)"
  using assms by (auto simp: parse_int_def parse_uint_decimal show_nat_signs)

lemma parse_port_decimal:
  assumes "0 < n"
  shows "parse_port what (show_nat n) = (if n < 2 ^ 15 then Inr (word_of_nat n) else Inl (Errorf what))"
    and "parse_port what (CHR ''-'' # show_nat n) = (if n \<le> 2 ^ 15 then Inr (- word_of_nat n) else Inl (Errorf what))"
  using assms by (simp_all add: parse_port_def parse_int_decimal)

lemma NewRelayerConfig_ports:
  assumes "NewRelayerConfig parse_level scaled raw = Inr c"
  shows "parse_port ''unable to parse health port'' (rrc_HealthPort raw) = Inr (rc_HealthPort c)"
    and "parse_port ''unable to parse mpc port from tss_config'' (rmc_Port (rrc_Mpc raw)) = Inr (mc_Port (rc_Mpc c))"
  using assms by (auto simp: NewRelayerConfig_def parseMpcConfig_def and_then_Inr split: option.splits)

lemma parse_port_accepted:
  assumes "parse_port what s = Inr w" and "0 < n"
  shows "s = show_nat n \<Longrightarrow> n < 2 ^ 15 \<and> unat w = n"
    and "s = CHR ''-'' # show_nat n \<Longrightarrow> n \<le> 2 ^ 15 \<and> unat w = 2 ^ 16 - n"
proof -
  assume "s = show_nat n"
  then have "n < 2 ^ 15 \<and> w = word_of_nat n"
    using assms by (auto simp: parse_port_decimal split: if_splits)
  then show "n < 2 ^ 15 \<and> unat w = n" by (auto simp: unat_of_nat)
next
  assume "s = CHR ''-'' # show_nat n"
  then have n: "n \<le> 2 ^ 15" and w: "w = - word_of_nat n"
    using assms by (auto simp: parse_port_decimal split: if_splits)
  then have "uint w = (- int n) mod 2 ^ 16" by (simp add: uint_word_ariths unsigned_of_nat mod_minus_eq take_bit_eq_mod)
  also have "\<dots> = 2 ^ 16 - int n" using n assms(2) by (simp add: zmod_zminus1_eq_if)
  finally have "uint w = 2 ^ 16 - int n" .
  then have "unat w = 2 ^ 16 - n" using n by (simp add: unat_eq_nat_uint)
  with n show "n \<le> 2 ^ 15 \<and> unat w = 2 ^ 16 - n" by simp
qed

lemma digit_chars:
  "char_of (48::nat) = CHR ''0''" "char_of (49::nat) = CHR ''1''" "char_of (50::nat) = CHR ''2''" "char_of (51::nat) = CHR ''3''"
  "char_of (53::nat) = CHR ''5''" "char_of (57::nat) = CHR ''9''"
  by code_simp+

lemma ParseDuration_defaults:
  "ParseDuration scaled ''5m'' = Some 300000000000" "ParseDuration scaled ''1s'' = Some 1000000000"
  "ParseDuration scaled ''2s'' = Some 2000000000" "ParseDuration scaled ''3m'' = Some 180000000000"
proof -
  have u: "duration_unit ''m'' = Some 60000000000" "duration_unit ''s'' = Some 1000000000"
    by (simp_all add: duration_unit_def)
  show "ParseDuration scaled ''5m'' = Some 300000000000" "ParseDuration scaled ''1s'' = Some 1000000000"
    "ParseDuration scaled ''2s'' = Some 2000000000" "ParseDuration scaled ''3m'' = Some 180000000000"
    using ParseDuration_number [OF u(1), of scaled 5] ParseDuration_number [OF u(2), of scaled 1]
      ParseDuration_number [OF u(2), of scaled 2] ParseDuration_number [OF u(1), of scaled 3]
    by (simp_all add: digit_char_def digit_chars show_nat.simps)
qed

lemma parse_port_defaults: "parse_port what ''9001'' = Inr 9001" "parse_port what ''9000'' = Inr 9000"
proof -
  have "show_nat 9001 = ''9001''" "show_nat 9000 = ''9000''"
    by (simp_all add: show_nat.simps [of 9001] show_nat.simps [of 9000] show_nat.simps [of 900] show_nat.simps [of 90]
        show_nat.simps [of 9] digit_char_def digit_chars)
  then show "parse_port what ''9001'' = Inr 9001" "parse_port what ''9000'' = Inr 9000"
    using parse_port_decimal(1) [of 9001 what] parse_port_decimal(1) [of 9000 what] by simp_all
qed

subsection \<open>Properties\<close>

text \<open>Fact (duration_read): a number with a unit is read as that many nanoseconds, and refused exactly when they
  do not fit a signed 64-bit number.\<close>

theorem duration_read:
  assumes "duration_unit u = Some k"
  shows "ParseDuration scaled (show_nat n @ u) = (if n * k < 2 ^ 63 then Some (int (n * k)) else None)"
  by (rule ParseDuration_number [OF assms])


text \<open>Fact (default_config_accepted): a configuration that gives a key and the path of the topology and
  leaves ports, durations and log level out is accepted, with the ports 9001 and 9000, a health check every
  five minutes, and the bully election waiting two seconds for an answer and three minutes in all.\<close>

theorem default_config_accepted:
  assumes "parse_level ''info'' = Some level" and "rmc_Key (rrc_Mpc raw) \<noteq> ''''" and "tcfg_Path (rmc_Topology (rrc_Mpc raw)) \<noteq> ''''"
    and "rrc_LogLevel raw = ''''" and "rrc_HealthPort raw = ''''" and "rmc_Port (rrc_Mpc raw) = ''''"
    and "rmc_CommHealthCheckInterval (rrc_Mpc raw) = ''''"
    and "rrc_Bully raw = \<lparr>rbc_PingWaitTime = '''', rbc_PingBackOff = '''', rbc_PingInterval = '''', rbc_ElectionWaitTime = '''', rbc_BullyWaitTime = ''''\<rparr>"
  shows "\<exists>c. NewRelayerConfig parse_level scaled (default_config raw) = Inr c \<and>
    rc_HealthPort c = 9001 \<and> mc_Port (rc_Mpc c) = 9000 \<and> rc_LogLevel c = level \<and> mc_Key (rc_Mpc c) = rmc_Key (rrc_Mpc raw) \<and>
    mc_CommHealthCheckInterval (rc_Mpc c) = 300 * 10 ^ 9 \<and>
    rc_Bully c = \<lparr>bc_PingWaitTime = 10 ^ 9, bc_PingBackOff = 10 ^ 9, bc_PingInterval = 10 ^ 9,
      bc_ElectionWaitTime = 2 * 10 ^ 9, bc_BullyWaitTime = 180 * 10 ^ 9\<rparr>"
  using assms
  by (simp add: NewRelayerConfig_def default_config_def or_default_def Validate_def parse_port_defaults parseMpcConfig_def
      parseBullyConfig_def parse_duration_def ParseDuration_defaults)

subsection \<open>Instances\<close>

definition sample_raw_config :: raw_relayer_config where
  "sample_raw_config =
     \<lparr>rrc_OpenTelemetryCollectorURL = '''', rrc_LogLevel = '''', rrc_LogFile = '''', rrc_HealthPort = '''', rrc_Env = '''', rrc_Id = '''',
      rrc_Mpc = \<lparr>rmc_KeysharePath = '''', rmc_FrostKeysharePath = '''', rmc_Key = ''key'', rmc_Port = '''',
        rmc_Topology = \<lparr>tcfg_Path = ''topology.json''\<rparr>, rmc_CommHealthCheckInterval = ''''\<rparr>,
      rrc_Bully = \<lparr>rbc_PingWaitTime = '''', rbc_PingBackOff = '''', rbc_PingInterval = '''', rbc_ElectionWaitTime = '''',
        rbc_BullyWaitTime = ''''\<rparr>,
      rrc_Uploader = \<lparr>up_URL = '''', up_AuthToken = '''', up_MaxRetries = 0, up_MaxElapsedTime = 0\<rparr>\<rparr>"

text \<open>The same with a negative health port.\<close>

definition sample_wrapping_config :: raw_relayer_config where
  "sample_wrapping_config = (default_config sample_raw_config)\<lparr>rrc_HealthPort := ''-1''\<rparr>"

lemma sample_wrapping_accepted:
  "\<exists>c. NewRelayerConfig (\<lambda>s. Some 1) (\<lambda>f u k. 0) sample_wrapping_config = Inr c"
proof -
  have "show_nat 1 = ''1''" by (simp add: show_nat.simps digit_char_def digit_chars)
  then have "parse_port what ''-1'' = Inr (- 1)" for what
    using parse_port_decimal(2) [of 1 what] by simp
  then show ?thesis
    by (simp add: NewRelayerConfig_def sample_wrapping_config_def sample_raw_config_def default_config_def or_default_def Validate_def
        parse_port_defaults parseMpcConfig_def parseBullyConfig_def parse_duration_def ParseDuration_defaults)
qed

theorem duration_read_witness:
  "ParseDuration (\<lambda>f u k. 0) (show_nat 90 @ ''s'') = Some 90000000000 \<and>
   ParseDuration (\<lambda>f u k. 0) (show_nat 9223372037 @ ''s'') = None"
proof -
  have u: "duration_unit ''s'' = Some 1000000000" by (simp add: duration_unit_def)
  show ?thesis
    using duration_read [OF u, of "\<lambda>f u k. 0" 90] duration_read [OF u, of "\<lambda>f u k. 0" 9223372037] by simp
qed


theorem default_config_accepted_witness:
  "\<exists>c. NewRelayerConfig (\<lambda>s. if s = ''info'' then Some 1 else None) (\<lambda>f u k. 0) (default_config sample_raw_config) = Inr c \<and>
     rc_HealthPort c = 9001 \<and> mc_Key (rc_Mpc c) = ''key''"
proof -
  have "\<exists>c. NewRelayerConfig (\<lambda>s. if s = ''info'' then Some 1 else None) (\<lambda>f u k. 0) (default_config sample_raw_config) = Inr c \<and>
    rc_HealthPort c = 9001 \<and> mc_Port (rc_Mpc c) = 9000 \<and> rc_LogLevel c = 1 \<and> mc_Key (rc_Mpc c) = rmc_Key (rrc_Mpc sample_raw_config) \<and>
    mc_CommHealthCheckInterval (rc_Mpc c) = 300 * 10 ^ 9 \<and>
    rc_Bully c = \<lparr>bc_PingWaitTime = 10 ^ 9, bc_PingBackOff = 10 ^ 9, bc_PingInterval = 10 ^ 9,
      bc_ElectionWaitTime = 2 * 10 ^ 9, bc_BullyWaitTime = 180 * 10 ^ 9\<rparr>"
    by (rule default_config_accepted) (simp_all add: sample_raw_config_def)
  then show ?thesis by (auto simp: sample_raw_config_def)
qed

end
