(* ===== verification/Bully.thy ===== *)
theory Bully
  imports Process RelayerConfig
begin

text \<open>
  The electors of the second attempt: \<open>tss_util/comm/elector/bully.go\<close> and the factory of
  \<open>tss_util/comm/elector/elector.go\<close>.  A bully elector is two goroutines: \<open>listen\<close>, which takes the
  messages of the session, and \<open>startBullyCoordination\<close>, which elects and then handles what the
  listener hands over.  \<open>Coordinator\<close> answers what the two have agreed on when \<open>BullyWaitTime\<close> is over.

  The channels \<open>receiveChan\<close> and \<open>pingChan\<close> are unbuffered, \<open>electionChan\<close> holds one message; the
  events below say which goroutine makes which move, and \<open>bully_event\<close> is \<open>None\<close> where it cannot.
\<close>

subsection \<open>The order of the candidates\<close>

text \<open>The loop of \<open>isPeerIDHigher\<close>: the index of a peer among the sorted ones, and 0 for any other.\<close>

fun scan_index :: "peer_id \<Rightarrow> peer_id list \<Rightarrow> nat \<Rightarrow> nat \<Rightarrow> nat" where
  "scan_index p [] i acc = acc"
| "scan_index p (q # qs) i acc = scan_index p qs (i + 1) (if p = q then i else acc)"

definition isPeerIDHigher :: "peer_id list \<Rightarrow> peer_id \<Rightarrow> peer_id \<Rightarrow> bool" where
  "isPeerIDHigher sortedPeers p1 p2 \<longleftrightarrow> scan_index p1 sortedPeers 0 0 < scan_index p2 sortedPeers 0 0"

definition setCoordinator :: "peer_id list \<Rightarrow> peer_id \<Rightarrow> peer_id \<Rightarrow> peer_id \<Rightarrow> peer_id" where
  "setCoordinator sortedPeers hostID p coordinator =
     (if isPeerIDHigher sortedPeers p coordinator \<or> p = hostID then p else coordinator)"

subsection \<open>The two goroutines\<close>

datatype listener =
    Listening
  | OfferAlive  \<comment> \<open>\<open>electionChan\<close> is full: waits for room, half a second at most\<close>
  | HandingOver wrapped_message  \<comment> \<open>waits for the other goroutine to take the message\<close>
  | BlockedOnPing  \<comment> \<open>waits for a reader of \<open>pingChan\<close>, which nobody reads\<close>

datatype elector_pc = InElect | InLoop

record 'c bully =
  by_sessionID :: session_id
  by_hostID :: peer_id
  by_sortedPeers :: "peer_id list"
  by_coordinator :: peer_id
  by_electionChan :: bool
  by_listener :: listener
  by_pc :: elector_pc
  by_comm :: "'c comm_state"

datatype bully_event =
    Deliver wrapped_message | AliveOffered | AliveGivenUp | AliveTaken | ElectionTimeout | Handover

definition NewBullyCoordinatorElector :: "'c tss_env \<Rightarrow> session_id \<Rightarrow> 'c comm_state \<Rightarrow> 'c bully" where
  "NewBullyCoordinatorElector E sessionID c =
     \<lparr>by_sessionID = sessionID, by_hostID = te_hostID E, by_sortedPeers = [], by_coordinator = te_hostID E,
      by_electionChan = False, by_listener = Listening, by_pc = InLoop, by_comm = c\<rparr>"

text \<open>\<open>elect\<close> up to its \<open>select\<close>.\<close>

fun send_elections :: "'c tss_env \<Rightarrow> session_id \<Rightarrow> peer_id list \<Rightarrow> peer_id \<Rightarrow> peer_id list \<Rightarrow> 'c comm_state \<Rightarrow> 'c comm_state" where
  "send_elections E sid sortedPeers hostID [] c = c"
| "send_elections E sid sortedPeers hostID (p # ps) c =
     send_elections E sid sortedPeers hostID ps
       (if isPeerIDHigher sortedPeers p hostID then snd (te_broadcast E [p] [] CoordinatorElectionMsg sid c) else c)"

definition elect :: "'c tss_env \<Rightarrow> 'c bully \<Rightarrow> 'c bully" where
  "elect E b = b\<lparr>by_comm := send_elections E (by_sessionID b) (by_sortedPeers b) (by_hostID b) (by_sortedPeers b) (by_comm b),
     by_pc := InElect\<rparr>"

definition elect_timeout :: "'c tss_env \<Rightarrow> 'c bully \<Rightarrow> 'c bully" where
  "elect_timeout E b =
     b\<lparr>by_coordinator := setCoordinator (by_sortedPeers b) (by_hostID b) (by_hostID b) (by_coordinator b),
       by_comm := snd (te_broadcast E (by_sortedPeers b) [] CoordinatorSelectMsg (by_sessionID b) (by_comm b)),
       by_pc := InLoop\<rparr>"

text \<open>\<open>Coordinator\<close> subscribes, sorts the candidates and starts the goroutines.\<close>

definition bully_begin :: "'c tss_env \<Rightarrow> (message_type \<Rightarrow> 'c comm_state \<Rightarrow> 'c comm_state) \<Rightarrow> peer_id list \<Rightarrow> 'c bully \<Rightarrow> 'c bully" where
  "bully_begin E subscribe peers b =
     elect E (b\<lparr>by_comm := fold subscribe [CoordinatorPingMsg, CoordinatorElectionMsg, CoordinatorAliveMsg,
          CoordinatorPingResponseMsg, CoordinatorSelectMsg, CoordinatorLeaveMsg] (by_comm b),
        by_sortedPeers := GetPeerIDs (SortPeersForSession (te_keccak E) (te_pretty E) peers (by_sessionID b))\<rparr>)"

definition listen_message :: "'c tss_env \<Rightarrow> wrapped_message \<Rightarrow> 'c bully \<Rightarrow> 'c bully" where
  "listen_message E msg b =
     (if wm_MessageType msg = CoordinatorAliveMsg then
        (if isPeerIDHigher (by_sortedPeers b) (by_hostID b) (wm_From msg)
         then (if by_electionChan b then b\<lparr>by_listener := OfferAlive\<rparr> else b\<lparr>by_electionChan := True\<rparr>)
         else b)
      else if wm_MessageType msg = CoordinatorSelectMsg then b\<lparr>by_listener := HandingOver msg\<rparr>
      else if wm_MessageType msg = CoordinatorElectionMsg then b\<lparr>by_listener := HandingOver msg\<rparr>
      else if wm_MessageType msg = CoordinatorPingResponseMsg then b\<lparr>by_listener := BlockedOnPing\<rparr>
      else if wm_MessageType msg = CoordinatorPingMsg then
        b\<lparr>by_comm := snd (te_broadcast E [wm_From msg] [] CoordinatorPingResponseMsg (by_sessionID b) (by_comm b))\<rparr>
      else b)"

definition coordination_message :: "'c tss_env \<Rightarrow> wrapped_message \<Rightarrow> 'c bully \<Rightarrow> 'c bully" where
  "coordination_message E msg b =
     (if wm_MessageType msg = CoordinatorElectionMsg \<and> \<not> isPeerIDHigher (by_sortedPeers b) (wm_From msg) (by_hostID b)
      then elect E (b\<lparr>by_comm := snd (te_broadcast E [wm_From msg] [] CoordinatorAliveMsg (by_sessionID b) (by_comm b))\<rparr>)
      else if wm_MessageType msg = CoordinatorSelectMsg
      then b\<lparr>by_coordinator := setCoordinator (by_sortedPeers b) (by_hostID b) (wm_From msg) (by_coordinator b)\<rparr>
      else b)"

definition bully_event :: "'c tss_env \<Rightarrow> bully_event \<Rightarrow> 'c bully \<Rightarrow> 'c bully option" where
  "bully_event E e b =
     (case e of
        Deliver msg \<Rightarrow> if by_listener b = Listening then Some (listen_message E msg b) else None
      | AliveOffered \<Rightarrow> if by_listener b = OfferAlive \<and> \<not> by_electionChan b
          then Some (b\<lparr>by_listener := Listening, by_electionChan := True\<rparr>) else None
      | AliveGivenUp \<Rightarrow> if by_listener b = OfferAlive then Some (b\<lparr>by_listener := Listening\<rparr>) else None
      | AliveTaken \<Rightarrow> if by_pc b = InElect \<and> by_electionChan b
          then Some (b\<lparr>by_electionChan := False, by_pc := InLoop\<rparr>) else None
      | ElectionTimeout \<Rightarrow> if by_pc b = InElect then Some (elect_timeout E b) else None
      | Handover \<Rightarrow> (case by_listener b of
            HandingOver msg \<Rightarrow> if by_pc b = InLoop then Some (coordination_message E msg (b\<lparr>by_listener := Listening\<rparr>)) else None
          | _ \<Rightarrow> None))"

inductive bully_step :: "'c tss_env \<Rightarrow> 'c bully \<Rightarrow> 'c bully \<Rightarrow> bool" for E where
  bully_move: "bully_event E e b = Some b' \<Longrightarrow> bully_step E b b'"

inductive_simps bully_step_simps: "bully_step E b b'"

definition getCoordinator :: "'c bully \<Rightarrow> peer_id" where
  "getCoordinator b = by_coordinator b"

subsection \<open>The factory\<close>

datatype elector_type = Static | BullyElector | OtherElector int

datatype elector_kind = StaticCoordinatorElector session_id | BullyCoordinatorElector session_id | NilElector

text \<open>The factory: the electors of a relayer share one communication, apart from that of the sessions.\<close>

record 'c coordinator_elector_factory =
  ef_host :: peer_id
  ef_comm :: "'c comm_state"
  ef_config :: bully_config

definition NewCoordinatorElectorFactory :: "peer_id \<Rightarrow> bully_config \<Rightarrow> 'c coordinator_elector_factory" where
  "NewCoordinatorElectorFactory h config = \<lparr>ef_host = h, ef_comm = NewCommunication h, ef_config = config\<rparr>"

definition CoordinatorElector :: "session_id \<Rightarrow> elector_type \<Rightarrow> elector_kind" where
  "CoordinatorElector sessionID electorType =
     (case electorType of
        Static \<Rightarrow> StaticCoordinatorElector sessionID
      | BullyElector \<Rightarrow> BullyCoordinatorElector sessionID
      | OtherElector _ \<Rightarrow> NilElector)"

subsection \<open>The order\<close>

lemma scan_index_shift: "p \<notin> set qs \<Longrightarrow> scan_index p qs i acc = acc"
  by (induction qs arbitrary: i acc) auto

lemma scan_index_nth: "distinct qs \<Longrightarrow> j < length qs \<Longrightarrow> scan_index (qs ! j) qs i acc = i + j"
proof (induction qs arbitrary: i acc j)
  case (Cons q qs)
  show ?case
  proof (cases j)
    case 0
    with Cons.prems show ?thesis by (simp add: scan_index_shift)
  next
    case (Suc k)
    with Cons.prems Cons.IH [of k "i + 1"] show ?thesis by simp
  qed
qed simp

abbreviation index_of :: "peer_id list \<Rightarrow> peer_id \<Rightarrow> nat" where
  "index_of sortedPeers p \<equiv> scan_index p sortedPeers 0 0"

lemma index_of_inj:
  assumes "distinct ps" "p \<in> set ps" "q \<in> set ps" "index_of ps p = index_of ps q"
  shows "p = q"
  using assms by (metis scan_index_nth in_set_conv_nth add_0)

lemma index_of_nth: "distinct ps \<Longrightarrow> p \<in> set ps \<Longrightarrow> index_of ps p < length ps \<and> ps ! index_of ps p = p"
  by (metis scan_index_nth in_set_conv_nth add_0)

subsection \<open>Choosing a leader\<close>

text \<open>
  What a session relies on when it asks an elector: among the peers that take part (\<open>fit\<close>), the one
  of highest rank is chosen, so relayers that consider the same peers pick the same one.
\<close>

locale leader_choice =
  fixes weight :: "peer_id \<Rightarrow> 'r::linorder" and pick :: "peer_id list \<Rightarrow> peer_id" and fit :: "peer_id list \<Rightarrow> bool"
  assumes chosen_in: "fit ps \<Longrightarrow> pick ps \<in> set ps"
    and chosen_max: "fit ps \<Longrightarrow> p \<in> set ps \<Longrightarrow> weight p \<le> weight (pick ps)"
begin

lemma choice_agreement:
  assumes "fit ps" "fit qs" "set ps = set qs" "inj_on weight (set ps)"
  shows "pick ps = pick qs"
proof -
  have "weight (pick ps) = weight (pick qs)"
    using assms(1-3) chosen_in chosen_max by (metis order_antisym)
  then show ?thesis using assms chosen_in by (metis inj_on_def)
qed

lemma choice_top:
  assumes "fit ps" "inj_on weight (set ps)" "t \<in> set ps" "\<And>p. p \<in> set ps \<Longrightarrow> weight p \<le> weight t"
  shows "pick ps = t"
  using assms chosen_in chosen_max by (metis inj_on_def order_antisym)

end

interpretation static_choice: leader_choice "session_key k pr sid" "static_Coordinator k pr sid" "\<lambda>ps. ps \<noteq> []"
  for k :: "bytes \<Rightarrow> bytes" and pr :: "peer_id \<Rightarrow> string" and sid :: session_id
proof
  fix ps :: "peer_id list" assume ne: "ps \<noteq> []"
  have m: "mset (sorted_ids k pr sid ps) = mset ps" by (rule rank.sort_perm)
  with ne have "sorted_ids k pr sid ps \<noteq> []" by auto
  with ne show "static_Coordinator k pr sid ps \<in> set ps"
    using hd_in_mset_eq [OF m] by (simp add: static_Coordinator_hd)
  fix p assume "p \<in> set ps"
  with ne show "session_key k pr sid p \<le> session_key k pr sid (static_Coordinator k pr sid ps)"
    using rank.sort_hd_max [of p ps k pr sid] by (simp add: static_Coordinator_hd)
qed

text \<open>What a relayer ends up with that elected itself and then took the select messages of the others.\<close>

definition bully_choice :: "peer_id list \<Rightarrow> peer_id list \<Rightarrow> peer_id" where
  "bully_choice sortedPeers ps =
     fold (setCoordinator sortedPeers (hd ps)) (tl ps) (setCoordinator sortedPeers (hd ps) (hd ps) (hd ps))"

lemma fold_setCoordinator:
  assumes "distinct cands" and "h \<notin> set qs" and "set qs \<subseteq> set cands" and "c \<in> set cands"
  shows "fold (setCoordinator cands h) qs c \<in> insert c (set qs) \<and>
    (\<forall>p\<in>insert c (set qs). index_of cands (fold (setCoordinator cands h) qs c) \<le> index_of cands p)"
  using assms(2-)
proof (induction qs arbitrary: c)
  case (Cons q qs)
  let ?c = "setCoordinator cands h q c"
  have c: "?c \<in> {c, q}" "index_of cands ?c \<le> index_of cands c" "index_of cands ?c \<le> index_of cands q"
    using Cons.prems by (auto simp: setCoordinator_def isPeerIDHigher_def)
  with Cons.prems have "?c \<in> set cands" by auto
  from Cons.IH [OF _ _ this] Cons.prems c show ?case by fastforce
qed simp

interpretation bully_choice: leader_choice "\<lambda>p. - int (index_of cands p)" "bully_choice cands"
  "\<lambda>ps. ps \<noteq> [] \<and> distinct ps \<and> set ps \<subseteq> set cands \<and> distinct cands"
  for cands
proof
  fix ps assume fit: "ps \<noteq> [] \<and> distinct ps \<and> set ps \<subseteq> set cands \<and> distinct cands"
  then obtain h qs where ps: "ps = h # qs" by (cases ps) auto
  with fit have h: "h \<notin> set qs" "set qs \<subseteq> set cands" "h \<in> set cands" "distinct cands" by auto
  note f = fold_setCoordinator [OF h(4,1-3)]
  have s: "bully_choice cands ps = fold (setCoordinator cands h) qs h"
    by (simp add: bully_choice_def ps setCoordinator_def)
  with f show "bully_choice cands ps \<in> set ps" by (simp add: ps)
  fix p assume "p \<in> set ps"
  with f s show "- int (index_of cands p) \<le> - int (index_of cands (bully_choice cands ps))" by (auto simp: ps)
qed

fun bully_run :: "'c tss_env \<Rightarrow> bully_event list \<Rightarrow> 'c bully \<Rightarrow> 'c bully option" where
  "bully_run E [] b = Some b"
| "bully_run E (e # es) b = (case bully_event E e b of None \<Rightarrow> None | Some b' \<Rightarrow> bully_run E es b')"

lemma bully_run_append:
  "bully_run E (xs @ ys) b = (case bully_run E xs b of None \<Rightarrow> None | Some b' \<Rightarrow> bully_run E ys b')"
  by (induction xs arbitrary: b) (auto split: option.split)

definition bully_message :: "message_type \<Rightarrow> session_id \<Rightarrow> peer_id \<Rightarrow> wrapped_message" where
  "bully_message mt sid from = \<lparr>wm_MessageType = mt, wm_SessionID = sid, wm_Payload = [], wm_From = from\<rparr>"

lemma bully_message_type [simp]: "wm_MessageType (bully_message mt sid p) = mt" "wm_From (bully_message mt sid p) = p"
  by (simp_all add: bully_message_def)

lemma select_run:
  assumes "by_listener b = Listening" and "by_pc b = InLoop"
  shows "bully_run E [Deliver (bully_message CoordinatorSelectMsg sid q), Handover] b =
    Some (b\<lparr>by_coordinator := setCoordinator (by_sortedPeers b) (by_hostID b) q (by_coordinator b)\<rparr>)"
  using assms
  by (simp add: bully_event_def listen_message_def coordination_message_def message_type_defs)

lemma selects_run:
  assumes "by_listener b = Listening" and "by_pc b = InLoop"
  shows "bully_run E (concat (map (\<lambda>q. [Deliver (bully_message CoordinatorSelectMsg sid q), Handover]) qs)) b =
    Some (b\<lparr>by_coordinator := fold (setCoordinator (by_sortedPeers b) (by_hostID b)) qs (by_coordinator b)\<rparr>)"
  using assms
proof (induction qs arbitrary: b)
  case (Cons q qs)
  let ?b = "b\<lparr>by_coordinator := setCoordinator (by_sortedPeers b) (by_hostID b) q (by_coordinator b)\<rparr>"
  have "bully_run E (concat (map (\<lambda>q. [Deliver (bully_message CoordinatorSelectMsg sid q), Handover]) (q # qs))) b =
      bully_run E (concat (map (\<lambda>q. [Deliver (bully_message CoordinatorSelectMsg sid q), Handover]) qs)) ?b"
    using select_run [OF Cons.prems, of E sid q] by (simp only: list.map concat.simps bully_run_append option.case)
  with Cons.IH [of ?b] Cons.prems show ?case by simp
qed simp

text \<open>The rank by index is the rank by session hash.\<close>

lemma index_of_sorted:
  assumes "distinct ps" and "inj_on (session_key k pr sid) (set ps)" and "p \<in> set ps" "t \<in> set ps"
    and "session_key k pr sid p \<le> session_key k pr sid t"
  shows "index_of (sorted_ids k pr sid ps) t \<le> index_of (sorted_ids k pr sid ps) p"
proof (rule ccontr)
  let ?xs = "sorted_ids k pr sid ps"
  assume lt: "\<not> index_of ?xs t \<le> index_of ?xs p"
  have m: "mset ?xs = mset ps" by (rule rank.sort_perm)
  have d: "distinct ?xs" and pt: "p \<in> set ?xs" "t \<in> set ?xs"
    using assms(1,3,4) mset_eq_distinct [OF m] mset_eq_set [OF m] by simp_all
  have "sorted_wrt (\<lambda>a b. session_key k pr sid b \<le> session_key k pr sid a) ?xs" by (rule rank.sort_ordered)
  then have "session_key k pr sid (?xs ! index_of ?xs t) \<le> session_key k pr sid (?xs ! index_of ?xs p)"
    by (rule sorted_wrt_nth_less) (use lt index_of_nth [OF d pt(2)] in simp_all)
  then have "session_key k pr sid t \<le> session_key k pr sid p"
    using index_of_nth [OF d pt(1)] index_of_nth [OF d pt(2)] by simp
  with assms(5) have "session_key k pr sid t = session_key k pr sid p" by simp
  with assms(2-4) have "t = p" by (simp add: inj_on_eq_iff)
  with lt show False by simp
qed

lemma bully_choice_static:
  assumes "distinct ps" and "inj_on (session_key k pr sid) (set ps)" and "distinct (h # qs)" and "set (h # qs) \<subseteq> set ps"
  shows "bully_choice (sorted_ids k pr sid ps) (h # qs) = static_Coordinator k pr sid (h # qs)"
proof -
  let ?xs = "sorted_ids k pr sid ps" and ?t = "static_Coordinator k pr sid (h # qs)"
  have m: "mset ?xs = mset ps" by (rule rank.sort_perm)
  have d: "distinct ?xs" "set ?xs = set ps" using assms(1) mset_eq_distinct [OF m] mset_eq_set [OF m] by simp_all
  have fit: "h # qs \<noteq> [] \<and> distinct (h # qs) \<and> set (h # qs) \<subseteq> set ?xs \<and> distinct ?xs" using assms(3,4) d by simp
  have t: "?t \<in> set (h # qs)" by (rule static_choice.chosen_in) simp
  have "inj_on (\<lambda>p. - int (index_of ?xs p)) (set (h # qs))"
    using assms(4) d index_of_inj [OF d(1)] by (auto simp: inj_on_def)
  moreover have "- int (index_of ?xs p) \<le> - int (index_of ?xs ?t)" if "p \<in> set (h # qs)" for p
  proof -
    have "session_key k pr sid p \<le> session_key k pr sid ?t" by (rule static_choice.chosen_max [OF _ that]) simp
    with index_of_sorted [OF assms(1,2), of p ?t] that t assms(4) show ?thesis by auto
  qed
  ultimately show ?thesis by (intro bully_choice.choice_top [OF fit _ t])
qed

subsection \<open>Properties\<close>

text \<open>C34 (bully_elects_highest): a relayer whose own election ends by the timeout and that then takes the
  select messages of the other relayers that are up answers the highest ranked relayer among those
  and itself, which is the one the static elector would choose among them.\<close>

theorem bully_elects_highest:
  assumes "distinct peers" and "inj_on (session_key (te_keccak E) (te_pretty E) sid) (set peers)"
    and "distinct (te_hostID E # up)" and "set (te_hostID E # up) \<subseteq> set peers"
  shows "\<exists>b. bully_run E (ElectionTimeout # concat (map (\<lambda>q. [Deliver (bully_message CoordinatorSelectMsg sid q), Handover]) up))
      (bully_begin E subscribe peers (NewBullyCoordinatorElector E sid c)) = Some b \<and>
    getCoordinator b = static_Coordinator (te_keccak E) (te_pretty E) sid (te_hostID E # up)"
proof -
  let ?b0 = "bully_begin E subscribe peers (NewBullyCoordinatorElector E sid c)" and ?h = "te_hostID E"
  let ?xs = "sorted_ids (te_keccak E) (te_pretty E) sid peers"
  have b0: "by_pc ?b0 = InElect" "by_listener ?b0 = Listening" "by_sortedPeers ?b0 = ?xs" "by_hostID ?b0 = ?h" "by_coordinator ?b0 = ?h"
    by (simp_all add: bully_begin_def NewBullyCoordinatorElector_def elect_def sorted_ids_def)
  let ?b1 = "elect_timeout E ?b0"
  have b1: "by_listener ?b1 = Listening" "by_pc ?b1 = InLoop" "by_sortedPeers ?b1 = ?xs" "by_hostID ?b1 = ?h"
    "by_coordinator ?b1 = setCoordinator ?xs ?h ?h ?h"
    by (simp_all add: elect_timeout_def b0)
  have "bully_event E ElectionTimeout ?b0 = Some ?b1" by (simp add: bully_event_def b0)
  moreover have "fold (setCoordinator ?xs ?h) up (setCoordinator ?xs ?h ?h ?h) = bully_choice ?xs (?h # up)"
    by (simp add: bully_choice_def)
  ultimately show ?thesis
    using selects_run [OF b1(1,2), of E sid up] bully_choice_static [OF assms] by (simp add: b1 getCoordinator_def)
qed

text \<open>Fact (elections_end_by_timeout): an alive message from a higher ranked relayer, the answer an election
  waits for, is dropped, because the order of the two peers is compared the wrong way round.  So as
  long as only higher ranked relayers send alive messages, no election ends by one.\<close>

theorem elections_end_by_timeout:
  assumes "\<not> by_electionChan b" and "by_listener b \<noteq> OfferAlive"
    and "list_all (\<lambda>e. case e of Deliver m \<Rightarrow> wm_MessageType m = CoordinatorAliveMsg \<longrightarrow>
           isPeerIDHigher (by_sortedPeers b) (wm_From m) (by_hostID b) | _ \<Rightarrow> True) es"
    and "bully_run E es b = Some b'"
  shows "AliveTaken \<notin> set es \<and> \<not> by_electionChan b'"
  using assms
proof (induction es arbitrary: b)
  case (Cons e es)
  from Cons.prems(4) obtain b1 where b1: "bully_event E e b = Some b1" "bully_run E es b1 = Some b'"
    by (auto split: option.splits)
  have "\<not> by_electionChan b1 \<and> by_listener b1 \<noteq> OfferAlive \<and> by_sortedPeers b1 = by_sortedPeers b \<and> by_hostID b1 = by_hostID b \<and> e \<noteq> AliveTaken"
    using Cons.prems(1-3) b1(1)
    by (auto simp: bully_event_def listen_message_def coordination_message_def elect_def elect_timeout_def isPeerIDHigher_def
        split: bully_event.splits listener.splits if_splits)
  with Cons.IH [of b1] Cons.prems(3) b1(2) show ?case by auto
qed simp

text \<open>Fact (unknown_peer_elected): a peer that is not a candidate, for example the one excluded because it
  failed as coordinator, counts as ranked first: its select message displaces every coordinator but
  the first ranked.\<close>

theorem unknown_peer_elected:
  assumes "by_listener b = Listening" and "by_pc b = InLoop" and "p \<notin> set (by_sortedPeers b)"
    and "0 < index_of (by_sortedPeers b) (by_coordinator b)"
  shows "\<exists>b'. bully_run E [Deliver (bully_message CoordinatorSelectMsg sid p), Handover] b = Some b' \<and> getCoordinator b' = p"
  using select_run [OF assms(1,2), of E sid p] assms(3,4)
  by (simp add: getCoordinator_def setCoordinator_def isPeerIDHigher_def scan_index_shift)

text \<open>Fact (ping_response_blocks): one ping response makes the elector deaf: the listener waits for a reader
  of \<open>pingChan\<close> that does not exist, and from then on the elector can only keep its coordinator or
  elect itself.\<close>

theorem ping_response_blocks:
  assumes "by_listener b = Listening"
    and "bully_event E (Deliver (bully_message CoordinatorPingResponseMsg sid p)) b = Some b1" and "(bully_step E)\<^sup>*\<^sup>* b1 b2"
  shows "by_listener b2 = BlockedOnPing \<and> by_hostID b2 = by_hostID b \<and> getCoordinator b2 \<in> {getCoordinator b, by_hostID b}"
  using assms(3)
proof (induction rule: rtranclp_induct)
  case base
  then show ?case using assms(1,2)
    by (auto simp: bully_event_def listen_message_def message_type_defs getCoordinator_def)
next
  case (step b2 b3)
  from step(2) obtain e where "bully_event E e b2 = Some b3" by (auto simp: bully_step_simps)
  with step(3) show ?case
    by (auto simp: bully_event_def elect_timeout_def getCoordinator_def setCoordinator_def split: bully_event.splits if_splits)
qed

text \<open>Fact (reelection_demotes): an election message of a lower ranked peer makes a relayer elect itself even
  when it had already accepted a higher ranked coordinator.\<close>

theorem reelection_demotes:
  assumes "by_listener b = Listening" and "by_pc b = InLoop" and "\<not> isPeerIDHigher (by_sortedPeers b) q (by_hostID b)"
  shows "\<exists>b'. bully_run E [Deliver (bully_message CoordinatorElectionMsg sid q), Handover, ElectionTimeout] b = Some b' \<and>
    getCoordinator b' = by_hostID b"
  using assms
  by (simp add: bully_event_def listen_message_def coordination_message_def message_type_defs elect_def elect_timeout_def
      getCoordinator_def setCoordinator_def)

subsection \<open>Witnesses\<close>

theorem bully_elects_highest_witness:
  "\<exists>b. bully_run sample_env (ElectionTimeout # concat (map (\<lambda>q. [Deliver (bully_message CoordinatorSelectMsg ''s'' q), Handover]) [''aaaaaaa2'']))
      (bully_begin sample_env (\<lambda>mt c. c) (te_peerstore sample_env) (NewBullyCoordinatorElector sample_env ''s'' (NewCommunication ''aaaaaaa1''))) = Some b \<and>
    getCoordinator b = static_Coordinator (\<lambda>b. b) (\<lambda>p. p) ''s'' [''aaaaaaa1'', ''aaaaaaa2'']"
proof -
  have "inj_on (session_key (te_keccak sample_env) (te_pretty sample_env) ''s'') (set (te_peerstore sample_env))"
    using session_key_example by (auto simp: inj_on_def)
  from bully_elects_highest [OF _ this, of "[''aaaaaaa2'']" "\<lambda>mt c. c" "NewCommunication ''aaaaaaa1''"] show ?thesis by simp
qed

definition sample_bully :: "nat bully" where
  "sample_bully = \<lparr>by_sessionID = ''s'', by_hostID = ''b'', by_sortedPeers = [''a'', ''b'', ''c''], by_coordinator = ''b'',
     by_electionChan = False, by_listener = Listening, by_pc = InLoop, by_comm = NewCommunication ''b''\<rparr>"

theorem elections_end_by_timeout_witness:
  "\<exists>b'. bully_run sample_env [Deliver (bully_message CoordinatorAliveMsg ''s'' ''a''), ElectionTimeout] (sample_bully\<lparr>by_pc := InElect\<rparr>) = Some b' \<and>
     \<not> by_electionChan b'"
proof -
  let ?b = "sample_bully\<lparr>by_pc := InElect\<rparr>" and ?es = "[Deliver (bully_message CoordinatorAliveMsg ''s'' ''a''), ElectionTimeout]"
  obtain b' where 1: "bully_run sample_env ?es ?b = Some b'"
    by (simp add: bully_event_def listen_message_def sample_bully_def isPeerIDHigher_def)
  have "AliveTaken \<notin> set ?es \<and> \<not> by_electionChan b'"
    by (rule elections_end_by_timeout [OF _ _ _ 1]) (simp_all add: sample_bully_def isPeerIDHigher_def)
  with 1 show ?thesis by blast
qed

theorem unknown_peer_elected_witness:
  "\<exists>b'. bully_run sample_env [Deliver (bully_message CoordinatorSelectMsg ''s'' ''zz''), Handover] sample_bully = Some b' \<and> getCoordinator b' = ''zz''"
  by (rule unknown_peer_elected) (simp_all add: sample_bully_def)

theorem ping_response_blocks_witness:
  "\<exists>b1. bully_event sample_env (Deliver (bully_message CoordinatorPingResponseMsg ''s'' ''a'')) sample_bully = Some b1 \<and> by_listener b1 = BlockedOnPing"
proof -
  let ?m = "bully_message CoordinatorPingResponseMsg ''s'' ''a''"
  obtain b1 where 1: "bully_event sample_env (Deliver ?m) sample_bully = Some b1"
    by (simp add: bully_event_def sample_bully_def)
  have "by_listener sample_bully = Listening" by (simp add: sample_bully_def)
  from ping_response_blocks [OF this 1 rtranclp.rtrancl_refl] 1 show ?thesis by blast
qed

theorem reelection_demotes_witness:
  "\<exists>b'. bully_run sample_env [Deliver (bully_message CoordinatorElectionMsg ''s'' ''c''), Handover, ElectionTimeout]
     (sample_bully\<lparr>by_coordinator := ''a''\<rparr>) = Some b' \<and> getCoordinator b' = ''b''"
  using reelection_demotes [of "sample_bully\<lparr>by_coordinator := ''a''\<rparr>" "''c''" sample_env "''s''"]
  by (simp add: sample_bully_def isPeerIDHigher_def)

end
