(* ===== verification/EnvConfig.thy ===== *)
theory EnvConfig
  imports RelayerConfig Json "HOL-Library.AList" "HOL-Library.Sublist"
begin

text \<open>
  Where the configuration comes from: \<open>tss_util/tss_config/env.go\<close> (environment variables mounted into
  nested maps and read back as JSON), \<open>tss_util/tss_config/config.go\<close> (shared configuration, merging of
  the chains) and the part of \<open>service/tss_run.go\<close> that chooses the source.

  Parameters: the JSON text (\<open>json_text_ok\<close>), \<open>read_in\<close> and \<open>unmarshal\<close> (viper's \<open>ReadInConfig\<close> of a file,
  to a tree of settings, and \<open>Unmarshal\<close> of that into the raw configuration), \<open>http_get\<close>, \<open>set_defaults\<close> (\<open>defaults.Set\<close>), \<open>merge\<close> (\<open>mergo.Merge\<close>) and \<open>f64\<close>, the
  conversion of an \<open>int\<close> to the nearest \<open>float64\<close>.
\<close>

subsection \<open>Mounting the environment\<close>

datatype env_tree = EStr string | EMap "(string \<times> env_tree) list"

type_synonym env_map = "(string \<times> env_tree) list"

text \<open>
  The recursion mutates the inner map and then assigns it again; where a string stands in the way it
  returns.  \<open>strings.Split\<close> never gives an empty path.
\<close>

fun mountMap :: "env_map \<Rightarrow> string list \<Rightarrow> string \<Rightarrow> env_map" where
  "mountMap m [] v = m"
| "mountMap m [k] v = AList.update k (EStr v) m"
| "mountMap m (k # k' # ks) v =
     (case map_of m k of
        None \<Rightarrow> AList.update k (EMap (mountMap [] (k' # ks) v)) m
      | Some (EMap sub) \<Rightarrow> AList.update k (EMap (mountMap sub (k' # ks) v)) m
      | Some (EStr _) \<Rightarrow> m)"

fun strings_Contains :: "string \<Rightarrow> string \<Rightarrow> bool" where
  "strings_Contains [] pat = (pat = [])"
| "strings_Contains (c # s) pat = (prefix pat (c # s) \<or> strings_Contains s pat)"

text \<open>\<open>strings.SplitN(e, "=", 2)\<close>: the name and, where there is an equals sign, the value.\<close>

definition var_name :: "string \<Rightarrow> string" where
  "var_name e = takeWhile (\<lambda>c. c \<noteq> CHR ''='') e"

definition var_value :: "string \<Rightarrow> string" where
  "var_value e = tl (dropWhile (\<lambda>c. c \<noteq> CHR ''='') e)"

definition var_path :: "string \<Rightarrow> string list" where
  "var_path e = split_on CHR ''_'' (var_name e)"

definition env_prefix :: string where
  "env_prefix = ''SYG''"

fun mount_env :: "string list \<Rightarrow> env_map \<Rightarrow> env_map outcome" where
  "mount_env [] structure = Returns structure"
| "mount_env (e # es) structure =
     (if strings_Contains e env_prefix
      then (if CHR ''='' \<in> set e then mount_env es (mountMap structure (var_path e) (var_value e))
            else Panics ''index out of range'')
      else mount_env es structure)"

text \<open>\<open>MarshalIndent\<close> writes the keys of a map in order.\<close>

fun env_json :: "env_tree \<Rightarrow> json" where
  "env_json (EStr s) = JStr s"
| "env_json (EMap fs) = JObj (sort_key fst (map (\<lambda>(k, t). (k, env_json t)) fs))"

definition loadENVToJsonStructure :: "(json \<Rightarrow> bytes) \<Rightarrow> string list \<Rightarrow> bytes outcome" where
  "loadENVToJsonStructure print_json environ =
     (case mount_env environ [] of Panics s \<Rightarrow> Panics s | Returns structure \<Rightarrow> Returns (print_json (env_json (EMap structure))))"

subsection \<open>Reading the raw configuration\<close>

text \<open>A chain is a map to dynamic values; a number read from JSON is a \<open>float64\<close>, an \<open>int\<close> comes
  from elsewhere.\<close>

datatype dyn = DInt int | DJson json

type_synonym chain_config = "string \<rightharpoonup> dyn"

definition dyn_field :: "chain_config \<Rightarrow> string \<Rightarrow> dyn" where
  "dyn_field chain k = (case chain k of None \<Rightarrow> DJson JNull | Some v \<Rightarrow> v)"

definition dec_chain :: "chain_config decoder" where
  "dec_chain cur j = and_then (json_object j) (\<lambda>fs. Inr (\<lambda>k. map_option DJson (map_of (rev fs) k)))"

record raw_config =
  rwc_RelayerConfig :: raw_relayer_config
  rwc_ChainConfigs :: "chain_config list"

definition dec_ranged :: "int \<Rightarrow> int \<Rightarrow> int decoder" where
  "dec_ranged lo hi cur j = (case j of
      JNum n \<Rightarrow> if lo \<le> n \<and> n < hi then Inr n else Inl json_error
    | JNull \<Rightarrow> Inr cur | _ \<Rightarrow> Inl json_error)"

definition dec_topology_config :: "topology_configuration decoder" where
  "dec_topology_config cur j =
     and_then (json_object j) (\<lambda>fs.
     and_then (dec_field dec_string ''path'' (tcfg_Path cur) fs) (\<lambda>path. Inr \<lparr>tcfg_Path = path\<rparr>))"

definition dec_mpc_config :: "raw_mpc_config decoder" where
  "dec_mpc_config cur j =
     and_then (json_object j) (\<lambda>fs.
     and_then (dec_field dec_string ''keysharePath'' (rmc_KeysharePath cur) fs) (\<lambda>keyshare.
     and_then (dec_field dec_string ''frostKeysharePath'' (rmc_FrostKeysharePath cur) fs) (\<lambda>frost.
     and_then (dec_field dec_string ''key'' (rmc_Key cur) fs) (\<lambda>key.
     and_then (dec_field dec_string ''port'' (rmc_Port cur) fs) (\<lambda>port.
     and_then (dec_field dec_topology_config ''topologyConfiguration'' (rmc_Topology cur) fs) (\<lambda>topology.
     and_then (dec_field dec_string ''commHealthCheckInterval'' (rmc_CommHealthCheckInterval cur) fs) (\<lambda>health.
     Inr \<lparr>rmc_KeysharePath = keyshare, rmc_FrostKeysharePath = frost, rmc_Key = key, rmc_Port = port,
       rmc_Topology = topology, rmc_CommHealthCheckInterval = health\<rparr>)))))))"

definition dec_bully_config :: "raw_bully_config decoder" where
  "dec_bully_config cur j =
     and_then (json_object j) (\<lambda>fs.
     and_then (dec_field dec_string ''pingWaitTime'' (rbc_PingWaitTime cur) fs) (\<lambda>pingWait.
     and_then (dec_field dec_string ''pingBackOff'' (rbc_PingBackOff cur) fs) (\<lambda>backOff.
     and_then (dec_field dec_string ''pingInterval'' (rbc_PingInterval cur) fs) (\<lambda>interval.
     and_then (dec_field dec_string ''electionWaitTime'' (rbc_ElectionWaitTime cur) fs) (\<lambda>election.
     and_then (dec_field dec_string ''bullyWaitTime'' (rbc_BullyWaitTime cur) fs) (\<lambda>bully.
     Inr \<lparr>rbc_PingWaitTime = pingWait, rbc_PingBackOff = backOff, rbc_PingInterval = interval,
       rbc_ElectionWaitTime = election, rbc_BullyWaitTime = bully\<rparr>))))))"

definition dec_uploader_config :: "uploader_config decoder" where
  "dec_uploader_config cur j =
     and_then (json_object j) (\<lambda>fs.
     and_then (dec_field dec_string ''URL'' (up_URL cur) fs) (\<lambda>url.
     and_then (dec_field dec_string ''AuthToken'' (up_AuthToken cur) fs) (\<lambda>token.
     and_then (dec_field (dec_ranged 0 (2 ^ 64)) ''maxRetries'' (int (up_MaxRetries cur)) fs) (\<lambda>retries.
     and_then (dec_field dec_int ''maxElapsedTime'' (up_MaxElapsedTime cur) fs) (\<lambda>elapsed.
     Inr \<lparr>up_URL = url, up_AuthToken = token, up_MaxRetries = nat retries, up_MaxElapsedTime = elapsed\<rparr>)))))"

definition dec_relayer_config :: "raw_relayer_config decoder" where
  "dec_relayer_config cur j =
     and_then (json_object j) (\<lambda>fs.
     and_then (dec_field dec_string ''opentelemetryCollectorURL'' (rrc_OpenTelemetryCollectorURL cur) fs) (\<lambda>url.
     and_then (dec_field dec_string ''logLevel'' (rrc_LogLevel cur) fs) (\<lambda>level.
     and_then (dec_field dec_string ''logFile'' (rrc_LogFile cur) fs) (\<lambda>logFile.
     and_then (dec_field dec_string ''healthPort'' (rrc_HealthPort cur) fs) (\<lambda>port.
     and_then (dec_field dec_string ''env'' (rrc_Env cur) fs) (\<lambda>env.
     and_then (dec_field dec_string ''id'' (rrc_Id cur) fs) (\<lambda>i.
     and_then (dec_field dec_mpc_config ''mpcConfig'' (rrc_Mpc cur) fs) (\<lambda>mpc.
     and_then (dec_field dec_bully_config ''bullyConfig'' (rrc_Bully cur) fs) (\<lambda>bully.
     and_then (dec_field dec_uploader_config ''UploaderConfig'' (rrc_Uploader cur) fs) (\<lambda>uploader.
     Inr \<lparr>rrc_OpenTelemetryCollectorURL = url, rrc_LogLevel = level, rrc_LogFile = logFile, rrc_HealthPort = port,
       rrc_Env = env, rrc_Id = i, rrc_Mpc = mpc, rrc_Bully = bully, rrc_Uploader = uploader\<rparr>))))))))))"

definition dec_raw_config :: "raw_config decoder" where
  "dec_raw_config cur j =
     and_then (json_object j) (\<lambda>fs.
     and_then (dec_field dec_relayer_config ''relayer'' (rwc_RelayerConfig cur) fs) (\<lambda>relayer.
     and_then (dec_field (dec_list Map.empty dec_chain) ''domains'' (rwc_ChainConfigs cur) fs) (\<lambda>domains.
     Inr \<lparr>rwc_RelayerConfig = relayer, rwc_ChainConfigs = domains\<rparr>)))"

definition zero_raw_relayer :: raw_relayer_config where
  "zero_raw_relayer =
     \<lparr>rrc_OpenTelemetryCollectorURL = '''', rrc_LogLevel = '''', rrc_LogFile = '''', rrc_HealthPort = '''', rrc_Env = '''', rrc_Id = '''',
      rrc_Mpc = \<lparr>rmc_KeysharePath = '''', rmc_FrostKeysharePath = '''', rmc_Key = '''', rmc_Port = '''',
        rmc_Topology = \<lparr>tcfg_Path = ''''\<rparr>, rmc_CommHealthCheckInterval = ''''\<rparr>,
      rrc_Bully = \<lparr>rbc_PingWaitTime = '''', rbc_PingBackOff = '''', rbc_PingInterval = '''', rbc_ElectionWaitTime = '''',
        rbc_BullyWaitTime = ''''\<rparr>,
      rrc_Uploader = \<lparr>up_URL = '''', up_AuthToken = '''', up_MaxRetries = 0, up_MaxElapsedTime = 0\<rparr>\<rparr>"

definition zero_raw :: raw_config where
  "zero_raw = \<lparr>rwc_RelayerConfig = zero_raw_relayer, rwc_ChainConfigs = []\<rparr>"

text \<open>\<open>os.Getenv\<close>: the value of the first entry with the name, or the empty string.\<close>

fun os_Getenv :: "string list \<Rightarrow> string \<Rightarrow> string" where
  "os_Getenv [] key = ''''"
| "os_Getenv (e # es) key = (if CHR ''='' \<in> set e \<and> var_name e = key then var_value e else os_Getenv es key)"

definition loadFromEnv :: "(json \<Rightarrow> bytes) \<Rightarrow> (bytes \<Rightarrow> json option) \<Rightarrow> string list \<Rightarrow> raw_config result outcome" where
  "loadFromEnv print_json parse_json environ =
     (case loadENVToJsonStructure print_json environ of
        Panics s \<Rightarrow> Panics s
      | Returns data \<Rightarrow> Returns (
          and_then (parse_object parse_json data) (\<lambda>fs.
          and_then (dec_field dec_raw_config ''syg'' zero_raw fs) (\<lambda>rawConfig.
          case Validate (rwc_RelayerConfig rawConfig) of
            Some err \<Rightarrow> Inl err
          | None \<Rightarrow>
              (let rawDomainConfig = os_Getenv environ (env_prefix @ ''_CHAINS'') in
               if rawDomainConfig = '''' then Inr rawConfig
               else (case parse_json rawDomainConfig of
                       None \<Rightarrow> Inl json_error
                     | Some j \<Rightarrow> and_then (dec_list Map.empty dec_chain [] j) (\<lambda>cc. Inr (rawConfig\<lparr>rwc_ChainConfigs := cc\<rparr>))))))))"

subsection \<open>Merging with the shared configuration\<close>

record config =
  cf_RelayerConfig :: relayer_config
  cf_ChainConfigs :: "chain_config list"

fun compareDomainID :: "(int \<Rightarrow> int) \<Rightarrow> dyn \<Rightarrow> dyn \<Rightarrow> bool" where
  "compareDomainID f64 (DInt a) (DInt b) = (a = b)"
| "compareDomainID f64 (DInt a) (DJson (JNum b)) = (f64 a = b)"
| "compareDomainID f64 (DJson (JNum a)) (DInt b) = (a = f64 b)"
| "compareDomainID f64 (DJson (JNum a)) (DJson (JNum b)) = (a = b)"
| "compareDomainID f64 (DJson (JReal a)) (DJson (JReal b)) = (a = b)"
| "compareDomainID f64 _ _ = False"

fun findChainConfig :: "(int \<Rightarrow> int) \<Rightarrow> dyn \<Rightarrow> chain_config list \<Rightarrow> chain_config result" where
  "findChainConfig f64 i [] = Inl (Errorf ''missing chain'')"
| "findChainConfig f64 i (config # configs) =
     (if compareDomainID f64 i (dyn_field config ''id'') then Inr config else findChainConfig f64 i configs)"

text \<open>The loop over the local chains.  \<open>chain["id"] == 0\<close> compares with an \<open>int\<close>.\<close>

fun merge_chains ::
  "(int \<Rightarrow> int) \<Rightarrow> (chain_config \<Rightarrow> chain_config \<Rightarrow> chain_config result) \<Rightarrow> chain_config list \<Rightarrow> nat \<Rightarrow> chain_config list \<Rightarrow>
   chain_config list result" where
  "merge_chains f64 merge shared i [] = Inr []"
| "merge_chains f64 merge shared i (chain # others) =
     (if dyn_field chain ''id'' = DInt 0 \<or> dyn_field chain ''id'' = DJson JNull
      then Inl (Errorf (''chain id not configured for chain '' @ show_nat i))
      else if dyn_field chain ''type'' = DJson (JStr '''') \<or> dyn_field chain ''type'' = DJson JNull
      then Inl (Errorf ''chain type must be provided for every configured chain'')
      else and_then (findChainConfig f64 (dyn_field chain ''id'') shared) (\<lambda>chainConfig.
           and_then (merge chain chainConfig) (\<lambda>merged.
           and_then (merge_chains f64 merge shared (i + 1) others) (\<lambda>rest. Inr (merged # rest)))))"

definition processRawConfig ::
  "(raw_config \<Rightarrow> raw_config result) \<Rightarrow> (string \<Rightarrow> int option) \<Rightarrow> (nat \<Rightarrow> nat \<Rightarrow> nat \<Rightarrow> nat) \<Rightarrow> (int \<Rightarrow> int) \<Rightarrow>
   (chain_config \<Rightarrow> chain_config \<Rightarrow> chain_config result) \<Rightarrow> raw_config \<Rightarrow> chain_config list option \<Rightarrow> config result" where
  \<comment> \<open>the shared configuration holds nothing but chains\<close>
  "processRawConfig set_defaults parse_level scaled f64 merge rawConfig0 shared =
     and_then (set_defaults rawConfig0) (\<lambda>rawConfig.
     and_then (NewRelayerConfig parse_level scaled (rwc_RelayerConfig rawConfig)) (\<lambda>relayerConfig.
     case shared of
       None \<Rightarrow> Inr \<lparr>cf_RelayerConfig = relayerConfig, cf_ChainConfigs = rwc_ChainConfigs rawConfig\<rparr>
     | Some sharedChains \<Rightarrow>
         and_then (merge_chains f64 merge sharedChains 0 (rwc_ChainConfigs rawConfig)) (\<lambda>chainConfigs.
         Inr \<lparr>cf_RelayerConfig = relayerConfig, cf_ChainConfigs = chainConfigs\<rparr>)))"

definition GetSharedConfigFromNetwork :: "(bytes \<Rightarrow> json option) \<Rightarrow> bytes result \<Rightarrow> chain_config list result" where
  "GetSharedConfigFromNetwork parse_json response =
     and_then response (\<lambda>body.
     case parse_json body of
       None \<Rightarrow> Inl json_error
     | Some j \<Rightarrow> and_then (dec_raw_config zero_raw j) (\<lambda>raw. Inr (rwc_ChainConfigs raw)))"

text \<open>The two sources of a relayer's own configuration; \<open>process\<close> is \<open>processRawConfig\<close> with its parameters.\<close>

type_synonym process_config = "raw_config \<Rightarrow> chain_config list option \<Rightarrow> config result"

definition GetConfigFromENV ::
  "(json \<Rightarrow> bytes) \<Rightarrow> (bytes \<Rightarrow> json option) \<Rightarrow> process_config \<Rightarrow> string list \<Rightarrow> chain_config list option \<Rightarrow> config result outcome" where
  "GetConfigFromENV print_json parse_json process environ config =
     (case loadFromEnv print_json parse_json environ of
        Panics s \<Rightarrow> Panics s
      | Returns r \<Rightarrow> Returns (and_then r (\<lambda>rawConfig. process rawConfig config)))"

definition GetConfigFromFile ::
  "(string \<Rightarrow> json result) \<Rightarrow> (json \<Rightarrow> raw_config result) \<Rightarrow> process_config \<Rightarrow> string \<Rightarrow> chain_config list option \<Rightarrow> config result" where
  "GetConfigFromFile read_in unmarshal process path config =
     and_then (read_in path) (\<lambda>settings.
     and_then (unmarshal settings) (\<lambda>rawConfig. process rawConfig config))"

text \<open>The choice of \<open>Run\<close>: a shared configuration when there is a URL, then the environment or a file;
  \<open>panicOnError\<close> makes a panic of every error.\<close>

definition panicOnError :: "'a result \<Rightarrow> 'a outcome" where
  "panicOnError r = (case r of Inl err \<Rightarrow> Panics ''panicOnError'' | Inr x \<Rightarrow> Returns x)"

record config_source =
  cs_flag :: string
  cs_url :: string
  cs_response :: "bytes result"
  cs_environ :: "string list"
  cs_read_in :: "string \<Rightarrow> json result"
  cs_unmarshal :: "json \<Rightarrow> raw_config result"

definition load_config ::
  "(json \<Rightarrow> bytes) \<Rightarrow> (bytes \<Rightarrow> json option) \<Rightarrow> process_config \<Rightarrow> config_source \<Rightarrow> config outcome" where
  "load_config print_json parse_json process src =
     (case (if cs_url src = '''' then Returns None
            else panicOnError (map_sum id Some (GetSharedConfigFromNetwork parse_json (cs_response src)))) of
        Panics s \<Rightarrow> Panics s
      | Returns configuration \<Rightarrow>
          (if map ascii_lower (cs_flag src) = ''env''
           then (case GetConfigFromENV print_json parse_json process (cs_environ src) configuration of
                   Panics s \<Rightarrow> Panics s
                 | Returns r \<Rightarrow> panicOnError r)
           else panicOnError (GetConfigFromFile (cs_read_in src) (cs_unmarshal src) process (cs_flag src) configuration)))"

text \<open>The command line flags: \<open>BindFlags\<close> registers them, each with its default, and binds them to viper.\<close>

datatype flag_default = FlagString string | FlagBool bool

definition BindFlags :: "(string \<times> flag_default) list \<Rightarrow> (string \<times> flag_default) list" where
  "BindFlags flags = flags @
     [(''tss_config'', FlagString ''.''), (''blockstore'', FlagString ''./lvldbdata''), (''fresh'', FlagBool False),
      (''latest'', FlagBool False), (''keystore'', FlagString ''./keys'')]"

subsection \<open>Types of the values\<close>

text \<open>
  What Go's types promise of a configuration, as far as the model keeps them as integers: durations and
  the elapsed time are 64-bit numbers, the retries an unsigned one.
\<close>

definition uploader_typed :: "uploader_config \<Rightarrow> bool" where
  "uploader_typed u \<longleftrightarrow> up_MaxRetries u < 2 ^ 64 \<and> int64 (up_MaxElapsedTime u)"

definition config_typed :: "relayer_config \<Rightarrow> bool" where
  "config_typed c \<longleftrightarrow> int64 (mc_CommHealthCheckInterval (rc_Mpc c)) \<and>
     list_all int64 [bc_PingWaitTime (rc_Bully c), bc_PingBackOff (rc_Bully c), bc_PingInterval (rc_Bully c),
       bc_ElectionWaitTime (rc_Bully c), bc_BullyWaitTime (rc_Bully c)] \<and> uploader_typed (rc_Uploader c)"

lemma duration_loop_bound: "d \<le> 2 ^ 63 \<Longrightarrow> duration_loop scaled s d = Some n \<Longrightarrow> n \<le> 2 ^ 63"
proof (induction scaled s d rule: duration_loop.induct)
  case (1 scaled s d)
  show ?case
  proof (cases "s = []")
    case True
    with "1.prems" show ?thesis by (simp add: duration_loop.simps)
  next
    case False
    with "1.prems"(2) obtain w r where t: "duration_term scaled s = Some (w, r)"
      by (auto simp: duration_loop.simps [of scaled s d] split: option.splits)
    with "1.prems"(2) False have "(d + w) mod 2 ^ 64 \<le> 2 ^ 63" "duration_loop scaled r ((d + w) mod 2 ^ 64) = Some n"
      by (auto simp: duration_loop.simps [of scaled s d] Let_def split: if_splits)
    with "1.IH" [OF False t refl refl] show ?thesis by simp
  qed
qed

lemma ParseDuration_int64: "ParseDuration scaled s = Some d \<Longrightarrow> int64 d"
  using duration_loop_bound [of 0 scaled]
  by (fastforce simp: ParseDuration_def int64_def Let_def split: option.splits if_splits)

lemma parse_duration_int64: "parse_duration scaled what s = Inr d \<Longrightarrow> int64 d"
  by (auto simp: parse_duration_def dest: ParseDuration_int64 split: option.splits)

lemma parsers_int64:
  "parseMpcConfig scaled raw = Inr m \<Longrightarrow> int64 (mc_CommHealthCheckInterval m)"
  "parseBullyConfig scaled raw = Inr b \<Longrightarrow> list_all int64 [bc_PingWaitTime b, bc_PingBackOff b, bc_PingInterval b,
     bc_ElectionWaitTime b, bc_BullyWaitTime b]"
  by (auto simp: parseMpcConfig_def parseBullyConfig_def and_then_Inr dest: parse_duration_int64)

lemma NewRelayerConfig_typed:
  assumes "NewRelayerConfig parse_level scaled raw = Inr c" and "uploader_typed (rrc_Uploader raw)"
  shows "config_typed c"
proof -
  obtain m b where "parseMpcConfig scaled raw = Inr m" "parseBullyConfig scaled raw = Inr b"
    "rc_Mpc c = m" "rc_Bully c = b" "rc_Uploader c = rrc_Uploader raw"
    using assms(1) by (auto simp: NewRelayerConfig_def and_then_Inr split: option.splits)
  with parsers_int64 assms(2) show ?thesis unfolding config_typed_def by metis
qed

lemma NewRelayerConfig_mandatory:
  assumes "NewRelayerConfig parse_level scaled raw = Inr c"
  shows "mc_Key (rc_Mpc c) \<noteq> '''' \<and> tcfg_Path (mc_Topology (rc_Mpc c)) \<noteq> ''''"
proof -
  obtain m where m: "parseMpcConfig scaled raw = Inr m" "rc_Mpc c = m" and v: "Validate raw = None"
    using assms by (auto simp: NewRelayerConfig_def and_then_Inr split: option.splits)
  have "mc_Key m = rmc_Key (rrc_Mpc raw)" "mc_Topology m = rmc_Topology (rrc_Mpc raw)"
    using m(1) by (auto simp: parseMpcConfig_def and_then_Inr)
  with v m(2) show ?thesis by (auto simp: Validate_def split: if_splits)
qed

text \<open>A decoder keeps what it decodes into and produces values of a type \<open>P\<close>; so do fields and objects.\<close>

definition decodes :: "('a \<Rightarrow> bool) \<Rightarrow> 'a decoder \<Rightarrow> bool" where
  "decodes P d \<longleftrightarrow> (\<forall>cur j v. P cur \<longrightarrow> d cur j = Inr v \<longrightarrow> P v)"

lemma decodes_field: "decodes P d \<Longrightarrow> P cur \<Longrightarrow> dec_field d tag cur fs = Inr v \<Longrightarrow> P v"
  by (induction d tag cur fs rule: dec_field.induct) (auto simp: decodes_def split: if_splits sum.splits)

lemma decodes_int: "decodes int64 dec_int" "decodes (\<lambda>n. lo \<le> n \<and> n < hi) (dec_ranged lo hi)"
  by (auto simp: decodes_def dec_int_def dec_ranged_def int64_def split: json.splits if_splits)

lemma decodes_uploader: "decodes uploader_typed dec_uploader_config"
  unfolding decodes_def
proof (intro allI impI)
  fix cur j v assume cur: "uploader_typed cur" and "dec_uploader_config cur j = Inr v"
  then obtain fs url token retries elapsed where
    "dec_field (dec_ranged 0 (2 ^ 64)) ''maxRetries'' (int (up_MaxRetries cur)) fs = Inr retries"
    "dec_field dec_int ''maxElapsedTime'' (up_MaxElapsedTime cur) fs = Inr elapsed"
    "v = \<lparr>up_URL = url, up_AuthToken = token, up_MaxRetries = nat retries, up_MaxElapsedTime = elapsed\<rparr>"
    by (auto simp: dec_uploader_config_def and_then_Inr)
  with decodes_field [OF decodes_int(2) _ this(1)] decodes_field [OF decodes_int(1) _ this(2)] cur
  show "uploader_typed v" by (auto simp: uploader_typed_def)
qed

lemma decodes_raw: "decodes (\<lambda>raw. uploader_typed (rrc_Uploader (rwc_RelayerConfig raw))) dec_raw_config"
proof -
  have "decodes (\<lambda>raw. uploader_typed (rrc_Uploader raw)) dec_relayer_config"
    by (auto simp: decodes_def dec_relayer_config_def and_then_Inr intro: decodes_field [OF decodes_uploader])
  then show ?thesis
    by (auto simp: decodes_def [of _ dec_raw_config] dec_raw_config_def and_then_Inr
        intro: decodes_field [where P = "\<lambda>raw. uploader_typed (rrc_Uploader raw)"])
qed

lemma loadFromEnv_typed:
  assumes "loadFromEnv pj qj environ = Returns (Inr raw)"
  shows "uploader_typed (rrc_Uploader (rwc_RelayerConfig raw))"
proof -
  obtain fs raw0 where raw0: "dec_field dec_raw_config ''syg'' zero_raw fs = Inr raw0" "rwc_RelayerConfig raw = rwc_RelayerConfig raw0"
    using assms by (auto simp: loadFromEnv_def and_then_Inr Let_def split: outcome.splits option.splits if_splits)
  have "uploader_typed (rrc_Uploader (rwc_RelayerConfig zero_raw))"
    by (simp add: zero_raw_def zero_raw_relayer_def uploader_typed_def int64_def)
  from decodes_field [OF decodes_raw this raw0(1)] raw0(2) show ?thesis by simp
qed

subsection \<open>Looking up what was mounted\<close>

fun env_lookup :: "env_tree \<Rightarrow> string list \<Rightarrow> env_tree option" where
  "env_lookup t [] = Some t"
| "env_lookup (EStr s) (k # ks) = None"
| "env_lookup (EMap m) (k # ks) = (case map_of m k of None \<Rightarrow> None | Some t \<Rightarrow> env_lookup t ks)"

abbreviation env_at :: "env_map \<Rightarrow> string list \<Rightarrow> env_tree option" where
  "env_at m q \<equiv> env_lookup (EMap m) q"

lemma env_at_mounted:
  "p \<noteq> [] \<Longrightarrow> (\<And>q s. strict_prefix q p \<Longrightarrow> env_at m q \<noteq> Some (EStr s)) \<Longrightarrow> env_at (mountMap m p v) p = Some (EStr v)"
proof (induction m p v rule: mountMap.induct)
  case (2 m k v)
  show ?case by (simp add: AList.update_conv')
next
  case (3 m k k' ks v)
  have "map_of m k \<noteq> Some (EStr s)" for s using "3.prems"(2) [of "[k]" s] by (auto simp: strict_prefix_def)
  then consider "map_of m k = None" | sub where "map_of m k = Some (EMap sub)"
    by (metis env_tree.exhaust option.exhaust)
  then show ?case
  proof cases
    case 1
    have "env_at [] q \<noteq> Some (EStr s)" for q s by (cases q) auto
    with "3.IH"(1) [OF 1] 1 show ?thesis by (simp add: AList.update_conv')
  next
    case 2
    have "env_at sub q \<noteq> Some (EStr s)" if "strict_prefix q (k' # ks)" for q s
      using "3.prems"(2) [of "k # q" s] that 2 by auto
    with "3.IH"(2) [OF 2 refl] 2 show ?thesis by (simp add: AList.update_conv')
  qed
qed simp

lemma env_at_other:
  "\<not> prefix p q \<Longrightarrow> \<not> prefix q p \<Longrightarrow> env_at (mountMap m p v) q = env_at m q"
proof (induction m p v arbitrary: q rule: mountMap.induct)
  case (2 m k v)
  then show ?case by (cases q) (auto simp: AList.update_conv')
next
  case (3 m k k' ks v)
  obtain j js where q: "q = j # js" using "3.prems" by (cases q) auto
  have "env_at [] js = None" if "\<not> prefix js (k' # ks)" using that by (cases js) auto
  with 3 q show ?case by (auto simp: AList.update_conv' split: option.splits env_tree.splits)
qed simp

lemma env_at_strings:
  "env_at (mountMap m p v) q = Some (EStr s) \<Longrightarrow> q = p \<or> env_at m q = Some (EStr s)"
proof (induction m p v arbitrary: q rule: mountMap.induct)
  case (2 m k v)
  then show ?case by (cases q; cases "tl q") (auto simp: AList.update_conv' split: if_splits option.splits)
next
  case (3 m k k' ks v)
  then obtain j js where q: "q = j # js" by (cases q) auto
  have n: "env_at [] r \<noteq> Some (EStr s)" for r by (cases r) auto
  with 3 q show ?case
    by (auto simp: AList.update_conv' split: option.splits env_tree.splits if_splits)
qed simp

definition mounted :: "string list \<Rightarrow> string list" where
  "mounted environ = filter (\<lambda>e. strings_Contains e env_prefix) environ"

lemma mount_env_fold:
  "list_all (\<lambda>e. CHR ''='' \<in> set e) (mounted environ) \<Longrightarrow>
     mount_env environ m = Returns (fold (\<lambda>e m. mountMap m (var_path e) (var_value e)) (mounted environ) m)"
  by (induction environ m rule: mount_env.induct) (auto simp: mounted_def)

lemma mount_env_panics:
  "(\<exists>s. mount_env environ m = Panics s) \<longleftrightarrow> \<not> list_all (\<lambda>e. CHR ''='' \<in> set e) (mounted environ)"
  by (induction environ m rule: mount_env.induct) (auto simp: mounted_def)

lemma fold_mounted:
  assumes "distinct es" and "\<And>e e'. e \<in> set es \<union> old \<Longrightarrow> e' \<in> set es \<union> old \<Longrightarrow> prefix (var_path e) (var_path e') \<Longrightarrow> e = e'"
    and "set es \<inter> old = {}"
    and "\<And>e. e \<in> old \<Longrightarrow> env_at m (var_path e) = Some (EStr (var_value e))"
    and "\<And>q s. env_at m q = Some (EStr s) \<Longrightarrow> \<exists>e\<in>old. q = var_path e"
    and "e \<in> set es \<union> old"
  shows "env_at (fold (\<lambda>e m. mountMap m (var_path e) (var_value e)) es m) (var_path e) = Some (EStr (var_value e))"
  using assms
proof (induction es arbitrary: m old)
  case (Cons x es)
  let ?m = "mountMap m (var_path x) (var_value x)"
  have free: "env_at m q \<noteq> Some (EStr s)" if "strict_prefix q (var_path x)" for q s
  proof
    assume "env_at m q = Some (EStr s)"
    then obtain e where e: "e \<in> old" "q = var_path e" using Cons.prems(5) by blast
    then have "e = x" using Cons.prems(2) [of e x] that by (simp add: strict_prefix_def)
    with e Cons.prems(3) show False by auto
  qed
  have x: "env_at ?m (var_path x) = Some (EStr (var_value x))"
    by (rule env_at_mounted [OF _ free]) (simp_all add: var_path_def)
  have o: "env_at ?m (var_path e) = Some (EStr (var_value e))" if "e \<in> insert x old" for e
  proof (cases "e = x")
    case False
    with that have "e \<in> old" by simp
    moreover have "\<not> prefix (var_path x) (var_path e)" "\<not> prefix (var_path e) (var_path x)"
      using Cons.prems(2) [of x e] Cons.prems(2) [of e x] False \<open>e \<in> old\<close> by auto
    ultimately show ?thesis using Cons.prems(4) by (simp add: env_at_other)
  qed (simp add: x)
  have str: "\<exists>e\<in>insert x old. q = var_path e" if "env_at ?m q = Some (EStr s)" for q s
    using env_at_strings [OF that] Cons.prems(5) by blast
  have "env_at (fold (\<lambda>e m. mountMap m (var_path e) (var_value e)) es ?m) (var_path e) = Some (EStr (var_value e))"
  proof (rule Cons.IH [where old = "insert x old"])
    show "distinct es" "set es \<inter> insert x old = {}" "e \<in> set es \<union> insert x old" using Cons.prems(1,3,6) by auto
    show "e1 = e2" if "e1 \<in> set es \<union> insert x old" "e2 \<in> set es \<union> insert x old" "prefix (var_path e1) (var_path e2)" for e1 e2
      using Cons.prems(2) [of e1 e2] that by auto
  qed (rule o str; assumption)+
  then show ?case by simp
qed simp

lemma findChainConfig_find:
  "findChainConfig f64 i cs = (case find (\<lambda>s. compareDomainID f64 i (dyn_field s ''id'')) cs of
     None \<Rightarrow> Inl (Errorf ''missing chain'') | Some s \<Rightarrow> Inr s)"
  by (induction cs) auto

lemma merge_chains_all2:
  "merge_chains f64 merge shared i cs = Inr ms \<Longrightarrow>
     list_all2 (\<lambda>chain merged. \<exists>s. find (\<lambda>s. compareDomainID f64 (dyn_field chain ''id'') (dyn_field s ''id'')) shared = Some s \<and>
       merge chain s = Inr merged) cs ms"
proof (induction cs arbitrary: i ms)
  case (Cons chain cs)
  then obtain s merged rest where "findChainConfig f64 (dyn_field chain ''id'') shared = Inr s" "merge chain s = Inr merged"
    "merge_chains f64 merge shared (i + 1) cs = Inr rest" "ms = merged # rest"
    by (auto simp: and_then_Inr split: if_splits)
  with Cons.IH show ?case by (auto simp: findChainConfig_find split: option.splits)
qed simp

subsection \<open>Properties\<close>

text \<open>Fact (env_variables_found): every mounted environment variable is found, with its value, at the path its
  name spells, in whatever order the environment lists the variables, as long as no name continues another
  one.\<close>

theorem env_variables_found:
  assumes "distinct (mounted environ)" and "list_all (\<lambda>e. CHR ''='' \<in> set e) (mounted environ)"
    and "\<And>e e'. e \<in> set (mounted environ) \<Longrightarrow> e' \<in> set (mounted environ) \<Longrightarrow> prefix (var_path e) (var_path e') \<Longrightarrow> e = e'"
  shows "\<exists>st. mount_env environ [] = Returns st \<and>
    list_all (\<lambda>e. env_at st (var_path e) = Some (EStr (var_value e))) (mounted environ)"
proof -
  have "env_at [] q \<noteq> Some (EStr s)" for q s by (cases q) auto
  then have "env_at (fold (\<lambda>e m. mountMap m (var_path e) (var_value e)) (mounted environ) []) (var_path e) = Some (EStr (var_value e))"
    if "e \<in> set (mounted environ)" for e
    using assms(1,3) that by (intro fold_mounted [where old = "{}"]) auto
  then show ?thesis by (simp add: mount_env_fold [OF assms(2)] list_all_iff)
qed

text \<open>Fact (chains_merged): with a shared configuration, every local chain is merged with the first shared chain
  of the same id, in the order of the local chains, and a chain without a shared one is an error; the
  relayer's part comes from the local configuration alone.\<close>

theorem chains_merged:
  assumes "processRawConfig set_defaults parse_level scaled f64 merge raw0 (Some shared) = Inr c"
  shows "\<exists>raw. set_defaults raw0 = Inr raw \<and>
    NewRelayerConfig parse_level scaled (rwc_RelayerConfig raw) = Inr (cf_RelayerConfig c) \<and>
    list_all2 (\<lambda>chain merged. \<exists>s. find (\<lambda>s. compareDomainID f64 (dyn_field chain ''id'') (dyn_field s ''id'')) shared = Some s \<and>
       merge chain s = Inr merged) (rwc_ChainConfigs raw) (cf_ChainConfigs c)"
proof -
  obtain raw where "set_defaults raw0 = Inr raw"
    "NewRelayerConfig parse_level scaled (rwc_RelayerConfig raw) = Inr (cf_RelayerConfig c)"
    "merge_chains f64 merge shared 0 (rwc_ChainConfigs raw) = Inr (cf_ChainConfigs c)"
    using assms by (auto simp: processRawConfig_def and_then_Inr)
  then show ?thesis using merge_chains_all2 by blast
qed

text \<open>Fact (zero_chain_id): the id 0, which the check is there to refuse, is only refused as an \<open>int\<close>: the id 0 of a
  JSON configuration is a \<open>float64\<close> and passes.\<close>

theorem zero_chain_id:
  assumes "dyn_field chain ''type'' = DJson (JStr (c # cs))" and "dyn_field s ''id'' = DJson (JNum 0)"
    and "merge (chain(''id'' \<mapsto> DJson (JNum 0))) s = Inr merged"
  shows "merge_chains f64 merge [s] 0 [chain(''id'' \<mapsto> DJson (JNum 0))] = Inr [merged] \<and>
    merge_chains f64 merge [s] 0 [chain(''id'' \<mapsto> DInt 0)] = Inl (Errorf (''chain id not configured for chain '' @ show_nat 0))"
  using assms by (simp add: dyn_field_def)

lemma doc_variables:
  "var_path (''SYG_RELAYER_MPCCONFIG_KEY='' @ v) = [''SYG'', ''RELAYER'', ''MPCCONFIG'', ''KEY'']"
  "var_path (''SYG_RELAYER_MPCCONFIG_PORT='' @ v) = [''SYG'', ''RELAYER'', ''MPCCONFIG'', ''PORT'']"
  "var_path (''SYG_RELAYER_MPCCONFIG_TOPOLOGYCONFIGURATION_PATH='' @ v) =
     [''SYG'', ''RELAYER'', ''MPCCONFIG'', ''TOPOLOGYCONFIGURATION'', ''PATH'']"
  "var_value (''SYG_RELAYER_MPCCONFIG_KEY='' @ v) = v" "var_value (''SYG_RELAYER_MPCCONFIG_PORT='' @ v) = v"
  "var_value (''SYG_RELAYER_MPCCONFIG_TOPOLOGYCONFIGURATION_PATH='' @ v) = v"
  by (simp_all add: var_path_def var_name_def var_value_def)

definition doc_tree :: "string \<Rightarrow> string \<Rightarrow> string \<Rightarrow> env_map" where
  "doc_tree key port path = [(''SYG'', EMap [(''RELAYER'', EMap [(''MPCCONFIG'', EMap [(''KEY'', EStr key), (''PORT'', EStr port),
     (''TOPOLOGYCONFIGURATION'', EMap [(''PATH'', EStr path)])])])])]"

lemma doc_mount:
  "mount_env [''SYG_RELAYER_MPCCONFIG_KEY='' @ key, ''SYG_RELAYER_MPCCONFIG_PORT='' @ port,
      ''SYG_RELAYER_MPCCONFIG_TOPOLOGYCONFIGURATION_PATH='' @ path, ''HOME=/root''] [] = Returns (doc_tree key port path)"
proof -
  have c: "strings_Contains (''SYG'' @ s) env_prefix" for s by (simp add: env_prefix_def)
  have h: "\<not> strings_Contains ''HOME=/root'' env_prefix" by (simp add: env_prefix_def)
  show ?thesis
    using c [of "''_RELAYER_MPCCONFIG_KEY='' @ key"] c [of "''_RELAYER_MPCCONFIG_PORT='' @ port"]
      c [of "''_RELAYER_MPCCONFIG_TOPOLOGYCONFIGURATION_PATH='' @ path"] h doc_variables [simplified]
    by (simp add: doc_tree_def)
qed

lemma doc_json:
  "env_json (EMap (doc_tree key port path)) =
     JObj [(''SYG'', JObj [(''RELAYER'', JObj [(''MPCCONFIG'', JObj [(''KEY'', JStr key), (''PORT'', JStr port),
       (''TOPOLOGYCONFIGURATION'', JObj [(''PATH'', JStr path)])])])])]"
  by (simp add: doc_tree_def sort_key_def)

lemma loadFromEnv_relayer:
  assumes "loadENVToJsonStructure pj environ = Returns data" and "parse_object qj data = Inr fs"
    and "dec_field dec_raw_config ''syg'' zero_raw fs = Inr raw"
    and "Validate (rwc_RelayerConfig raw) = None" and "os_Getenv environ (env_prefix @ ''_CHAINS'') = []"
  shows "loadFromEnv pj qj environ = Returns (Inr raw)"
  using assms by (simp add: loadFromEnv_def)

lemma doc_decoded:
  "dec_field dec_raw_config ''syg'' zero_raw [(''SYG'', JObj [(''RELAYER'', JObj [(''MPCCONFIG'', JObj [(''KEY'', JStr key),
      (''PORT'', JStr port), (''TOPOLOGYCONFIGURATION'', JObj [(''PATH'', JStr path)])])])])] =
    Inr (zero_raw\<lparr>rwc_RelayerConfig := zero_raw_relayer\<lparr>rrc_Mpc :=
      (rrc_Mpc zero_raw_relayer)\<lparr>rmc_Key := key, rmc_Port := port, rmc_Topology := \<lparr>tcfg_Path = path\<rparr>\<rparr>\<rparr>\<rparr>)"
  by (simp add: ascii_letters dec_raw_config_def dec_relayer_config_def dec_mpc_config_def dec_topology_config_def dec_scalars
      zero_raw_def zero_raw_relayer_def)

text \<open>Fact (documented_env_example): the variable the documentation names, \<open>SYG_RELAYER_MPCCONFIG_PORT\<close>, sets
  the port of the multi party configuration, next to the two mandatory settings.\<close>

theorem documented_env_example:
  assumes "json_text_ok pj qj" and "key \<noteq> ''''" and "path \<noteq> ''''"
  shows "loadFromEnv pj qj [''SYG_RELAYER_MPCCONFIG_KEY='' @ key, ''SYG_RELAYER_MPCCONFIG_PORT='' @ port,
      ''SYG_RELAYER_MPCCONFIG_TOPOLOGYCONFIGURATION_PATH='' @ path, ''HOME=/root''] =
    Returns (Inr (zero_raw\<lparr>rwc_RelayerConfig := zero_raw_relayer\<lparr>rrc_Mpc :=
      (rrc_Mpc zero_raw_relayer)\<lparr>rmc_Key := key, rmc_Port := port, rmc_Topology := \<lparr>tcfg_Path = path\<rparr>\<rparr>\<rparr>\<rparr>))"
proof (rule loadFromEnv_relayer [OF _ _ doc_decoded])
  let ?env = "[''SYG_RELAYER_MPCCONFIG_KEY='' @ key, ''SYG_RELAYER_MPCCONFIG_PORT='' @ port,
      ''SYG_RELAYER_MPCCONFIG_TOPOLOGYCONFIGURATION_PATH='' @ path, ''HOME=/root'']"
  show "loadENVToJsonStructure pj ?env = Returns (pj (env_json (EMap (doc_tree key port path))))"
    unfolding loadENVToJsonStructure_def doc_mount by simp
  show "parse_object qj (pj (env_json (EMap (doc_tree key port path)))) =
      Inr [(''SYG'', JObj [(''RELAYER'', JObj [(''MPCCONFIG'', JObj [(''KEY'', JStr key), (''PORT'', JStr port),
        (''TOPOLOGYCONFIGURATION'', JObj [(''PATH'', JStr path)])])])])]"
    unfolding doc_json by (rule parse_object_print [OF assms(1)])
  show "os_Getenv ?env (env_prefix @ ''_CHAINS'') = []"
    by (simp add: env_prefix_def var_name_def)
qed (use assms in \<open>simp add: Validate_def\<close>)

text \<open>\<open>defaults.Set\<close> by the tags of the relayer's part; the chains have none.\<close>

definition with_defaults :: "raw_config \<Rightarrow> raw_config result" where
  "with_defaults raw = Inr (raw\<lparr>rwc_RelayerConfig := default_config (rwc_RelayerConfig raw)\<rparr>)"


subsection \<open>Instances\<close>

definition sample_chain :: chain_config where
  "sample_chain = [''id'' \<mapsto> DJson (JNum 1), ''type'' \<mapsto> DJson (JStr ''evm'')]"

definition sample_merge :: "chain_config \<Rightarrow> chain_config \<Rightarrow> chain_config result" where
  "sample_merge dst src = Inr (src ++ dst)"

definition sample_raw_chains :: raw_config where
  "sample_raw_chains = \<lparr>rwc_RelayerConfig = sample_wrapping_config, rwc_ChainConfigs = [sample_chain]\<rparr>"

lemma sample_processed:
  "\<exists>c. processRawConfig Inr (\<lambda>s. Some 1) (\<lambda>f u k. 0) (\<lambda>i. i) sample_merge sample_raw_chains
     (Some [[''id'' \<mapsto> DJson (JNum 1), ''name'' \<mapsto> DJson (JStr ''one'')]]) = Inr c"
  using sample_wrapping_accepted
  by (auto simp: processRawConfig_def sample_raw_chains_def sample_chain_def sample_merge_def dyn_field_def)

theorem env_variables_found_witness:
  "\<exists>st. mount_env [''SYG_A_B=1'', ''HOME=/root'', ''SYG_A_C=2''] [] = Returns st \<and>
     env_at st [''SYG'', ''A'', ''B''] = Some (EStr ''1'') \<and> env_at st [''SYG'', ''A'', ''C''] = Some (EStr ''2'')"
proof -
  have m: "mounted [''SYG_A_B=1'', ''HOME=/root'', ''SYG_A_C=2''] = [''SYG_A_B=1'', ''SYG_A_C=2'']"
    by (simp add: mounted_def env_prefix_def)
  have p: "var_path ''SYG_A_B=1'' = [''SYG'', ''A'', ''B'']" "var_path ''SYG_A_C=2'' = [''SYG'', ''A'', ''C'']"
    "var_value ''SYG_A_B=1'' = ''1''" "var_value ''SYG_A_C=2'' = ''2''"
    by (simp_all add: var_path_def var_name_def var_value_def)
  have "\<exists>st. mount_env [''SYG_A_B=1'', ''HOME=/root'', ''SYG_A_C=2''] [] = Returns st \<and>
      list_all (\<lambda>e. env_at st (var_path e) = Some (EStr (var_value e))) (mounted [''SYG_A_B=1'', ''HOME=/root'', ''SYG_A_C=2''])"
    by (rule env_variables_found) (auto simp: m p)
  then show ?thesis by (simp only: m p list.pred_inject simp_thms)
qed

lemma sample_env_config:
  "\<exists>c. GetConfigFromENV unary_print unary_parse (processRawConfig with_defaults (\<lambda>s. Some 1) (\<lambda>f u k. 0) (\<lambda>i. i) sample_merge)
     [''SYG_RELAYER_MPCCONFIG_KEY='' @ ''k'', ''SYG_RELAYER_MPCCONFIG_PORT='' @ '''',
      ''SYG_RELAYER_MPCCONFIG_TOPOLOGYCONFIGURATION_PATH='' @ ''t.json'', ''HOME=/root''] None = Returns (Inr c)"
proof -
  let ?raw = "zero_raw_relayer\<lparr>rrc_Mpc := (rrc_Mpc zero_raw_relayer)\<lparr>rmc_Key := ''k'', rmc_Port := '''', rmc_Topology := \<lparr>tcfg_Path = ''t.json''\<rparr>\<rparr>\<rparr>"
  have "\<exists>c. NewRelayerConfig (\<lambda>s. Some 1) (\<lambda>f u k. 0) (default_config ?raw) = Inr c \<and>
    rc_HealthPort c = 9001 \<and> mc_Port (rc_Mpc c) = 9000 \<and> rc_LogLevel c = 1 \<and> mc_Key (rc_Mpc c) = rmc_Key (rrc_Mpc ?raw) \<and>
    mc_CommHealthCheckInterval (rc_Mpc c) = 300 * 10 ^ 9 \<and>
    rc_Bully c = \<lparr>bc_PingWaitTime = 10 ^ 9, bc_PingBackOff = 10 ^ 9, bc_PingInterval = 10 ^ 9,
      bc_ElectionWaitTime = 2 * 10 ^ 9, bc_BullyWaitTime = 180 * 10 ^ 9\<rparr>"
    by (rule default_config_accepted) (simp_all add: zero_raw_relayer_def)
  then obtain rc where rc: "NewRelayerConfig (\<lambda>s. Some 1) (\<lambda>f u k. 0) (default_config ?raw) = Inr rc" by blast
  have "processRawConfig with_defaults (\<lambda>s. Some 1) (\<lambda>f u k. 0) (\<lambda>i. i) sample_merge (zero_raw\<lparr>rwc_RelayerConfig := ?raw\<rparr>) None =
      Inr \<lparr>cf_RelayerConfig = rc, cf_ChainConfigs = []\<rparr>"
    by (simp add: processRawConfig_def with_defaults_def zero_raw_def rc)
  moreover have "loadFromEnv unary_print unary_parse [''SYG_RELAYER_MPCCONFIG_KEY='' @ ''k'', ''SYG_RELAYER_MPCCONFIG_PORT='' @ '''',
      ''SYG_RELAYER_MPCCONFIG_TOPOLOGYCONFIGURATION_PATH='' @ ''t.json'', ''HOME=/root''] =
      Returns (Inr (zero_raw\<lparr>rwc_RelayerConfig := ?raw\<rparr>))"
    by (rule documented_env_example [OF json_text_ok_unary]) simp_all
  ultimately show ?thesis unfolding GetConfigFromENV_def by (simp only: outcome.case and_then_simps) blast
qed


theorem chains_merged_witness:
  "\<exists>c m. processRawConfig Inr (\<lambda>s. Some 1) (\<lambda>f u k. 0) (\<lambda>i. i) sample_merge sample_raw_chains
       (Some [[''id'' \<mapsto> DJson (JNum 1), ''name'' \<mapsto> DJson (JStr ''one'')]]) = Inr c \<and>
     cf_ChainConfigs c = [m] \<and> m ''name'' = Some (DJson (JStr ''one'')) \<and> m ''type'' = Some (DJson (JStr ''evm''))"
proof -
  obtain c where c: "processRawConfig Inr (\<lambda>s. Some 1) (\<lambda>f u k. 0) (\<lambda>i. i) sample_merge sample_raw_chains
       (Some [[''id'' \<mapsto> DJson (JNum 1), ''name'' \<mapsto> DJson (JStr ''one'')]]) = Inr c"
    using sample_processed by blast
  from chains_merged [OF this] obtain m where "cf_ChainConfigs c = [m]"
    "sample_merge sample_chain [''id'' \<mapsto> DJson (JNum 1), ''name'' \<mapsto> DJson (JStr ''one'')] = Inr m"
    by (auto simp: sample_raw_chains_def list_all2_Cons1 split: if_splits)
  with c show ?thesis by (auto simp: sample_merge_def sample_chain_def)
qed

theorem zero_chain_id_witness:
  "merge_chains (\<lambda>i. i) sample_merge [[''id'' \<mapsto> DJson (JNum 0)]] 0 [sample_chain(''id'' \<mapsto> DJson (JNum 0))] =
     Inr [[''id'' \<mapsto> DJson (JNum 0)] ++ sample_chain(''id'' \<mapsto> DJson (JNum 0))]"
  by (rule zero_chain_id [where c = "CHR ''e''" and cs = "''vm''", THEN conjunct1])
    (simp_all add: dyn_field_def sample_chain_def sample_merge_def)

theorem documented_env_example_witness:
  "\<exists>raw. loadFromEnv unary_print unary_parse [''SYG_RELAYER_MPCCONFIG_KEY='' @ ''k'', ''SYG_RELAYER_MPCCONFIG_PORT='' @ ''9100'',
      ''SYG_RELAYER_MPCCONFIG_TOPOLOGYCONFIGURATION_PATH='' @ ''t.json'', ''HOME=/root''] = Returns (Inr raw) \<and>
     rmc_Port (rrc_Mpc (rwc_RelayerConfig raw)) = ''9100''"
  by (rule exI, rule conjI, rule documented_env_example [OF json_text_ok_unary]) simp_all

end
