(* ===== verification/Topology.thy ===== *)
theory Topology
  imports Keyshares
begin

text \<open>
  The network topology: who may take part.  \<open>tss_util/topology/topology.go\<close> (raw topology, provider),
  \<open>store.go\<close> (the file it is kept in), \<open>encryption.go\<close> (AES in CTR mode), the connection gate
  \<open>tss_util/comm/p2p/gater.go\<close>, \<open>LoadPeers\<close> of \<open>tss_util/comm/p2p/host.go\<close>, and the part of
  \<open>service/tss_run.go\<close> that loads the topology when the relayer starts.

  \<open>peer.AddrInfo\<close> comes from libp2p, with its parser \<open>AddrInfoFromString\<close> and its JSON codec.
\<close>

record addr_info =
  ai_ID :: peer_id
  ai_Addrs :: "string list"

record network_topology =
  nt_Peers :: "addr_info list"
  nt_Threshold :: int

fun allowed_loop :: "addr_info list \<Rightarrow> peer_id \<Rightarrow> bool" where
  "allowed_loop [] peer = False"
| "allowed_loop (p # ps) peer = (if ai_ID p = peer then True else allowed_loop ps peer)"

definition IsAllowedPeer :: "network_topology \<Rightarrow> peer_id \<Rightarrow> bool" where
  "IsAllowedPeer nt peer = allowed_loop (nt_Peers nt) peer"

record raw_topology =
  rt_Peers :: "string list"  \<comment> \<open>the field \<open>PeerAddress\<close> of each \<open>RawPeer\<close>\<close>
  rt_Threshold :: string

fun parse_peers :: "(string \<Rightarrow> addr_info result) \<Rightarrow> string list \<Rightarrow> addr_info list result" where
  "parse_peers addrInfoFromString [] = Inr []"
| "parse_peers addrInfoFromString (p # ps) =
     (case addrInfoFromString p of
        Inl err \<Rightarrow> Inl (Errorf (''invalid peer address '' @ p))
      | Inr addrInfo \<Rightarrow>
          (case parse_peers addrInfoFromString ps of Inl err \<Rightarrow> Inl err | Inr peers \<Rightarrow> Inr (addrInfo # peers)))"

definition ProcessRawTopology :: "(string \<Rightarrow> addr_info result) \<Rightarrow> raw_topology \<Rightarrow> network_topology result" where
  "ProcessRawTopology addrInfoFromString rawTopology =
     (case parse_peers addrInfoFromString (rt_Peers rawTopology) of
        Inl err \<Rightarrow> Inl err
      | Inr peers \<Rightarrow>
          (case parse_int (rt_Threshold rawTopology) 0 0 of
             Inl e \<Rightarrow> Inl (Errorf ''unable to parse mpc threshold from topology'')
           | Inr threshold \<Rightarrow>
               if threshold < 1 then Inl (Errorf ''mpc threshold must be bigger then 0'')
               else Inr \<lparr>nt_Peers = peers, nt_Threshold = threshold\<rparr>))"

definition dec_raw_peer :: "string decoder" where
  "dec_raw_peer cur j = (case json_object j of Inl err \<Rightarrow> Inl err | Inr fs \<Rightarrow> dec_field dec_string ''peerAddress'' cur fs)"

definition dec_raw_topology :: "(string \<times> json) list \<Rightarrow> raw_topology result" where
  "dec_raw_topology fs =
     (case dec_field (dec_list '''' dec_raw_peer) ''peers'' [] fs of Inl err \<Rightarrow> Inl err
      | Inr ps \<Rightarrow> (case dec_field dec_string ''threshold'' '''' fs of Inl err \<Rightarrow> Inl err
         | Inr t \<Rightarrow> Inr \<lparr>rt_Peers = ps, rt_Threshold = t\<rparr>))"

text \<open>The provider: the file at its path, read as a raw topology.\<close>

definition provider_NetworkTopology :: "(bytes \<Rightarrow> json option) \<Rightarrow> (string \<Rightarrow> addr_info result) \<Rightarrow> keyfile \<Rightarrow> network_topology result" where
  "provider_NetworkTopology parse_json addrInfoFromString f =
     (case f of
        None \<Rightarrow> Inl (ExternError ''os.ReadFile'')
      | Some data \<Rightarrow>
          (case parse_object parse_json data of Inl err \<Rightarrow> Inl err
           | Inr fs \<Rightarrow> (case dec_raw_topology fs of Inl err \<Rightarrow> Inl err
              | Inr rawTopology \<Rightarrow> ProcessRawTopology addrInfoFromString rawTopology)))"

subsection \<open>The store\<close>

fun enc_addrs :: "addr_info key_codec \<Rightarrow> addr_info list \<Rightarrow> json list result" where
  "enc_addrs A [] = Inr []"
| "enc_addrs A (a # as) =
     (case kc_enc A a of Inl err \<Rightarrow> Inl err
      | Inr j \<Rightarrow> (case enc_addrs A as of Inl err \<Rightarrow> Inl err | Inr js \<Rightarrow> Inr (j # js)))"

definition topology_marshal :: "addr_info key_codec \<Rightarrow> (json \<Rightarrow> bytes) \<Rightarrow> network_topology \<Rightarrow> bytes result" where
  "topology_marshal A print_json nt =
     (case enc_addrs A (nt_Peers nt) of Inl err \<Rightarrow> Inl err
      | Inr js \<Rightarrow> Inr (print_json (JObj [(''Peers'', JArr js), (''Threshold'', JNum (nt_Threshold nt))])))"

definition StoreTopology :: "addr_info key_codec \<Rightarrow> (json \<Rightarrow> bytes) \<Rightarrow> file_io \<Rightarrow> network_topology \<Rightarrow> keyfile \<Rightarrow> go_error option \<times> keyfile" where
  "StoreTopology A print_json io topology f = store_truncating io (topology_marshal A print_json topology) f"

text \<open>The result is a pointer: the JSON value \<open>null\<close> leaves nil (\<open>None\<close>) without an error.\<close>

definition store_Topology :: "addr_info key_codec \<Rightarrow> (bytes \<Rightarrow> json option) \<Rightarrow> keyfile \<Rightarrow> network_topology option result" where
  "store_Topology A parse_json f =
     (case f of
        None \<Rightarrow> Inl (ExternError ''os.ReadFile'')
      | Some tb \<Rightarrow>
          if parse_json tb = Some JNull then Inr None
          else (case parse_object parse_json tb of Inl err \<Rightarrow> Inl err
           | Inr fs \<Rightarrow> (case dec_field (dec_list (kc_zero A) (kc_dec A)) ''Peers'' [] fs of Inl err \<Rightarrow> Inl err
              | Inr ps \<Rightarrow> (case dec_field dec_int ''Threshold'' 0 fs of Inl err \<Rightarrow> Inl err
                 | Inr t \<Rightarrow> Inr (Some \<lparr>nt_Peers = ps, nt_Threshold = t\<rparr>)))))"

text \<open>How \<open>Run\<close> loads the topology: from the store, or else from the provider and then into the store.
  Store and provider have the same path; every error panics.\<close>

definition load_topology ::
  "addr_info key_codec \<Rightarrow> (json \<Rightarrow> bytes) \<Rightarrow> (bytes \<Rightarrow> json option) \<Rightarrow> (string \<Rightarrow> addr_info result) \<Rightarrow> file_io \<Rightarrow> keyfile \<Rightarrow>
   (network_topology \<times> keyfile) outcome" where
  "load_topology A print_json parse_json addrInfoFromString io f =
     (case store_Topology A parse_json f of
        Inr None \<Rightarrow> Panics ''nil pointer dereference''
      | Inr (Some nt) \<Rightarrow> Returns (nt, f)
      | Inl _ \<Rightarrow>
          (case provider_NetworkTopology parse_json addrInfoFromString f of
             Inl err \<Rightarrow> Panics ''panicOnError''
           | Inr nt \<Rightarrow>
               (case StoreTopology A print_json io nt f of
                  (Some err, f1) \<Rightarrow> Panics ''panicOnError''
                | (None, f1) \<Rightarrow> Returns (nt, f1))))"

subsection \<open>The connection gate and the peerstore\<close>

record connection_gate =
  cg_topology :: network_topology

definition NewConnectionGate :: "network_topology \<Rightarrow> connection_gate" where
  "NewConnectionGate topology = \<lparr>cg_topology = topology\<rparr>"

definition SetTopology :: "network_topology \<Rightarrow> connection_gate \<Rightarrow> connection_gate" where
  "SetTopology topology cg = cg\<lparr>cg_topology := topology\<rparr>"

definition InterceptPeerDial :: "connection_gate \<Rightarrow> peer_id \<Rightarrow> bool" where
  "InterceptPeerDial cg p = IsAllowedPeer (cg_topology cg) p"

definition InterceptSecured :: "connection_gate \<Rightarrow> peer_id \<Rightarrow> bool" where
  "InterceptSecured cg p = IsAllowedPeer (cg_topology cg) p"

definition InterceptAddrDial :: "connection_gate \<Rightarrow> peer_id \<Rightarrow> string \<Rightarrow> bool" where
  "InterceptAddrDial cg p addr = True"

definition InterceptAccept :: "connection_gate \<Rightarrow> bool" where
  "InterceptAccept cg = True"

definition InterceptUpgraded :: "connection_gate \<Rightarrow> bool \<times> nat" where
  "InterceptUpgraded cg = (True, 0)"

text \<open>libp2p's peerstore, as far as \<open>LoadPeers\<close> uses it: which addresses are known of each peer.\<close>

type_synonym peerstore = "(peer_id \<times> string list) list"

definition peerstore_Peers :: "peerstore \<Rightarrow> peer_id list" where
  "peerstore_Peers ps = map fst ps"

definition RemovePeer :: "peer_id \<Rightarrow> peerstore \<Rightarrow> peerstore" where
  "RemovePeer p ps = AList.delete p ps"

definition AddAddr :: "peer_id \<Rightarrow> string \<Rightarrow> peerstore \<Rightarrow> peerstore" where
  "AddAddr p addr ps = (case map_of ps p of
      None \<Rightarrow> AList.update p [addr] ps
    | Some as \<Rightarrow> if addr \<in> set as then ps else AList.update p (as @ [addr]) ps)"

fun add_peers :: "addr_info list \<Rightarrow> peerstore \<Rightarrow> peerstore outcome" where
  "add_peers [] ps = Returns ps"
| "add_peers (a # as) ps =
     (case ai_Addrs a of
        [] \<Rightarrow> Panics ''index out of range''
      | addr # _ \<Rightarrow> add_peers as (AddAddr (ai_ID a) addr ps))"

definition LoadPeers :: "addr_info list \<Rightarrow> peerstore \<Rightarrow> peerstore outcome" where
  "LoadPeers peers ps = add_peers peers (fold RemovePeer (peerstore_Peers ps) ps)"

subsection \<open>AES in CTR mode\<close>

text \<open>
  \<open>cipher.NewCTR\<close> encrypts a counter that starts at the iv and counts the 16 bytes up as a big-endian
  number; \<open>XORKeyStream\<close> xors the data with the encrypted counters.  \<open>block\<close> is the AES block cipher
  under the key.
\<close>

definition xor_byte :: "char \<Rightarrow> char \<Rightarrow> char" where
  "xor_byte a b = char_of (xor (of_char a :: nat) (of_char b))"

fun incr_counter :: "bytes \<Rightarrow> bytes" where
  \<comment> \<open>on the reversed counter, least significant byte first\<close>
  "incr_counter [] = []"
| "incr_counter (b # bs) = (if of_char b = (255::nat) then char_of (0::nat) # incr_counter bs else char_of ((of_char b :: nat) + 1) # bs)"

fun ctr_blocks :: "(bytes \<Rightarrow> bytes) \<Rightarrow> bytes \<Rightarrow> nat \<Rightarrow> bytes" where
  "ctr_blocks block iv 0 = []"
| "ctr_blocks block iv (Suc n) = block iv @ ctr_blocks block (rev (incr_counter (rev iv))) n"

definition XORKeyStream :: "(bytes \<Rightarrow> bytes) \<Rightarrow> bytes \<Rightarrow> bytes \<Rightarrow> bytes" where
  "XORKeyStream block iv src = map (\<lambda>(a, b). xor_byte a b) (zip src (ctr_blocks block iv (length src div 16 + 1)))"

text \<open>The key is rejected unless it has 16, 24 or 32 bytes.\<close>

definition NewAESEncryption :: "(bytes \<Rightarrow> bytes \<Rightarrow> bytes) \<Rightarrow> bytes \<Rightarrow> (bytes \<Rightarrow> bytes) result" where
  "NewAESEncryption aes key = (if length key \<in> {16, 24, 32} then Inr (aes key) else Inl (ExternError ''crypto/aes: invalid key size''))"

definition Decrypt :: "(bytes \<Rightarrow> bytes) \<Rightarrow> bytes \<Rightarrow> bytes outcome" where
  "Decrypt block ct =
     (if length ct < 16 then Panics ''slice bounds out of range''
      else Returns (XORKeyStream block (take 16 ct) (drop 16 ct)))"

text \<open>\<open>random\<close> is what \<open>rand.Read\<close> fills the iv with.\<close>

definition Encrypt :: "(bytes \<Rightarrow> bytes) \<Rightarrow> bytes result \<Rightarrow> bytes \<Rightarrow> bytes result" where
  "Encrypt block random data =
     (case random of
        Inl err \<Rightarrow> Inl err
      | Inr iv \<Rightarrow> Inr (iv @ XORKeyStream block iv data))"

subsection \<open>Reading and storing\<close>

lemma parse_peers_iff:
  "parse_peers g ps = Inr as \<longleftrightarrow> map g ps = map Inr as"
proof (induction ps arbitrary: as)
  case (Cons p ps)
  show ?case
  proof (cases "g p")
    case (Inr a)
    show ?thesis
    proof (cases "parse_peers g ps")
      case (Inl e)
      with Cons have "map g ps \<noteq> map Inr bs" for bs by (metis Inl_Inr_False)
      with Inr Inl show ?thesis by (cases as) auto
    next
      case Inr2: (Inr bs)
      with Cons have "map g ps = map Inr bs" by blast
      with Inr Inr2 show ?thesis by (cases as) (auto simp: inj_map_eq_map inj_on_def)
    qed
  qed (cases as; auto)
qed auto

lemma parse_int_int64: "parse_int s base 0 = Inr i \<Longrightarrow> int64 i"
proof -
  assume "parse_int s base 0 = Inr i"
  moreover have "parse_int s base 64 = parse_int s base 0" unfolding parse_int_def parse_uint_def by simp
  ultimately have "parse_int s base 64 = Inr i" by simp
  from parse_int_bounds [OF this] show ?thesis by (simp add: int64_def)
qed

lemma enc_addrs_dec:
  "key_codec_ok A \<Longrightarrow> enc_addrs A as = Inr js \<Longrightarrow> dec_elems (kc_zero A) (kc_dec A) js = Inr as"
  by (induction as arbitrary: js) (auto simp: key_codec_ok_def split: sum.splits)

lemma store_Topology_stored:
  assumes "json_text_ok pj qj" and "key_codec_ok A" and "file_io_ok io" and "int64 (nt_Threshold nt)"
    and "StoreTopology A pj io nt f = (None, f1)"
  shows "store_Topology A qj f1 = Inr (Some nt)"
proof -
  obtain kb where kb: "topology_marshal A pj nt = Inr kb" "f1 = Some kb"
    using store_truncating_ok [OF assms(3), of "topology_marshal A pj nt" f] assms(5)
    by (metis StoreTopology_def fst_conv snd_conv)
  then obtain js where js: "enc_addrs A (nt_Peers nt) = Inr js"
    "kb = pj (JObj [(''Peers'', JArr js), (''Threshold'', JNum (nt_Threshold nt))])"
    by (auto simp: topology_marshal_def split: sum.splits)
  have "qj kb = Some (JObj [(''Peers'', JArr js), (''Threshold'', JNum (nt_Threshold nt))])"
    using assms(1) js(2) by (simp add: json_text_ok_def)
  with enc_addrs_dec [OF assms(2) js(1)] assms(4) kb(2) show ?thesis
    by (simp add: store_Topology_def parse_object_def go_std ascii_lower_def int64_def dec_list_def)
qed

subsection \<open>Properties\<close>

text \<open>Fact (topology_processed): a raw topology is accepted exactly when every peer address parses and the
  threshold is an integer of at least one in 64 bits; the peers keep their order.\<close>

theorem topology_processed:
  "ProcessRawTopology g raw = Inr nt \<longleftrightarrow>
     map g (rt_Peers raw) = map Inr (nt_Peers nt) \<and> parse_int (rt_Threshold raw) 0 0 = Inr (nt_Threshold nt) \<and> 1 \<le> nt_Threshold nt"
proof (cases "parse_peers g (rt_Peers raw)")
  case (Inl e)
  then have "map g (rt_Peers raw) \<noteq> map Inr (nt_Peers nt)" using parse_peers_iff [of g "rt_Peers raw" "nt_Peers nt"] by simp
  with Inl show ?thesis by (simp add: ProcessRawTopology_def)
next
  case (Inr as)
  then have "map g (rt_Peers raw) = map Inr as" using parse_peers_iff by blast
  then have "map g (rt_Peers raw) = map Inr (nt_Peers nt) \<longleftrightarrow> as = nt_Peers nt"
    by (auto simp: inj_map_eq_map inj_on_def)
  with Inr show ?thesis
    by (cases nt) (auto simp: ProcessRawTopology_def split: sum.splits)
qed

lemma load_topology_stable:
  assumes "json_text_ok pj qj" and "key_codec_ok A" and "file_io_ok io"
    and "load_topology A pj qj g io f = Returns (nt, f1)"
  shows "load_topology A pj qj g io f1 = Returns (nt, f1)"
proof (cases "store_Topology A qj f")
  case (Inr r)
  with assms(4) show ?thesis by (auto simp: load_topology_def split: option.splits)
next
  case (Inl e)
  with assms(4) obtain raw where p: "ProcessRawTopology g raw = Inr nt" and s: "StoreTopology A pj io nt f = (None, f1)"
    by (auto simp: load_topology_def provider_NetworkTopology_def split: sum.splits option.splits prod.splits)
  have "int64 (nt_Threshold nt)" using p
    by (auto simp: ProcessRawTopology_def intro: parse_int_int64 split: sum.splits if_splits)
  from store_Topology_stored [OF assms(1-3) this s] show ?thesis by (simp add: load_topology_def)
qed

text \<open>Fact (topology_boot_stable): once a relayer has loaded its topology, every later start loads the same
  topology from the file and leaves the file as it is.\<close>

theorem topology_boot_stable:
  assumes "json_text_ok pj qj" and "key_codec_ok A" and "file_io_ok io"
    and "load_topology A pj qj g io f = Returns (nt, f1)"
  shows "load_topology A pj qj g io f1 = Returns (nt, f1)"
  by (rule load_topology_stable [OF assms])

lemma topology_lower:
  "ascii_lower CHR ''P'' = CHR ''p''" "ascii_lower CHR ''p'' = CHR ''p''" "ascii_lower CHR ''T'' = CHR ''t''"
  "ascii_lower CHR ''t'' = CHR ''t''"
  by code_simp+

text \<open>Fact (stored_topology_not_raw): store and provider share one path but not one format: a file the store
  wrote is rejected by the provider, so the topology can only be replaced by hand.\<close>

theorem stored_topology_not_raw:
  assumes "json_text_ok pj qj" and "file_io_ok io" and "StoreTopology A pj io nt f = (None, f1)"
  shows "\<exists>err. provider_NetworkTopology qj g f1 = Inl err"
proof -
  obtain kb where kb: "topology_marshal A pj nt = Inr kb" "f1 = Some kb"
    using store_truncating_ok [OF assms(2), of "topology_marshal A pj nt" f] assms(3)
    by (metis StoreTopology_def fst_conv snd_conv)
  then obtain js where js: "kb = pj (JObj [(''Peers'', JArr js), (''Threshold'', JNum (nt_Threshold nt))])"
    by (auto simp: topology_marshal_def split: sum.splits)
  have "parse_object qj kb = Inr [(''Peers'', JArr js), (''Threshold'', JNum (nt_Threshold nt))]"
    using assms(1) js by (simp add: go_std)
  then show ?thesis
    by (auto simp: provider_NetworkTopology_def kb(2) dec_raw_topology_def go_std topology_lower dec_string_def split: sum.split)
qed

lemma allowed_loop_iff: "allowed_loop as p \<longleftrightarrow> p \<in> ai_ID ` set as"
  by (induction as) auto

lemma fold_RemovePeer: "fold RemovePeer qs ps = filter (\<lambda>x. fst x \<notin> set qs) ps"
  by (induction qs arbitrary: ps) (auto simp: RemovePeer_def AList.delete_eq intro!: filter_cong)

lemma AddAddr_Peers: "set (peerstore_Peers (AddAddr p addr ps)) = insert p (set (peerstore_Peers ps))"
  by (auto simp: AddAddr_def peerstore_Peers_def AList.dom_update AList.update_keys split: option.split
      dest: map_of_SomeD intro: rev_image_eqI)

lemma add_peers_Peers:
  "add_peers as ps = Returns ps' \<Longrightarrow> set (peerstore_Peers ps') = ai_ID ` set as \<union> set (peerstore_Peers ps)"
  by (induction as arbitrary: ps) (auto simp: AddAddr_Peers split: list.splits)

lemma add_peers_panics: "(\<exists>e. add_peers as ps = Panics e) \<longleftrightarrow> (\<exists>a\<in>set as. ai_Addrs a = [])"
  by (induction as arbitrary: ps) (auto split: list.split)

lemma LoadPeers_gate:
  "case LoadPeers (nt_Peers nt) ps of
     Panics e \<Rightarrow> list_ex (\<lambda>a. ai_Addrs a = []) (nt_Peers nt)
   | Returns ps' \<Rightarrow> list_all (\<lambda>a. ai_Addrs a \<noteq> []) (nt_Peers nt) \<and>
       (\<forall>p. (p \<in> set (peerstore_Peers ps')) = InterceptPeerDial (NewConnectionGate nt) p \<and>
            InterceptSecured (NewConnectionGate nt) p = InterceptPeerDial (NewConnectionGate nt) p)"
proof -
  have "fold RemovePeer (peerstore_Peers ps) ps = []"
    by (auto simp: fold_RemovePeer peerstore_Peers_def filter_empty_conv)
  then show ?thesis
    using add_peers_panics [of "nt_Peers nt" "[]"] add_peers_Peers [of "nt_Peers nt" "[]"]
    by (auto simp: LoadPeers_def InterceptPeerDial_def InterceptSecured_def NewConnectionGate_def IsAllowedPeer_def
        allowed_loop_iff list_ex_iff list_all_iff peerstore_Peers_def split: outcome.split)
qed

text \<open>Fact (gate_matches_peerstore): loading a topology replaces whatever the peerstore held: afterwards the
  known peers are exactly the ones the gate lets through, in both directions.  A peer without an
  address makes it panic.\<close>

theorem gate_matches_peerstore:
  "case LoadPeers (nt_Peers nt) ps of
     Panics e \<Rightarrow> list_ex (\<lambda>a. ai_Addrs a = []) (nt_Peers nt)
   | Returns ps' \<Rightarrow> list_all (\<lambda>a. ai_Addrs a \<noteq> []) (nt_Peers nt) \<and>
       (\<forall>p. (p \<in> set (peerstore_Peers ps')) = InterceptPeerDial (NewConnectionGate nt) p \<and>
            InterceptSecured (NewConnectionGate nt) p = InterceptPeerDial (NewConnectionGate nt) p)"
  by (rule LoadPeers_gate)

subsection \<open>Encryption\<close>

lemma xor_byte_involutive: "xor_byte (xor_byte a b) b = a"
proof -
  have t: "take_bit 8 (of_char c) = (of_char c :: nat)" for c using nat_of_char_less_256 [of c] by (simp add: take_bit_nat_eq_self_iff)
  have "take_bit 8 (xor (of_char a) (of_char b)) = (xor (of_char a) (of_char b) :: nat)" by (simp only: take_bit_xor t)
  then have "xor (of_char a :: nat) (of_char b) < 2 ^ 8" by (simp only: take_bit_nat_eq_self_iff)
  then have "(of_char (xor_byte a b) :: nat) = xor (of_char a) (of_char b)"
    by (simp add: xor_byte_def of_char_of)
  then show ?thesis by (simp add: xor_byte_def xor.assoc)
qed

lemma incr_counter_length [simp]: "length (incr_counter bs) = length bs"
  by (induction bs) auto

lemma ctr_blocks_length:
  "(\<And>b. length b = 16 \<Longrightarrow> length (block b) = 16) \<Longrightarrow> length iv = 16 \<Longrightarrow> length (ctr_blocks block iv n) = 16 * n"
  by (induction n arbitrary: iv) auto

lemma xor_zip_involutive:
  "length xs \<le> length ks \<Longrightarrow> map (\<lambda>(a, b). xor_byte a b) (zip (map (\<lambda>(a, b). xor_byte a b) (zip xs ks)) ks) = xs"
  by (induction xs ks rule: list_induct2') (auto simp: xor_byte_involutive)

text \<open>Fact (aes_roundtrip): what \<open>Encrypt\<close> returns is 16 bytes longer than the data and \<open>Decrypt\<close> gives the data
  back, for every key of a legal size and every iv.\<close>

theorem aes_roundtrip:
  assumes "NewAESEncryption aes key = Inr block"
    and "\<And>k b. length k \<in> {16, 24, 32} \<Longrightarrow> length b = 16 \<Longrightarrow> length (aes k b) = 16"
    and "length iv = 16"
  shows "\<exists>ct. Encrypt block (Inr iv) data = Inr ct \<and> length ct = length data + 16 \<and> Decrypt block ct = Returns data"
proof -
  have blk: "length (block b) = 16" if "length b = 16" for b
    using assms(1,2) that by (auto simp: NewAESEncryption_def split: if_splits)
  let ?ks = "ctr_blocks block iv (length data div 16 + 1)"
  have l: "length ?ks = 16 * (length data div 16 + 1)" by (rule ctr_blocks_length [OF blk assms(3)])
  then have "length data \<le> length ?ks" by simp
  with xor_zip_involutive [OF this] assms(3) show ?thesis
    by (simp add: Encrypt_def Decrypt_def XORKeyStream_def)
qed

subsection \<open>Instances\<close>

definition addr_codec :: "addr_info key_codec" where
  "addr_codec = \<lparr>kc_enc = (\<lambda>a. Inr (JArr (map JStr (ai_ID a # ai_Addrs a)))),
     kc_dec = (\<lambda>cur j. case j of
         JArr (JStr i # js) \<Rightarrow> Inr \<lparr>ai_ID = i, ai_Addrs = map (\<lambda>j. case j of JStr s \<Rightarrow> s | _ \<Rightarrow> '''') js\<rparr>
       | _ \<Rightarrow> Inl (ExternError ''peer.AddrInfo'')),
     kc_zero = \<lparr>ai_ID = '''', ai_Addrs = []\<rparr>\<rparr>"

lemma addr_codec_ok: "key_codec_ok addr_codec"
  by (auto simp: key_codec_ok_def addr_codec_def comp_def)

definition sample_topology :: network_topology where
  "sample_topology = \<lparr>nt_Peers = [\<lparr>ai_ID = ''a'', ai_Addrs = [''x'']\<rparr>], nt_Threshold = 1\<rparr>"

definition sample_addr :: "string \<Rightarrow> addr_info result" where
  "sample_addr s = Inr \<lparr>ai_ID = s, ai_Addrs = [''x'']\<rparr>"

definition sample_raw :: json where
  "sample_raw = JObj [(''peers'', JArr [JObj [(''peerAddress'', JStr ''a'')]]), (''threshold'', JStr ''1'')]"

definition sample_stored :: json where
  "sample_stored = JObj [(''Peers'', JArr [JArr [JStr ''a'', JStr ''x'']]), (''Threshold'', JNum 1)]"

lemma sample_StoreTopology:
  "StoreTopology addr_codec unary_print good_io sample_topology f = (None, Some (unary_print sample_stored))"
  by (simp add: StoreTopology_def store_truncating_def good_io_def topology_marshal_def addr_codec_def sample_topology_def
      sample_stored_def)

lemma sample_load:
  "load_topology addr_codec unary_print unary_parse sample_addr good_io (Some (unary_print sample_raw)) =
     Returns (sample_topology, Some (unary_print sample_stored))"
proof -
  have p: "unary_parse (unary_print sample_raw) = Some sample_raw"
      "parse_object unary_parse (unary_print sample_raw) =
        Inr [(''peers'', JArr [JObj [(''peerAddress'', JStr ''a'')]]), (''threshold'', JStr ''1'')]" "sample_raw \<noteq> JNull"
    using json_text_ok_unary by (simp_all add: json_text_ok_def sample_raw_def go_std)
  have "digit_val CHR ''1'' = Some 1" "base_prefix ''1'' = (10, ''1'')" by code_simp+
  then have t: "parse_int ''1'' 0 0 = Inr 1" by (simp add: parse_int_def parse_uint_def)
  have "store_Topology addr_codec unary_parse (Some (unary_print sample_raw)) = Inl (ExternError ''peer.AddrInfo'')"
    by (simp add: store_Topology_def p go_std topology_lower addr_codec_def dec_list_def)
  moreover have "provider_NetworkTopology unary_parse sample_addr (Some (unary_print sample_raw)) = Inr sample_topology"
    by (simp add: provider_NetworkTopology_def p dec_raw_topology_def dec_raw_peer_def go_std
        topology_lower dec_list_def dec_string_def ProcessRawTopology_def sample_addr_def t sample_topology_def)
  ultimately show ?thesis by (simp add: load_topology_def sample_StoreTopology)
qed

theorem topology_boot_stable_witness:
  "load_topology addr_codec unary_print unary_parse sample_addr good_io (Some (unary_print sample_stored)) =
     Returns (sample_topology, Some (unary_print sample_stored))"
  by (rule topology_boot_stable [OF json_text_ok_unary addr_codec_ok codec_instances(3) sample_load])

theorem stored_topology_not_raw_witness:
  "\<exists>err. provider_NetworkTopology unary_parse sample_addr (Some (unary_print sample_stored)) = Inl err"
  by (rule stored_topology_not_raw [OF json_text_ok_unary codec_instances(3) sample_StoreTopology])

theorem aes_roundtrip_witness:
  "\<exists>ct. Encrypt (\<lambda>b. b) (Inr ''0123456789abcdef'') ''topology'' = Inr ct \<and> length ct = 8 + 16 \<and>
     Decrypt (\<lambda>b. b) ct = Returns ''topology''"
proof -
  have k: "NewAESEncryption (\<lambda>k b. b) ''0123456789abcdef'' = Inr (\<lambda>b. b)" by (simp add: NewAESEncryption_def)
  show ?thesis using aes_roundtrip [OF k, of "''0123456789abcdef''" "''topology''"] by simp
qed

end
