(* ===== verification/Observability.thy ===== *)
theory Observability
  imports Network
begin

text \<open>
  What the relayer shows of itself: the logger of \<open>logging/log.go\<close>, the metrics of \<open>tss_util/metrics\<close> and
  the endpoint of \<open>tss_util/health/health.go\<close>.

  Parameters: what zap, the file system and OpenTelemetry answer when a logger, a file or a gauge is asked
  for.  A gauge is the function its callback is: the number it observes.
\<close>

subsection \<open>The logger\<close>

datatype log_level = DebugLevel | InfoLevel | WarnLevel | ErrorLevel

definition log_level_of :: "string \<Rightarrow> log_level" where
  "log_level_of logLevel =
     (if logLevel = ''debug'' then DebugLevel
      else if logLevel = ''info'' then InfoLevel
      else if logLevel = ''warn'' then WarnLevel
      else if logLevel = ''error'' then ErrorLevel
      else InfoLevel)"

record logger =
  lg_level :: log_level
  lg_encoding :: string
  lg_time_key :: string
  lg_caller_key :: string
  lg_file :: "string option"  \<comment> \<open>\<open>None\<close> is the output zap chooses\<close>
  lg_caller_skip :: nat
  lg_fields :: "(string \<times> string) list"

record log_env =
  le_MkdirAll :: "string \<Rightarrow> go_error option"
  le_OpenFile :: "string \<Rightarrow> go_error option"
  le_Build :: "go_error option"
  le_Dir :: "string \<Rightarrow> string"

text \<open>The package variables \<open>logLevel\<close> and \<open>Log\<close> (\<open>None\<close> is nil).  Where the directory or the file cannot be
  made the old logger stays; an error of \<open>Build\<close> comes with a nil logger, which is assigned.\<close>

record log_state =
  ls_logLevel :: string
  ls_Log :: "logger option"

definition InitLoggerWithLogFile :: "log_env \<Rightarrow> string \<Rightarrow> string \<Rightarrow> log_state \<Rightarrow> log_state" where
  "InitLoggerWithLogFile L programName logFilePath s0 =
     (let s = (if ls_logLevel s0 = '''' then s0\<lparr>ls_logLevel := ''info''\<rparr> else s0);
          level = log_level_of (ls_logLevel s);
          new = (\<lambda>target. \<lparr>lg_level = level, lg_encoding = ''json'', lg_time_key = ''timestamp'', lg_caller_key = ''caller'',
                  lg_file = target, lg_caller_skip = 1, lg_fields = [(''program'', programName)]\<rparr>)
      in if logFilePath \<noteq> '''' then
           (if le_MkdirAll L (le_Dir L logFilePath) \<noteq> None then s
            else if le_OpenFile L logFilePath \<noteq> None then s
            else s\<lparr>ls_Log := Some (new (Some logFilePath))\<rparr>)
         else (case le_Build L of
                 Some err \<Rightarrow> s\<lparr>ls_Log := None\<rparr>
               | None \<Rightarrow> s\<lparr>ls_Log := Some (new None)\<rparr>))"

definition InitLogger :: "log_env \<Rightarrow> string \<Rightarrow> log_state \<Rightarrow> log_state" where
  "InitLogger L programName s = InitLoggerWithLogFile L programName '''' s"

subsection \<open>The metrics\<close>

text \<open>\<open>gauge\<close> is the meter's \<open>Int64ObservableGauge\<close>: an error, or the gauge is registered.\<close>

definition NewMpcMetrics :: "(string \<Rightarrow> go_error option) \<Rightarrow> mpc_metrics result" where
  "NewMpcMetrics gauge =
     (case gauge ''relayer.TotalRelayers'' of
        Some err \<Rightarrow> Inl err
      | None \<Rightarrow>
          (case gauge ''relayer.AvailableRelayers'' of
             Some err \<Rightarrow> Inl err
           | None \<Rightarrow> Inr \<lparr>totalRelayerCount = 0, availableRelayerCount = 0\<rparr>))"

text \<open>What the two callbacks observe.\<close>

definition mpc_observed :: "mpc_metrics \<Rightarrow> (string \<times> int) list" where
  "mpc_observed m = [(''relayer.TotalRelayers'', totalRelayerCount m), (''relayer.AvailableRelayers'', availableRelayerCount m)]"

record host_metrics =
  hm_startTime :: int

definition NewHostMetrics :: "(string \<Rightarrow> go_error option) \<Rightarrow> int \<Rightarrow> host_metrics result" where
  "NewHostMetrics gauge now =
     (case gauge ''relayer.StartTimeSeconds'' of
        Some err \<Rightarrow> Inl err
      | None \<Rightarrow> Inr \<lparr>hm_startTime = now\<rparr>)"

text \<open>\<open>relayer_metrics\<close> is \<open>NewRelayerMetrics\<close> of the observability library, with the attributes it is given.\<close>

record sygma_metrics =
  sm_attributes :: "(string \<times> string) list"
  sm_mpc :: mpc_metrics
  sm_host :: host_metrics

definition NewSygmaMetrics ::
  "((string \<times> string) list \<Rightarrow> go_error option) \<Rightarrow> (string \<Rightarrow> go_error option) \<Rightarrow> int \<Rightarrow> string \<Rightarrow> string \<Rightarrow> string \<Rightarrow> sygma_metrics result" where
  "NewSygmaMetrics relayer_metrics gauge now env relayerID version =
     (let attributes = [(''relayerid'', relayerID), (''env'', env), (''version'', version)] in
      case relayer_metrics attributes of
        Some err \<Rightarrow> Inl err
      | None \<Rightarrow>
          (case NewMpcMetrics gauge of
             Inl err \<Rightarrow> Inl err
           | Inr mpcMetrics \<Rightarrow>
               (case NewHostMetrics gauge now of
                  Inl err \<Rightarrow> Inl err
                | Inr hostMetrics \<Rightarrow> Inr \<lparr>sm_attributes = attributes, sm_mpc = mpcMetrics, sm_host = hostMetrics\<rparr>)))"

subsection \<open>The health endpoint\<close>

text \<open>The address the server listens on, and its answer: \<open>ok\<close> at its one path, none of its own elsewhere.\<close>

definition health_listen :: "16 word \<Rightarrow> string" where
  "health_listen port = CHR '':'' # show_nat (unat port)"

definition health_response :: "string \<Rightarrow> bytes option" where
  "health_response path = (if path = ''/health'' then Some ''ok'' else None)"

subsection \<open>Properties\<close>

text \<open>Fact (logger_levels): every level name but the four known ones means \<open>info\<close>, also the names that zap itself
  would read (\<open>DEBUG\<close>, \<open>fatal\<close>); a log file that cannot be opened leaves the logger as it was, so the first
  initialisation leaves none.\<close>

theorem logger_levels:
  "(level \<notin> {''debug'', ''warn'', ''error''} \<longrightarrow> log_level_of level = InfoLevel) \<and>
   (file \<noteq> '''' \<and> (le_MkdirAll L (le_Dir L file) \<noteq> None \<or> le_OpenFile L file \<noteq> None) \<longrightarrow>
      ls_Log (InitLoggerWithLogFile L name file s) = ls_Log s)"
  by (auto simp: log_level_of_def InitLoggerWithLogFile_def Let_def)

theorem logger_levels_witness:
  "log_level_of ''DEBUG'' = InfoLevel"
  by (rule logger_levels [THEN conjunct1, THEN mp]) simp

text \<open>Fact (metrics_observed): after a round of the health check the two gauges of a relayer show the number of peers and
  of those that could be sent to.\<close>

theorem metrics_observed:
  assumes "NewSygmaMetrics rm gauge now env relayerID version = Inr m"
  shows "mpc_observed (sm_mpc m) = [(''relayer.TotalRelayers'', 0), (''relayer.AvailableRelayers'', 0)] \<and>
    mpc_observed (TrackRelayerStatus unavailable all (sm_mpc m)) =
      [(''relayer.TotalRelayers'', int (length all)), (''relayer.AvailableRelayers'', int (length all) - int (length unavailable))]"
  using assms by (auto simp: NewSygmaMetrics_def NewMpcMetrics_def mpc_observed_def TrackRelayerStatus_def Let_def
      split: option.splits sum.splits)

theorem metrics_observed_witness:
  "\<exists>m. NewSygmaMetrics (\<lambda>as. None) (\<lambda>g. None) 0 ''test'' ''1'' ''v'' = Inr m \<and>
     mpc_observed (TrackRelayerStatus [''p''] [''p'', ''q''] (sm_mpc m)) = [(''relayer.TotalRelayers'', 2), (''relayer.AvailableRelayers'', 1)]"
proof -
  obtain m where m: "NewSygmaMetrics (\<lambda>as. None) (\<lambda>g. None) 0 ''test'' ''1'' ''v'' = Inr m"
    by (simp add: NewSygmaMetrics_def NewMpcMetrics_def NewHostMetrics_def Let_def)
  from metrics_observed [OF this, of "[''p'']" "[''p'', ''q'']"] m show ?thesis by simp
qed

end
