(* ===== verification/Handlers.thy ===== *)
theory Handlers
  imports Coordinator
begin

text \<open>
  What the HTTP interface does with a request: \<open>service/event_handlers/genkey_handler.go\<close>,
  \<open>service/event_handlers/sign_handler.go\<close> and \<open>routers/api.go\<close>.

  As for \<open>Execute\<close>, the schedules are arguments; \<open>sent\<close> is what the runs of the signing wrote to the
  result channel, and \<open>None\<close> says that the call does not return.  \<open>sig_bytes\<close> reads the signature and
  the recovery byte of tss-lib's \<open>SignatureData\<close>.
\<close>

subsection \<open>The event handlers\<close>

text \<open>What a handler holds: the relayer it runs on (\<open>host\<close>), the coordinator with its communication, and the
  keyshare store.  The operations below take the parts they use, since the coordinator is
  shared and changes.\<close>

record 'c keygen_event_handler =
  kh_coordinator :: "'c coordinator"
  kh_host :: peer_id
  kh_storer :: keyshare_store
  kh_threshold :: int

definition NewKeygenEventHandler :: "'c coordinator \<Rightarrow> peer_id \<Rightarrow> keyshare_store \<Rightarrow> int \<Rightarrow> 'c keygen_event_handler" where
  "NewKeygenEventHandler coordinator host storer threshold =
     \<lparr>kh_coordinator = coordinator, kh_host = host, kh_storer = storer, kh_threshold = threshold\<rparr>"

record 'c sign_event_handler =
  sh_coordinator :: "'c coordinator"
  sh_host :: peer_id
  sh_fetcher :: keyshare_store

definition NewSignEventHandler :: "'c coordinator \<Rightarrow> peer_id \<Rightarrow> keyshare_store \<Rightarrow> 'c sign_event_handler" where
  "NewSignEventHandler coordinator host fetcher =
     \<lparr>sh_coordinator = coordinator, sh_host = host, sh_fetcher = fetcher\<rparr>"

definition keygen_sessionID :: session_id where
  "keygen_sessionID = ''keygen''"

definition keygen_HandleEvents ::
  "'c tss_env \<Rightarrow> 'c subscribe \<Rightarrow> (keyfile \<Rightarrow> 'k ecdsa_keyshare result) \<Rightarrow> int \<Rightarrow> keyfile \<Rightarrow>
   (nat \<times> coord_event task_event) list \<Rightarrow> (nat \<times> coord_event task_event) list \<Rightarrow> ('c comm_state \<Rightarrow> 'c comm_state) list \<Rightarrow>
   'c coordinator \<Rightarrow> (go_error option \<times> 'c coordinator) outcome option" where
  "keygen_HandleEvents E sub get threshold f sched sched2 stops c =
     (if (case get f of Inl err \<Rightarrow> False | Inr key \<Rightarrow> ek_Threshold key \<noteq> 0)
      then Some (Returns (None, c))
      else
        (let keygen = NewKeygen E keygen_sessionID threshold
         in case Execute E sub [keygen_process E keygen] sched sched2 stops c of
              None \<Rightarrow> None
            | Some (Panics s) \<Rightarrow> Some (Panics s)
            | Some (Returns (err, c1)) \<Rightarrow> Some (Returns (None, c1))))"

definition sign_sessionID :: "string \<Rightarrow> session_id" where
  "sign_sessionID rlp = ''sid-sign-'' @ rlp"

text \<open>The first receive from the result channel: nil is an empty answer, and a channel on which nothing was
  sent blocks, as the handler's context is never cancelled.\<close>

definition sign_answer :: "('g \<Rightarrow> bytes \<times> bytes) \<Rightarrow> 'g option list \<Rightarrow> string option" where
  "sign_answer sig_bytes sent =
     (case sent of
        [] \<Rightarrow> None
      | Some sig # _ \<Rightarrow> Some (hex_encode (fst (sig_bytes sig) @ snd (sig_bytes sig)))
      | None # _ \<Rightarrow> Some '''')"

definition sign_HandleEvents ::
  "'c tss_env \<Rightarrow> 'c subscribe \<Rightarrow> (keyfile \<Rightarrow> 'k ecdsa_keyshare result) \<Rightarrow> ('g \<Rightarrow> bytes \<times> bytes) \<Rightarrow> string \<Rightarrow> keyfile \<Rightarrow> bool \<Rightarrow>
   (nat \<times> coord_event task_event) list \<Rightarrow> (nat \<times> coord_event task_event) list \<Rightarrow> ('c comm_state \<Rightarrow> 'c comm_state) list \<Rightarrow>
   'g option list \<Rightarrow> 'c coordinator \<Rightarrow> (string result \<times> 'c coordinator) outcome option" where
  "sign_HandleEvents E sub get sig_bytes hash f mu sched sched2 stops sent c =
     (case hex_decode hash of
        None \<Rightarrow> Some (Returns (Inl (ExternError ''encoding/hex''), c))
      | Some hashByte \<Rightarrow>
          (case NewSigning get (int (big_set_bytes hashByte)) (sign_sessionID hash) f mu of
             None \<Rightarrow> None
           | Some (Inl err, mu1) \<Rightarrow> Some (Returns (Inl err, c))
           | Some (Inr sign, mu1) \<Rightarrow>
               (case Execute E sub [signing_process E sign] sched sched2 stops c of
                  None \<Rightarrow> None
                | Some (Panics s) \<Rightarrow> Some (Panics s)
                | Some (Returns (Some err, c1)) \<Rightarrow> Some (Returns (Inl err, c1))
                | Some (Returns (None, c1)) \<Rightarrow>
                    map_option (\<lambda>answer. Returns (Inr answer, c1)) (sign_answer sig_bytes sent))))"

subsection \<open>The routes\<close>

text \<open>Every answer has the HTTP status 200; the code is in the body.  \<open>ServerError\<close> is what gin's recovery
  makes of a panic.\<close>

datatype api_response = EmptyObject | Success string | Failure string | ServerError

text \<open>The handlers are globals that \<open>service.Run\<close> sets when it has come that far; until then they are nil.
  \<open>handle\<close> is the handler on the state.\<close>

definition genkey_route :: "bool \<Rightarrow> ('s \<Rightarrow> (go_error option \<times> 's) outcome option) \<Rightarrow> 's \<Rightarrow> (api_response \<times> 's) option" where
  "genkey_route ready handle s =
     (if \<not> ready then Some (ServerError, s)
      else case handle s of
             None \<Rightarrow> None
           | Some (Panics e) \<Rightarrow> Some (ServerError, s)
           | Some (Returns (Some err, s1)) \<Rightarrow> Some (Failure ''Failed executing keygen'', s1)
           | Some (Returns (None, s1)) \<Rightarrow> Some (Success ''result'', s1))"

text \<open>Binding the request: the body must be an object with a non-empty \<open>hash\<close>.\<close>

definition bind_sign_request :: "(bytes \<Rightarrow> json option) \<Rightarrow> bytes \<Rightarrow> string result" where
  "bind_sign_request parse_json body =
     (case parse_object parse_json body of
        Inl err \<Rightarrow> Inl err
      | Inr fs \<Rightarrow>
          (case dec_field dec_string ''hash'' '''' fs of
             Inl err \<Rightarrow> Inl err
           | Inr hash \<Rightarrow> if hash = '''' then Inl (ExternError ''validator: required'') else Inr hash))"

definition sign_route ::
  "(bytes \<Rightarrow> json option) \<Rightarrow> bool \<Rightarrow> (string \<Rightarrow> 's \<Rightarrow> (string result \<times> 's) outcome option) \<Rightarrow> bytes \<Rightarrow> 's \<Rightarrow> (api_response \<times> 's) option" where
  "sign_route parse_json ready handle body s =
     (case bind_sign_request parse_json body of
        Inl err \<Rightarrow> Some (Failure ''bind json error'', s)
      | Inr hash \<Rightarrow>
          (if \<not> ready then Some (ServerError, s)
           else case handle hash s of
                  None \<Rightarrow> None
                | Some (Panics e) \<Rightarrow> Some (ServerError, s)
                | Some (Returns (Inl err, s1)) \<Rightarrow> Some (Failure ''Failed executing sign'', s1)
                | Some (Returns (Inr result, s1)) \<Rightarrow> Some (Success result, s1)))"

text \<open>The three routes of \<open>InitTssDemoApiRouter\<close>, under \<open>/api/v1/\<close>; \<open>None\<close> is a request that no route takes or
  that is not answered.\<close>

datatype http_method = GET | POST

definition api_serve ::
  "(bytes \<Rightarrow> json option) \<Rightarrow> bool \<Rightarrow> ('s \<Rightarrow> (go_error option \<times> 's) outcome option) \<Rightarrow>
   (string \<Rightarrow> 's \<Rightarrow> (string result \<times> 's) outcome option) \<Rightarrow> http_method \<Rightarrow> string \<Rightarrow> bytes \<Rightarrow> 's \<Rightarrow> (api_response \<times> 's) option" where
  "api_serve parse_json ready keygen sign meth path body s =
     (if meth = GET \<and> path = ''/api/v1/'' then Some (EmptyObject, s)
      else if meth = GET \<and> path = ''/api/v1/genkey'' then genkey_route ready keygen s
      else if meth = POST \<and> path = ''/api/v1/sign'' then sign_route parse_json ready sign body s
      else None)"

subsection \<open>Properties\<close>

text \<open>Fact (keygen_api_hides_errors): whenever \<open>Execute\<close> returns, with whatever error, the answer of the keygen route is
  success: a keygen that failed, or that was rejected as already pending, cannot be told from one that
  generated a key.  With a keyshare in place nothing is executed.\<close>

theorem keygen_api_hides_errors:
  assumes "Execute E sub [keygen_process E (NewKeygen E keygen_sessionID threshold)] sched sched2 stops c = Some (Returns (err, c1))"
  shows "genkey_route True (keygen_HandleEvents E sub get threshold f sched sched2 stops) c =
    Some (Success ''result'', if \<exists>key. get f = Inr key \<and> ek_Threshold key \<noteq> 0 then c else c1)"
  using assms by (auto simp: genkey_route_def keygen_HandleEvents_def split: sum.split)

text \<open>Fact (api_before_boot): until the service has come up no request changes anything, and none succeeds but the empty
  answer of the root.\<close>

theorem api_before_boot:
  assumes "api_serve parse_json False keygen sign meth path body s = Some (r, s1)"
  shows "s1 = s \<and> (\<forall>result. r \<noteq> Success result)"
  using assms by (auto simp: api_serve_def genkey_route_def sign_route_def split: if_splits sum.splits)

theorem api_before_boot_witness:
  "\<exists>r. api_serve unary_parse False (\<lambda>s. None) (\<lambda>h s. None) GET ''/api/v1/genkey'' '''' (7::nat) = Some (r, 7) \<and> (\<forall>result. r \<noteq> Success result)"
proof -
  obtain r s1 where r: "api_serve unary_parse False (\<lambda>s. None) (\<lambda>h s. None) GET ''/api/v1/genkey'' '''' (7::nat) = Some (r, s1)"
    by (simp add: api_serve_def genkey_route_def)
  from api_before_boot [OF r] r show ?thesis by blast
qed

text \<open>Fact (sign_request_checked): a sign request is refused, and changes nothing, when its body is no object with a
  hash, when the hash is not hexadecimal, or when the relayer has no keyshare.\<close>

theorem sign_request_checked:
  assumes "bind_sign_request qj body = Inl e \<or>
    (\<exists>hash. bind_sign_request qj body = Inr hash \<and> (hex_decode hash = None \<or> get f = Inl e'))"
  shows "\<exists>text. sign_route qj True (\<lambda>hash. sign_HandleEvents E sub get sig_bytes hash f False sched sched2 stops sent) body c =
    Some (Failure text, c)"
  using assms
  by (auto simp: sign_route_def sign_HandleEvents_def NewSigning_def LockKeyshare_def UnlockKeyshare_def split: option.splits)

text \<open>Fact (sign_subscription_leaks): the session of a sign request has dashes in its name, so a signing keeps its
  subscription when it is stopped: the channel still gets the session's messages.  The keygen session has
  none, and stopping a keygen gives back the subscriptions there were.\<close>

theorem sign_subscription_leaks:
  assumes "NewSigning get msg (sign_sessionID hash) f mu = Some (Inr s, mu1)"
    and "Signing_setup E np pp now ch coord params s c = (Inr party, s1, c1)"
    and "Keygen_setup E np' pp' now' ch' (NewKeygen E keygen_sessionID threshold) c mu' = Some (party', k1, c2, mu2)"
    and "sub_view (cs_subs c) (sub_key keygen_sessionID TssKeyGenMsg now') = None" and "party' = Inr p"
  shows "ch \<in> set (GetSubscribers (cs_subs (Signing_Stop s1 c1)) (sign_sessionID hash) TssKeySignMsg) \<and>
    sub_view (cs_subs (UnSubscribe (kg_subscriptionID k1) c2)) = sub_view (cs_subs c)"
proof
  have sid: "bt_SID (sg_base s) = sign_sessionID hash"
    using assms(1) by (auto simp: NewSigning_def split: option.splits outcome.splits sum.splits)
  have sub: "(sg_subscriptionID s1, c1) = Subscribe (sign_sessionID hash) TssKeySignMsg now ch c"
    using assms(2) sid by (cases rule: Signing_setupE) auto
  have "CHR ''-'' \<in> set (sign_sessionID hash)" "TssKeySignMsg \<le> UnknownMsg"
    by (simp_all add: sign_sessionID_def TssKeySignMsg_def UnknownMsg_def)
  from dashed_session [OF this, of now ch "cs_subs c"] sub
  show "ch \<in> set (GetSubscribers (cs_subs (Signing_Stop s1 c1)) (sign_sessionID hash) TssKeySignMsg)"
    by (auto simp: Signing_Stop_def Subscribe_def UnSubscribe_def split: prod.splits)
  have "CHR ''-'' \<notin> set keygen_sessionID" "TssKeyGenMsg \<le> UnknownMsg"
    by (simp_all add: keygen_sessionID_def TssKeyGenMsg_def UnknownMsg_def)
  from clean_session [OF this assms(4), of ch'] assms(3,5)
  show "sub_view (cs_subs (UnSubscribe (kg_subscriptionID k1) c2)) = sub_view (cs_subs c)"
    by (auto simp: Keygen_setup_def NewKeygen_def Let_def Subscribe_def UnSubscribe_def split: option.splits sum.splits prod.splits)
qed

text \<open>Fact (sign_answered): after a run of the signing that ended without an error and without being cancelled, the
  handler does not wait in vain: on the coordinator it answers the signature with its recovery byte in
  hexadecimal, on every other relayer the empty string.\<close>

theorem sign_answered:
  assumes "wait_ok (te_wait E)" and "uncancelled sched"
    and "Signing_Run E np pp P now ch sched coord params s c = Some (None, s1, c1, sent)"
  shows "if coord then \<exists>sig. sign_answer sig_bytes sent = Some (hex_encode (fst (sig_bytes sig) @ snd (sig_bytes sig)))
    else sign_answer sig_bytes sent = Some ''''"
proof (cases coord)
  case True
  then obtain sig where "sent = [Some sig]" using signing_run_results [OF assms(1,3)] assms(2) by auto
  then show ?thesis using True by (auto simp: sign_answer_def intro: exI [of _ sig])
next
  case False
  then show ?thesis using signing_run_results [OF assms(1,3)] assms(2) by (simp add: sign_answer_def)
qed

subsection \<open>Instances\<close>

theorem keygen_api_hides_errors_witness:
  "genkey_route True (keygen_HandleEvents sample_env sample_sub (\<lambda>f. Inl (Errorf ''error on reading keyshare file'') :: nat ecdsa_keyshare result)
      1 None [] [] []) ((NewCoordinator (NewCommunication ''aaaaaaa1''))\<lparr>pendingProcesses := [''keygen'' \<mapsto> True]\<rparr>) =
    Some (Success ''result'', (NewCoordinator (NewCommunication ''aaaaaaa1''))\<lparr>pendingProcesses := [''keygen'' \<mapsto> True]\<rparr>)"
proof -
  let ?c = "(NewCoordinator (NewCommunication ''aaaaaaa1''))\<lparr>pendingProcesses := [''keygen'' \<mapsto> True]\<rparr> :: nat coordinator"
  have "Execute sample_env sample_sub [keygen_process sample_env (NewKeygen sample_env keygen_sessionID 1)] [] [] [] ?c =
      Some (Returns (Some (Errorf ''process already pending''), ?c))"
    by (simp add: Execute_def keygen_process_def NewKeygen_def keygen_sessionID_def)
  from keygen_api_hides_errors [OF this, of "\<lambda>f. Inl (Errorf ''error on reading keyshare file'') :: nat ecdsa_keyshare result" None]
  show ?thesis by simp
qed

theorem sign_request_checked_witness:
  "\<exists>text. sign_route unary_parse True (\<lambda>hash. sign_HandleEvents sample_env sample_sub
      (\<lambda>f. Inr (sg_key sample_signing)) (\<lambda>g::nat. ('''', '''')) hash None False [] [] [] [])
      (unary_print (JObj [(''hash'', JStr ''0x1'')])) (NewCoordinator (NewCommunication ''aaaaaaa1'')) =
    Some (Failure text, NewCoordinator (NewCommunication ''aaaaaaa1''))"
proof -
  have "bind_sign_request unary_parse (unary_print (JObj [(''hash'', JStr ''0x1'')])) = Inr ''0x1''"
    by (simp add: bind_sign_request_def parse_object_print [OF json_text_ok_unary] dec_scalars)
  moreover have "hex_decode ''0x1'' = None" by (simp add: hex_val_def Let_def split: option.split)
  ultimately show ?thesis by (intro sign_request_checked) blast
qed

theorem sign_subscription_leaks_witness:
  "\<exists>s1 c1. (0::nat) \<in> set (GetSubscribers (cs_subs (Signing_Stop (s1 :: nat signing) c1)) ''sid-sign-00'' TssKeySignMsg)"
proof -
  let ?np = "\<lambda>ps p n t. Inr ps" and ?c = "NewCommunication ''aaaaaaa1'' :: nat comm_state"
  obtain s where s: "NewSigning (\<lambda>f. Inr (sg_key sample_signing)) 42 (sign_sessionID ''00'') None False = Some (Inr s, False)"
    by (simp add: NewSigning_def LockKeyshare_def UnlockKeyshare_def)
  obtain s1 c1 where s1: "Signing_setup sample_env ?np (\<lambda>m q k n. Inr q) 5 (0::nat) False sample_subset s ?c =
      (Inr (env_parties sample_env [''aaaaaaa1'', ''aaaaaaa3'']), s1, c1)"
    using sample_Signing_setup [of 5 0 False s] by blast
  obtain p k1 c2 where k: "Keygen_setup sample_env ?np (\<lambda>q n. Inr q) 5 0 (NewKeygen sample_env keygen_sessionID 1) ?c False =
      Some (Inr p, k1, c2, True)"
    by (simp add: Keygen_setup_def LockKeyshare_def Let_def split_beta)
  have "sub_view (cs_subs ?c) (sub_key keygen_sessionID TssKeyGenMsg 5) = None"
    by (simp add: NewCommunication_def NewSessionSubscriptionManager_def sub_view_def sub_key_def sub_chans_def sub_types_def)
  from sign_subscription_leaks [OF s s1 k this refl] show ?thesis by (auto simp: sign_sessionID_def)
qed

theorem sign_answered_witness:
  "\<exists>s1 c1 sent answer. Signing_Run sample_env (\<lambda>ps p n t. Inr ps) (\<lambda>m q k n. Inr q) sample_party 5 (0::nat) sample_signing_sched True
     sample_subset sample_signing (NewCommunication ''aaaaaaa1'') = Some (None, s1, c1, sent) \<and>
     sign_answer (\<lambda>g. (''r'', ''s'')) sent = Some answer"
proof -
  obtain s1 c1 sent where run: "Signing_Run sample_env (\<lambda>ps p n t. Inr ps) (\<lambda>m q k n. Inr q) sample_party 5 (0::nat)
      sample_signing_sched True sample_subset sample_signing (NewCommunication ''aaaaaaa1'') = Some (None, s1, c1, sent)"
    using sample_signing_run by blast
  have "wait_ok (te_wait sample_env)" "uncancelled sample_signing_sched"
    by (simp_all add: wait_ok_first_error sample_signing_sched_def)
  from sign_answered [OF this run, of "\<lambda>g. (''r'', ''s'')"] run show ?thesis by auto
qed

end
