(* ===== verification/Startup.thy ===== *)
theory Startup
  imports EnvConfig Topology Observability Handlers Bully
begin

text \<open>
  The start of the relayer, \<open>Run\<close> of \<open>service/tss_run.go\<close>: configuration, topology, key, host, metrics,
  handlers, in this order, every error a panic; and \<open>NewHost\<close> of \<open>tss_util/comm/p2p/host.go\<close>.

  Parameters: \<open>decode_key\<close> (libp2p's decoding of the configured private key), \<open>new_host\<close> (\<open>libp2p.New\<close>: the
  identity of the host and what its peerstore holds at first), and what the metrics libraries answer, with the
  time of the start and the version of the build.
\<close>

record boot_env =
  bv_decode_key :: "string \<Rightarrow> bytes result"
  bv_new_host :: "bytes \<Rightarrow> 16 word \<Rightarrow> (peer_id \<times> peerstore) result"
  bv_metric_provider :: "string \<Rightarrow> go_error option"
  bv_relayer_metrics :: "(string \<times> string) list \<Rightarrow> go_error option"
  bv_gauge :: "string \<Rightarrow> go_error option"
  bv_now :: int
  bv_version :: string

text \<open>A nil key is an error before libp2p is asked.  The log line takes the first listen address of the new
  host, which \<open>libp2p.New\<close> with a listen address provides.\<close>

definition NewHost :: "boot_env \<Rightarrow> bytes option \<Rightarrow> network_topology \<Rightarrow> 16 word \<Rightarrow> (peer_id \<times> peerstore) result outcome" where
  "NewHost V privKey networkTopology port =
     (case privKey of
        None \<Rightarrow> Returns (Inl (Errorf ''unable to create libp2p host: private key not defined''))
      | Some priv \<Rightarrow>
          (case bv_new_host V priv port of
             Inl err \<Rightarrow> Returns (Inl (Errorf ''unable to create libp2p host''))
           | Inr (hostID, ps) \<Rightarrow>
               (case LoadPeers (nt_Peers networkTopology) ps of
                  Panics s \<Rightarrow> Panics s
                | Returns ps1 \<Rightarrow> Returns (Inr (hostID, ps1)))))"

text \<open>The provider and the store of the topology; the provider's constructor returns no error.\<close>

record topology_provider =
  tpr_path :: string

definition NewNetworkTopologyProvider :: "topology_configuration \<Rightarrow> topology_provider result" where
  "NewNetworkTopologyProvider config = Inr \<lparr>tpr_path = tcfg_Path config\<rparr>"

record topology_store =
  tst_path :: string

definition NewTopologyStore :: "string \<Rightarrow> topology_store" where
  "NewTopologyStore filePath = \<lparr>tst_path = filePath\<rparr>"

lemmas boot_parts [simp] = NewNetworkTopologyProvider_def NewTopologyStore_def NewECDSAKeyshareStore_def panicOnError_def

text \<open>A relayer that has started: its parts as \<open>Run\<close> leaves them before it waits for a signal.\<close>

record 'c relayer =
  rl_config :: config
  rl_gate :: connection_gate
  rl_hostID :: peer_id
  rl_peerstore :: peerstore
  rl_health_listen :: string
  rl_electorFactory :: "'c coordinator_elector_factory"
  rl_metrics :: sygma_metrics
  rl_keygen_handler :: "'c keygen_event_handler"
  rl_sign_handler :: "'c sign_event_handler"
  rl_part_of_mpc :: bool

text \<open>\<open>config\<close> is the outcome of the first lines, \<open>load_config\<close>; \<open>fs\<close> are the files by their paths; \<open>get\<close>
  is \<open>GetKeyshare\<close>.\<close>

definition Run_boot ::
  "addr_info key_codec \<Rightarrow> (json \<Rightarrow> bytes) \<Rightarrow> (bytes \<Rightarrow> json option) \<Rightarrow> (string \<Rightarrow> addr_info result) \<Rightarrow> file_io \<Rightarrow> boot_env \<Rightarrow>
   (keyfile \<Rightarrow> 'k ecdsa_keyshare result) \<Rightarrow> config outcome \<Rightarrow> (string \<Rightarrow> keyfile) \<Rightarrow> ('c relayer \<times> (string \<Rightarrow> keyfile)) outcome" where
  "Run_boot A print_json parse_json addrInfoFromString io V get configuration fs =
     (case configuration of
        Panics s \<Rightarrow> Panics s
      | Returns c \<Rightarrow>
          (let rc = cf_RelayerConfig c; mpc = rc_Mpc rc; topologyStore = NewTopologyStore (tcfg_Path (mc_Topology mpc));
               path = tst_path topologyStore in
           case panicOnError (NewNetworkTopologyProvider (mc_Topology mpc)) of
             Panics s \<Rightarrow> Panics s
           | Returns topologyProvider \<Rightarrow>
           case load_topology A print_json parse_json addrInfoFromString io (fs path) of
             Panics s \<Rightarrow> Panics s
           | Returns (networkTopology, f1) \<Rightarrow>
               (let fs1 = fs(path := f1) in
                case bv_decode_key V (mc_Key mpc) of
                  Inl err \<Rightarrow> Panics ''panicOnError''
                | Inr priv \<Rightarrow>
                    (case NewHost V (Some priv) networkTopology (mc_Port mpc) of
                       Panics s \<Rightarrow> Panics s
                     | Returns (Inl err) \<Rightarrow> Panics ''panicOnError''
                     | Returns (Inr (hostID, ps)) \<Rightarrow>
                         (let coordinator = NewCoordinator (NewCommunication hostID);
                              keyshareStore = NewECDSAKeyshareStore (mc_KeysharePath mpc)
                          in if bv_metric_provider V (rc_OpenTelemetryCollectorURL rc) \<noteq> None then Panics ''panic''
                             else
                               (case NewSygmaMetrics (bv_relayer_metrics V) (bv_gauge V) (bv_now V) (rc_Env rc) (rc_Id rc) (bv_version V) of
                                  Inl err \<Rightarrow> Panics ''panic''
                                | Inr sygmaMetrics \<Rightarrow> Returns (
                                    \<lparr>rl_config = c, rl_gate = NewConnectionGate networkTopology, rl_hostID = hostID, rl_peerstore = ps,
                                     rl_health_listen = health_listen (rc_HealthPort rc),
                                     rl_electorFactory = NewCoordinatorElectorFactory hostID (rc_Bully rc), rl_metrics = sygmaMetrics,
                                     rl_keygen_handler = NewKeygenEventHandler coordinator hostID keyshareStore (nt_Threshold networkTopology),
                                     rl_sign_handler = NewSignEventHandler coordinator hostID keyshareStore,
                                     rl_part_of_mpc = (case get (fs1 (ks_path keyshareStore)) of Inl err \<Rightarrow> False | Inr key \<Rightarrow> True)\<rparr>, fs1)))))))"

lemma Run_bootE:
  assumes "Run_boot A pj qj g io V get configuration fs = Returns (r, fs1)"
  obtains c nt f1 priv hostID ps ps1 where "configuration = Returns c" "rl_config r = c"
    "load_topology A pj qj g io (fs (tcfg_Path (mc_Topology (rc_Mpc (cf_RelayerConfig c))))) = Returns (nt, f1)"
    "fs1 = fs(tcfg_Path (mc_Topology (rc_Mpc (cf_RelayerConfig c))) := f1)"
    "bv_new_host V priv (mc_Port (rc_Mpc (cf_RelayerConfig c))) = Inr (hostID, ps)"
    "LoadPeers (nt_Peers nt) ps = Returns ps1" "rl_gate r = NewConnectionGate nt" "rl_peerstore r = ps1"
    "kh_threshold (rl_keygen_handler r) = nt_Threshold nt" "kh_coordinator (rl_keygen_handler r) = NewCoordinator (NewCommunication hostID)"
    "sh_coordinator (rl_sign_handler r) = NewCoordinator (NewCommunication hostID)" "rl_hostID r = hostID"
    "kh_storer (rl_keygen_handler r) = NewECDSAKeyshareStore (mc_KeysharePath (rc_Mpc (cf_RelayerConfig c)))"
    "sh_fetcher (rl_sign_handler r) = NewECDSAKeyshareStore (mc_KeysharePath (rc_Mpc (cf_RelayerConfig c)))"
  using assms
  by (auto simp: Run_boot_def NewHost_def NewKeygenEventHandler_def NewSignEventHandler_def Let_def
      split: outcome.splits prod.splits sum.splits if_splits)

subsection \<open>Properties\<close>

text \<open>C37 (boot_wires_topology): a relayer that has started knows exactly the peers its connection gate admits, and
  generates keys with the threshold of the topology that gate was built from; its two handlers share one
  coordinator, on which nothing is pending, and one keyshare file.\<close>

theorem boot_wires_topology:
  assumes "Run_boot A pj qj g io V get configuration fs = Returns (r, fs1)"
  shows "(p \<in> set (peerstore_Peers (rl_peerstore r))) = InterceptPeerDial (rl_gate r) p \<and>
    InterceptSecured (rl_gate r) p = InterceptPeerDial (rl_gate r) p \<and>
    kh_threshold (rl_keygen_handler r) = nt_Threshold (cg_topology (rl_gate r)) \<and>
    kh_coordinator (rl_keygen_handler r) = sh_coordinator (rl_sign_handler r) \<and>
    pendingProcesses (sh_coordinator (rl_sign_handler r)) sid = None \<and>
    kh_storer (rl_keygen_handler r) = sh_fetcher (rl_sign_handler r)"
  using assms
proof (cases rule: Run_bootE)
  case (1 c nt f1 priv hostID ps ps1)
  then show ?thesis using LoadPeers_gate [of nt ps] by (auto simp: NewConnectionGate_def NewCoordinator_def)
qed

text \<open>C38 (restart_stable): a relayer that is started again, with the same configuration and on the files its
  first start left, comes up in the same state and leaves the files as they are.\<close>

theorem restart_stable:
  assumes "json_text_ok pj qj" and "key_codec_ok A" and "file_io_ok io"
    and "Run_boot A pj qj g io V get configuration fs = Returns (r, fs1)"
  shows "Run_boot A pj qj g io V get configuration fs1 = Returns (r, fs1)"
  using assms(4)
proof (cases rule: Run_bootE)
  case (1 c nt f1 priv hostID ps ps1)
  note stable = load_topology_stable [OF assms(1-3) 1(3)]
  show ?thesis
    using assms(4) 1(1,3,4) stable by (simp add: Run_boot_def Let_def split: sum.splits outcome.splits prod.splits if_splits)
qed

subsection \<open>Instances\<close>

definition sample_config :: config where
  "sample_config = \<lparr>cf_RelayerConfig = \<lparr>rc_OpenTelemetryCollectorURL = '''', rc_LogLevel = 1, rc_LogFile = '''', rc_HealthPort = 9001,
     rc_Env = '''', rc_Id = '''', rc_Mpc = \<lparr>mc_Topology = \<lparr>tcfg_Path = ''t''\<rparr>, mc_Port = 9000, mc_KeysharePath = ''k'',
       mc_FrostKeysharePath = '''', mc_Key = ''key'', mc_CommHealthCheckInterval = 0\<rparr>,
     rc_Bully = \<lparr>bc_PingWaitTime = 0, bc_PingBackOff = 0, bc_PingInterval = 0, bc_ElectionWaitTime = 0, bc_BullyWaitTime = 0\<rparr>,
     rc_Uploader = \<lparr>up_URL = '''', up_AuthToken = '''', up_MaxRetries = 0, up_MaxElapsedTime = 0\<rparr>\<rparr>, cf_ChainConfigs = []\<rparr>"

definition sample_boot_env :: boot_env where
  "sample_boot_env = \<lparr>bv_decode_key = Inr, bv_new_host = (\<lambda>priv port. Inr (''a'', [(''a'', [''self''])])),
     bv_metric_provider = (\<lambda>url. None), bv_relayer_metrics = (\<lambda>as. None), bv_gauge = (\<lambda>name. None), bv_now = 0, bv_version = ''1''\<rparr>"

definition sample_get :: "keyfile \<Rightarrow> nat ecdsa_keyshare result" where
  "sample_get f = Inl (Errorf ''error on reading keyshare file'')"

lemma sample_boot:
  "\<exists>r :: nat relayer. Run_boot addr_codec unary_print unary_parse sample_addr good_io sample_boot_env sample_get (Returns sample_config)
     [''t'' \<mapsto> unary_print sample_raw] = Returns (r, [''t'' \<mapsto> unary_print sample_stored]) \<and> peerstore_Peers (rl_peerstore r) = [''a'']"
  using sample_load
  by (simp add: Run_boot_def sample_config_def sample_boot_env_def sample_get_def NewHost_def LoadPeers_def sample_topology_def
      NewSygmaMetrics_def NewMpcMetrics_def NewHostMetrics_def peerstore_Peers_def RemovePeer_def AddAddr_def Let_def)

theorem boot_wires_topology_witness:
  "\<exists>(r :: nat relayer) fs1. Run_boot addr_codec unary_print unary_parse sample_addr good_io sample_boot_env sample_get (Returns sample_config)
     [''t'' \<mapsto> unary_print sample_raw] = Returns (r, fs1) \<and> InterceptPeerDial (rl_gate r) ''a'' \<and> \<not> InterceptPeerDial (rl_gate r) ''b''"
proof -
  obtain r :: "nat relayer" and fs1 where r: "Run_boot addr_codec unary_print unary_parse sample_addr good_io sample_boot_env sample_get
      (Returns sample_config) [''t'' \<mapsto> unary_print sample_raw] = Returns (r, fs1)" "peerstore_Peers (rl_peerstore r) = [''a'']"
    using sample_boot by blast
  have "''a'' \<in> set (peerstore_Peers (rl_peerstore r))" "''b'' \<notin> set (peerstore_Peers (rl_peerstore r))" by (simp_all add: r(2))
  with boot_wires_topology [OF r(1), THEN conjunct1] r(1) show ?thesis by blast
qed

theorem restart_stable_witness:
  "\<exists>r :: nat relayer. Run_boot addr_codec unary_print unary_parse sample_addr good_io sample_boot_env sample_get (Returns sample_config)
     [''t'' \<mapsto> unary_print sample_stored] = Returns (r, [''t'' \<mapsto> unary_print sample_stored])"
proof -
  obtain r :: "nat relayer" where "Run_boot addr_codec unary_print unary_parse sample_addr good_io sample_boot_env sample_get
      (Returns sample_config) [''t'' \<mapsto> unary_print sample_raw] = Returns (r, [''t'' \<mapsto> unary_print sample_stored])"
    using sample_boot by blast
  from restart_stable [OF json_text_ok_unary addr_codec_ok codec_instances(3) this] show ?thesis by blast
qed

end
