(* ===== verification/PropStore.thy ===== *)
theory PropStore
  imports GoStd
begin

text \<open>
  The proposal store \<open>tss_util/store/propstore.go\<close>: a status per proposal, kept under a key that
  \<open>fmt.Sprintf\<close> builds from the proposal's three numbers.  The database behind it is a parameter.
\<close>

type_synonym prop_status = string

definition MissingProp :: prop_status where "MissingProp = ''missing''"
definition PendingProp :: prop_status where "PendingProp = ''pending''"
definition FailedProp :: prop_status where "FailedProp = ''failed''"
definition ExecutedProp :: prop_status where "ExecutedProp = ''executed''"

text \<open>What \<open>GetByKey\<close> answers: a value, leveldb's \<open>ErrNotFound\<close>, or another error.\<close>

datatype kv_answer = Found bytes | NotFound | KvError go_error

record 'd kv_store =
  kv_set :: "bytes \<Rightarrow> bytes \<Rightarrow> 'd \<Rightarrow> go_error option \<times> 'd"
  kv_get :: "bytes \<Rightarrow> 'd \<Rightarrow> kv_answer"

text \<open>What a key-value store promises: a write without an error is what the key holds from then on, and no
  write changes another key.\<close>

definition kv_ok :: "'d kv_store \<Rightarrow> bool" where
  "kv_ok S \<longleftrightarrow> (\<forall>k v d. fst (kv_set S k v d) = None \<longrightarrow> kv_get S k (snd (kv_set S k v d)) = Found v) \<and>
     (\<forall>k k' v d. k \<noteq> k' \<longrightarrow> kv_get S k' (snd (kv_set S k v d)) = kv_get S k' d)"

definition prop_key :: "8 word \<Rightarrow> 8 word \<Rightarrow> 64 word \<Rightarrow> bytes" where
  "prop_key source destination depositNonce =
     ''source:'' @ show_nat (unat source) @ '':destination:'' @ show_nat (unat destination) @
     '':depositNonce:'' @ show_nat (unat depositNonce)"

definition StorePropStatus ::
  "'d kv_store \<Rightarrow> 8 word \<Rightarrow> 8 word \<Rightarrow> 64 word \<Rightarrow> prop_status \<Rightarrow> 'd \<Rightarrow> go_error option \<times> 'd" where
  "StorePropStatus S source destination depositNonce status d = kv_set S (prop_key source destination depositNonce) status d"

definition PropStatus :: "'d kv_store \<Rightarrow> 8 word \<Rightarrow> 8 word \<Rightarrow> 64 word \<Rightarrow> 'd \<Rightarrow> prop_status \<times> go_error option" where
  "PropStatus S source destination depositNonce d =
     (case kv_get S (prop_key source destination depositNonce) d of
        NotFound \<Rightarrow> (MissingProp, None)
      | KvError err \<Rightarrow> (MissingProp, Some err)
      | Found v \<Rightarrow> (v, None))"

lemma show_nat_colon:
  "show_nat m @ CHR '':'' # r = show_nat n @ CHR '':'' # r' \<longleftrightarrow> m = n \<and> r = r'"
proof
  assume eq: "show_nat m @ CHR '':'' # r = show_nat n @ CHR '':'' # r'"
  have t: "takeWhile (\<lambda>c. c \<noteq> CHR '':'') (show_nat k @ CHR '':'' # s) = show_nat k" for k s
    by (rule takeWhile_append2 [THEN trans]) auto
  have "show_nat m = show_nat n" using arg_cong [OF eq, of "takeWhile (\<lambda>c. c \<noteq> CHR '':'')"] by (simp only: t)
  with eq show "m = n \<and> r = r'" by simp
qed simp

lemma prop_key_inj: "prop_key s d n = prop_key s' d' n' \<longleftrightarrow> s = s' \<and> d = d' \<and> n = n'"
  by (auto simp: prop_key_def show_nat_colon word_unat_eq_iff)

text \<open>Fact (prop_status_stored): the status read is the one stored last for the proposal, a proposal never stored is
  missing, and storing the status of one proposal changes no other.\<close>

theorem prop_status_stored:
  assumes "kv_ok S" and "StorePropStatus S s d n status db = (None, db1)"
  shows "PropStatus S s d n db1 = (status, None) \<and>
    ((s', d', n') \<noteq> (s, d, n) \<longrightarrow> PropStatus S s' d' n' db1 = PropStatus S s' d' n' db)"
proof -
  have set: "kv_set S (prop_key s d n) status db = (None, db1)" using assms(2) by (simp add: StorePropStatus_def)
  then have "kv_get S (prop_key s d n) db1 = Found status" using assms(1) unfolding kv_ok_def by (metis fst_conv snd_conv)
  moreover have "kv_get S k db1 = kv_get S k db" if "k \<noteq> prop_key s d n" for k
    using assms(1) set that unfolding kv_ok_def by (metis snd_conv)
  ultimately show ?thesis by (auto simp: PropStatus_def prop_key_inj)
qed

definition map_store :: "(bytes \<rightharpoonup> bytes) kv_store" where
  "map_store = \<lparr>kv_set = (\<lambda>k v m. (None, m(k \<mapsto> v))), kv_get = (\<lambda>k m. case m k of None \<Rightarrow> NotFound | Some v \<Rightarrow> Found v)\<rparr>"

theorem prop_status_stored_witness:
  "PropStatus map_store 1 2 3 (snd (StorePropStatus map_store 1 2 3 ExecutedProp Map.empty)) = (ExecutedProp, None) \<and>
   PropStatus map_store 2 1 3 (snd (StorePropStatus map_store 1 2 3 ExecutedProp Map.empty)) = (MissingProp, None)"
proof -
  have "kv_ok map_store" by (simp add: kv_ok_def map_store_def)
  moreover have "StorePropStatus map_store 1 2 3 ExecutedProp Map.empty =
      (None, snd (StorePropStatus map_store 1 2 3 ExecutedProp Map.empty))"
    by (simp add: StorePropStatus_def map_store_def)
  moreover have "PropStatus map_store 2 1 3 Map.empty = (MissingProp, None)" by (simp add: PropStatus_def map_store_def)
  ultimately show ?thesis using prop_status_stored [of map_store 1 2 3 ExecutedProp Map.empty _ 2 1 3] by auto
qed

end
