(* ===== verification/ChainConfig.thy ===== *)
theory ChainConfig
  imports EnvConfig
begin

text \<open>
  The general part of a chain's configuration, \<open>tss_util/tss_config/chain/config.go\<close>, with the command line
  flags that override it.  \<open>get_string\<close> and \<open>get_bool\<close> are viper's lookups.
\<close>

record general_chain_config =
  gcc_Name :: string
  gcc_Id :: "8 word option"
  gcc_Endpoint :: string
  gcc_Type :: string
  gcc_BlockstorePath :: string
  gcc_FreshStart :: bool
  gcc_LatestBlock :: bool
  gcc_Key :: string
  gcc_Insecure :: bool

definition chain_Validate :: "general_chain_config \<Rightarrow> go_error option" where
  "chain_Validate c =
     (case gcc_Id c of
        None \<Rightarrow> Some (Errorf ''required field domain.Id empty for chain <nil>'')
      | Some i \<Rightarrow>
          if gcc_Endpoint c = '''' then Some (Errorf (''required field chain.Endpoint empty for chain '' @ show_nat (unat i)))
          else if gcc_Name c = '''' then Some (Errorf (''required field chain.Name empty for chain '' @ show_nat (unat i)))
          else None)"

definition ParseFlags :: "(string \<Rightarrow> string) \<Rightarrow> (string \<Rightarrow> bool) \<Rightarrow> general_chain_config \<Rightarrow> general_chain_config" where
  "ParseFlags get_string get_bool c =
     (let blockstore = get_string ''blockstore'';
          c1 = (if blockstore \<noteq> '''' then c\<lparr>gcc_BlockstorePath := blockstore\<rparr> else c);
          freshStart = get_bool ''fresh'';
          c2 = (if freshStart then c1\<lparr>gcc_FreshStart := freshStart\<rparr> else c1);
          latestBlock = get_bool ''latest''
      in if latestBlock then c2\<lparr>gcc_LatestBlock := latestBlock\<rparr> else c2)"

text \<open>What viper documents of a bound flag that is set nowhere: its default.\<close>

definition flags_unset :: "(string \<times> flag_default) list \<Rightarrow> (string \<Rightarrow> string) \<Rightarrow> (string \<Rightarrow> bool) \<Rightarrow> bool" where
  "flags_unset flags get_string get_bool \<longleftrightarrow>
     list_all (\<lambda>(k, d). case d of FlagString s \<Rightarrow> get_string k = s | FlagBool b \<Rightarrow> get_bool k = b) flags"

subsection \<open>Properties\<close>

text \<open>Fact (chain_config_valid): a chain is valid exactly when it has an id (the id 0 included), an endpoint and a name, and
  the flags never change that.\<close>

theorem chain_config_valid:
  "(chain_Validate c = None \<longleftrightarrow> gcc_Id c \<noteq> None \<and> gcc_Endpoint c \<noteq> '''' \<and> gcc_Name c \<noteq> '''') \<and>
   chain_Validate (ParseFlags get_string get_bool c) = chain_Validate c"
  by (auto simp: chain_Validate_def ParseFlags_def Let_def split: option.split)

text \<open>Fact (blockstore_flag_wins): once the flags are bound, the path of the block store that a chain configures is never
  used: the flag that was not given has a default, and that overrides it.  The two switches keep what is configured.\<close>

theorem blockstore_flag_wins:
  assumes "flags_unset (BindFlags flags) get_string get_bool"
  shows "ParseFlags get_string get_bool c = c\<lparr>gcc_BlockstorePath := ''./lvldbdata''\<rparr>"
  using assms by (simp add: flags_unset_def BindFlags_def ParseFlags_def)

theorem blockstore_flag_wins_witness:
  "gcc_BlockstorePath (ParseFlags (\<lambda>k. case map_of (BindFlags []) k of Some (FlagString s) \<Rightarrow> s | _ \<Rightarrow> '''') (\<lambda>k. False)
     \<lparr>gcc_Name = ''evm1'', gcc_Id = Some 1, gcc_Endpoint = ''ws://'', gcc_Type = ''evm'', gcc_BlockstorePath = ''/var/lib/blocks'',
      gcc_FreshStart = False, gcc_LatestBlock = False, gcc_Key = '''', gcc_Insecure = False\<rparr>) = ''./lvldbdata''"
proof -
  have "flags_unset (BindFlags []) (\<lambda>k. case map_of (BindFlags []) k of Some (FlagString s) \<Rightarrow> s | _ \<Rightarrow> '''') (\<lambda>k. False)"
    by (simp add: flags_unset_def BindFlags_def)
  from blockstore_flag_wins [OF this] show ?thesis by simp
qed

end
