(* ===== verification/Commands.thy ===== *)
theory Commands
  imports Startup
begin

text \<open>
  The programs: \<open>cmd/server/main.go\<close>, the viper settings of \<open>config/config.go\<close> it starts from, and the
  generator of a relayer's key, \<open>cli/generateKey.go\<close>.

  Parameters: viper's lookups, libp2p's key functions.
\<close>

subsection \<open>Settings\<close>

text \<open>What \<open>init\<close> tells viper: where to look for a file and which keys may come from the environment.  A file that
  cannot be read is only reported.\<close>

record viper_settings =
  vs_configName :: string
  vs_configType :: string
  vs_configPaths :: "string list"
  vs_boundEnv :: "string list"

definition config_init :: viper_settings where
  "config_init = \<lparr>vs_configName = ''.env'', vs_configType = ''env'', vs_configPaths = [''.''],
     vs_boundEnv = [''LOG.LEVEL'', ''ENV'', ''PORT'', ''TSS_CONFIG'', ''NAME'', ''BLOCKSTORE'']\<rparr>"

subsection \<open>The server\<close>

datatype gin_mode = DebugMode | ReleaseMode

text \<open>What the server is after \<open>main\<close> has come to wait for a signal: its logger, gin's mode and the address of
  the HTTP server.  The relayer starts in a goroutine of its own (\<open>Run_boot\<close>); its requests are served by
  \<open>api_serve\<close> from the beginning.\<close>

record server =
  sv_logger :: log_state
  sv_mode :: gin_mode
  sv_addr :: string

definition server_main :: "log_env \<Rightarrow> (string \<Rightarrow> string) \<Rightarrow> (string \<Rightarrow> int) \<Rightarrow> log_state \<Rightarrow> server outcome" where
  "server_main L get_string get_int s0 =
     (let s = InitLogger L ''tss-demo'' s0;
          mode = (if get_string ''ENV'' \<noteq> ''production'' then DebugMode else ReleaseMode);
          addr = CHR '':'' # show_int (get_int ''port'')
      in case ls_Log s of
           None \<Rightarrow> Panics ''nil pointer dereference''
         | Some _ \<Rightarrow> Returns \<lparr>sv_logger = s, sv_mode = mode, sv_addr = addr\<rparr>)"

subsection \<open>The key generator\<close>

text \<open>The printed text; the format is a raw string, in which \<open>\n\<close> is a backslash and an n.\<close>

definition key_report :: "string \<Rightarrow> string \<Rightarrow> string" where
  "key_report pretty encPriv =
     CHR 0x0A # ''LibP2P peer identity: '' @ pretty @ [CHR '' '', CHR 0x5C, CHR ''n'', CHR 0x0A] @
     ''LibP2P private key: '' @ encPriv @ [CHR 0x0A]"

definition generateKey ::
  "('priv \<times> 'pub) result \<Rightarrow> ('pub \<Rightarrow> peer_id result) \<Rightarrow> ('priv \<Rightarrow> bytes result) \<Rightarrow> (peer_id \<Rightarrow> string) \<Rightarrow> string result" where
  "generateKey generated IDFromPublicKey MarshalPrivateKey pretty =
     and_then generated (\<lambda>(priv, pub).
     and_then (IDFromPublicKey pub) (\<lambda>peerID.
     and_then (MarshalPrivateKey priv) (\<lambda>marshPriv.
     Inr (key_report (pretty peerID) (b64_encode marshPriv)))))"

subsection \<open>Properties\<close>

text \<open>Fact (generated_key_boots): the key that the generator prints is one the relayer takes: written into the
  configuration it is decoded to the very key that was generated, when the decoder reads base64 as libp2p
  documents it.\<close>

theorem generated_key_boots:
  assumes "generateKey generated idf marshal pretty = Inr out"
    and "\<And>s. bv_decode_key V s = (case b64_decode s of None \<Rightarrow> Inl (ExternError ''illegal base64'') | Some b \<Rightarrow> Inr b)"
  shows "\<exists>priv pub peerID marshPriv encPriv. generated = Inr (priv, pub) \<and> idf pub = Inr peerID \<and> marshal priv = Inr marshPriv \<and>
    out = key_report (pretty peerID) encPriv \<and> bv_decode_key V encPriv = Inr marshPriv"
proof -
  obtain priv pub peerID marshPriv where "generated = Inr (priv, pub)" "idf pub = Inr peerID" "marshal priv = Inr marshPriv"
    "out = key_report (pretty peerID) (b64_encode marshPriv)"
    using assms(1) by (auto simp: generateKey_def and_then_Inr)
  moreover have "bv_decode_key V (b64_encode marshPriv) = Inr marshPriv" by (simp add: assms(2) b64_decode_encode)
  ultimately show ?thesis by blast
qed

theorem generated_key_boots_witness:
  "\<exists>out encPriv. generateKey (Inr (''priv'', ''pub'')) Inr Inr (\<lambda>p. p) = Inr out \<and> out = key_report ''pub'' encPriv \<and>
     b64_decode encPriv = Some ''priv''"
proof -
  let ?V = "sample_boot_env\<lparr>bv_decode_key := \<lambda>s. case b64_decode s of None \<Rightarrow> Inl (ExternError ''illegal base64'') | Some b \<Rightarrow> Inr b\<rparr>"
  obtain out where out: "generateKey (Inr (''priv'', ''pub'')) Inr Inr (\<lambda>p. p) = Inr out"
    by (simp add: generateKey_def)
  have "bv_decode_key ?V s = (case b64_decode s of None \<Rightarrow> Inl (ExternError ''illegal base64'') | Some b \<Rightarrow> Inr b)" for s by simp
  from generated_key_boots [OF out this] out show ?thesis by (auto split: option.splits)
qed

text \<open>Fact (server_needs_logger): the server does not start without a logger: where zap cannot build it, \<open>main\<close> panics at
  its first log line; else it listens on the configured port.\<close>

theorem server_needs_logger:
  "(le_Build L \<noteq> None \<longrightarrow> server_main L gs gi s = Panics ''nil pointer dereference'') \<and>
   (le_Build L = None \<longrightarrow> (\<exists>v. server_main L gs gi s = Returns v \<and> sv_addr v = CHR '':'' # show_int (gi ''port'')))"
  by (auto simp: server_main_def InitLogger_def InitLoggerWithLogFile_def Let_def)

theorem server_needs_logger_witness:
  "server_main \<lparr>le_MkdirAll = (\<lambda>d. None), le_OpenFile = (\<lambda>f. None), le_Build = Some (ExternError ''zap''), le_Dir = (\<lambda>f. f)\<rparr> (\<lambda>k. '''') (\<lambda>k. 8080)
     \<lparr>ls_logLevel = '''', ls_Log = None\<rparr> = Panics ''nil pointer dereference''"
  by (rule server_needs_logger [THEN conjunct1, THEN mp]) simp

end
