(* ===== verification/Spec2Isabelle.thy ===== *)
theory Spec2Isabelle
  imports Retry Progress Delivery Consensus Bully Startup Handlers PropStore ChainConfig Commands
begin

text \<open>
  A model of a threshold signature relayer written in Go (the program is under \<open>src/\<close>): relayers hold
  shares of an ECDSA or frost key, agree over libp2p on who takes part in a session and who leads it,
  and run key generation, resharing or signing through a protocol library.

  \<^bold>\<open>Parts of the program and where they are modelled.\<close>

  \<^item> \<open>Prelude\<close>: byte strings, peer identities, the error values and the two outcomes of a Go call (it
    returns or it panics).  \<open>GoStd\<close> and \<open>Json\<close>: what is used of Go's standard library (\<open>strings\<close>,
    \<open>strconv\<close>, \<open>fmt\<close>, \<open>encoding/hex\<close>, \<open>sort\<close>, base64, the decoding rules of \<open>encoding/json\<close>).
  \<^item> \<open>PeerOrder\<close>: \<open>tss_util/tss/util\<close> and the static elector; peers are ranked by a 64-bit hash prefix.
  \<^item> \<open>Messages\<close>, \<open>Subscriptions\<close>: \<open>tss_util/comm\<close> and \<open>comm/p2p/subscription.go\<close>; subscription
    identifiers are strings, and the nested maps of the manager are refined to one map (locale
    \<open>subscription_bus\<close>).
  \<^item> \<open>Wire\<close>, \<open>Streams\<close>, \<open>Network\<close>: \<open>tss/message\<close>, \<open>comm/p2p/util.go\<close>, \<open>manager.go\<close>, \<open>libp2p.go\<close>, the health
    check and its job; the record \<open>comm_state\<close> is \<open>Libp2pCommunication\<close>, \<open>cs_wire\<close> what was written.
  \<^item> \<open>Pool\<close>: a pool of goroutines.  A schedule says which task takes which event; \<open>pool_wait\<close> is
    \<open>Wait\<close>, and \<open>None\<close> when the schedule ends before every task has.  \<open>pool_wait_at sel\<close> is the same for tasks
    that at times block outside their \<open>select\<close> and then do not see the context (\<open>sel\<close> says when they do).
  \<^item> \<open>Parties\<close>, \<open>Keyshares\<close>, \<open>Process\<close>: the common code of the protocols, the keyshare files with their
    lock (locale \<open>keyshare_storage\<close>) and the interface \<open>TssProcess\<close> (locale \<open>process_contract\<close>).
  \<^item> \<open>EcdsaKeygen\<close>, \<open>EcdsaSigning\<close>, \<open>EcdsaResharing\<close>, \<open>FrostKeygen\<close> (with frost resharing), \<open>FrostSigning\<close>:
    one theory per protocol; \<open>X_setup\<close> is \<open>Run\<close> up to the pool, \<open>x_task\<close> the tasks, \<open>X_Run\<close> both.
  \<^item> \<open>Coordinator\<close>: \<open>tss/coordinator.go\<close>; \<open>co_phase\<close> is what a session is doing, \<open>session_event\<close>
    and \<open>watchExecution\<close> one turn of its two loops, \<open>Execute\<close> and \<open>handleError\<close> the two attempts,
    \<open>exec_step\<close> the interleaving of executions on the map of pending sessions.
  \<^item> \<open>Session\<close>: all relayers of a session and the network between them, as a step relation with dishonest
    senders.  Its network is the set of initiate, ready and start messages broadcast so far (\<open>sent\<close>, each of
    them what \<open>te_broadcast\<close> gets); a relayer takes a message of the type its channel is subscribed to, any
    number of times and in any order, and may leave at any time, as it does when its attempt ends.  On top of it,
    \<open>Consensus\<close> states the abstract machine that simulates a session (\<open>decision_step\<close>, locale \<open>simulation\<close>
    of the prelude), \<open>Progress\<close> shows that a session can always go on, \<open>Delivery\<close> follows the start message from
    the leader's broadcast through streams and subscriptions to the others, and \<open>Retry\<close> adds further attempts
    and executions (\<open>attempt_step\<close>).
  \<^item> \<open>Bully\<close>: the elector of the second attempt, its two goroutines as events (\<open>bully_step\<close>); the
    locale \<open>leader_choice\<close> is what it and the static elector promise.
  \<^item> \<open>Topology\<close>, \<open>RelayerConfig\<close>, \<open>EnvConfig\<close>, \<open>ChainConfig\<close>, \<open>Startup\<close>: who may take part, the configuration
    and its sources (environment, file, shared URL, flags), and the start of the relayer, which wires them together.
  \<^item> \<open>Handlers\<close>, \<open>PropStore\<close>: what the HTTP interface does with a request, and the proposal store.
  \<^item> \<open>Observability\<close>, \<open>Commands\<close>: set-up of loggers and gauges, the health endpoint, the server command and the
    key generator.

  \<^bold>\<open>What the lemmas show.\<close>  Agreement: relayers that know the same peers elect the same leader, and the
  leader's start message makes every relayer read the same signers (\<open>session_signers_agree\<close> below puts
  this together), and no run of a session, whatever dishonest peers send, lets two honest relayers run
  with different parameters (\<open>session_agreement\<close>); as a refinement of traces, a session decides once and its
  relayers join and leave (\<open>session_decides\<close>).  Over any number of attempts an honest relayer still runs only for threshold + 1
  members of the committee (\<open>attempts_choose_signers\<close>), but the attempts need not agree with each other
  (\<open>retry_may_disagree\<close>).  Success means what it says: \<open>Execute\<close>, key generation, resharing and signing return nil
  only after the protocol ended, and then the keyshare is on the file, or the signature was sent.
  Termination and progress: while enough signers wait for it, the leader can be brought to start by handshakes
  (\<open>signing_completes\<close>), and once it runs, everybody who waits can still join (\<open>session_completes\<close>); \<open>Execute\<close> can always
  return, but not before the processes end (\<open>execute_terminates\<close>, \<open>timeout_needs_runs\<close>); a frost run returns unless
  its outbound task is stuck sending (\<open>frost_run_returns_iff\<close>).
  Delivery: messages keep their content, order and authenticated sender, and the leader's start message reaches the
  channel of every relayer it can send to (\<open>start_reaches_followers\<close>).  State: the subscription maps
  stay well formed, a pending session is being executed, the keyshare lock is held during a keygen.  Round
  trips for messages, frames, keyshares, topology and encryption.  Types: a configuration taken from the environment
  fits the integer types of the program (\<open>env_config_typed\<close>).  The errors: what is retried and with whom,
  what is refused, and where the program panics.  A number of lemmas state behaviour that is hardly intended
  (leaked subscriptions, a truncated keyshare file, a dropped alive message, wrapping ports).

  \<^bold>\<open>Parameters and hypotheses.\<close>  Libraries outside the repository are arguments: the text of JSON
  (\<open>json_text_ok\<close>), libp2p's identities (\<open>codec_ok\<close>), hosts and streams, tss-lib and frost (\<open>tss_lib_ok\<close>,
  \<open>key_codec_ok\<close>, \<open>curve_codec_ok\<close>), the pool library's way to combine errors (\<open>wait_ok\<close>: no error exactly
  when no task had one; the version in \<open>go.mod\<close> keeps a single error as it is), Keccak and AES as functions,
  viper, mergo and the defaults library.  The files are byte sequences with explicit open and write errors
  (\<open>file_io_ok\<close>: a write without an error is complete).  Clocks are arguments, timers are events.  Every
  hypothesis has a concrete instance, used by the \<open>_witness\<close> theorems.

  \<^bold>\<open>Schedules instead of fuel.\<close>  No definition has fuel.  Loops over data are structural or have a measure
  (\<open>duration_loop\<close>: the rest of the string); the endless loops of goroutines are run over a finite schedule of
  events, and a theorem about \<open>Some\<close> result speaks of every schedule that lets the call return.  \<open>sched\<close> of a
  broadcast is any permutation of its sends.  The sessions of several relayers are step relations; their progress
  theorems give the run that completes them, not that a scheduler takes it.

  \<^bold>\<open>Not modelled.\<close>  The lines that are logged; the test programs, test doubles and generated mocks; the insides of
  viper, zap, gin, OpenTelemetry and the HTTP client, which are parameters; data races on fields without a lock; that a
  result sent on a result channel that is already full blocks its sender (a second attempt after a first one that
  had sent its result); to whom a ready message was addressed, once it is in the network of \<open>Session\<close>; the wait of the service for a signal and the shutdown of its metrics.  Integers of JSON are exact; a
  \<open>float64\<close> fraction of a duration is a parameter.
\<close>

text \<open>C3 (session_signers_agree): one signing session from end to end.  When the leader has started it, every
  relayer that takes the leader's start message runs with the leader's own parameters and reads from them
  the same signers: threshold + 1 distinct members of the committee, each of them the leader or a relayer that
  sent a ready message and was not excluded.\<close>

theorem session_signers_agree:
  assumes "json_text_ok (te_print E) (te_parse E)" and "codec_ok (te_pretty E) (te_decode E)"
    and "te_parse E' = te_parse E" and "te_decode E' = te_decode E"
    and "1 \<le> ek_Threshold (sg_key sg)" and "te_hostID E \<in> set (ek_Peers (sg_key sg))"
    and "co_phase (collect E sub (signing_process E sg) ws (initiate E sub (signing_process E sg) ex s)) = Running True params"
    and "MarshalStartMessage (te_print E) params = Inr payload" and "wm_Payload m = payload" and "wm_From m = te_hostID E"
  shows "\<exists>signers. co_phase (fst (wait_start E' (te_hostID E) m s')) = Running False params \<and>
    signing_unmarshallStartParams E params = Inr signers \<and> signing_unmarshallStartParams E' params = Inr signers \<and>
    distinct signers \<and> int (length signers) = ek_Threshold (sg_key sg) + 1 \<and>
    set signers \<subseteq> insert (te_hostID E) (wm_From ` set ws - set ex) \<inter> set (ek_Peers (sg_key sg))"
proof -
  from leader_run [OF assms(5,6)] assms(7)
  obtain ready where r: "params = Signing_StartParams E sg ready" "distinct ready"
    "set ready \<subseteq> insert (te_hostID E) (wm_From ` set ws - set ex)"
    "int (length (readyParticipants (ek_Peers (sg_key sg)) ready)) = ek_Threshold (sg_key sg) + 1" by blast
  then obtain signers where "signing_unmarshallStartParams E params = Inr signers" "distinct signers"
    "int (length signers) = ek_Threshold (sg_key sg) + 1" "set signers \<subseteq> set ready \<inter> set (ek_Peers (sg_key sg))"
    using signing_params_subset [OF assms(1,2) r(2), of sg] assms(5) by auto
  moreover have "signing_unmarshallStartParams E' params = signing_unmarshallStartParams E params"
    by (simp only: signing_unmarshallStartParams_def assms(3,4))
  moreover have "co_phase (fst (wait_start E' (te_hostID E) m s')) = Running False params"
    using start_roundtrip [OF assms(1,8)] assms(3,9,10) by (simp add: wait_start_def)
  ultimately show ?thesis using r(3) by (intro exI [of _ signers]) auto
qed

theorem session_signers_agree_witness:
  "\<exists>params signers. co_phase (collect sample_env sample_sub (signing_process sample_env sample_signing)
     [\<lparr>wm_MessageType = TssReadyMsg, wm_SessionID = ''s'', wm_Payload = '''', wm_From = ''aaaaaaa2''\<rparr>]
     (initiate sample_env sample_sub (signing_process sample_env sample_signing) []
        \<lparr>co_comm = NewCommunication ''aaaaaaa1'', co_phase = Idle, co_deferred = []\<rparr>)) = Running True params \<and>
    signing_unmarshallStartParams sample_env params = Inr signers \<and> length signers = 2 \<and> set signers \<subseteq> {''aaaaaaa1'', ''aaaaaaa2''}"
proof -
  let ?ws = "[\<lparr>wm_MessageType = TssReadyMsg, wm_SessionID = ''s'', wm_Payload = '''', wm_From = ''aaaaaaa2''\<rparr>]"
  let ?s = "\<lparr>co_comm = NewCommunication ''aaaaaaa1'', co_phase = Idle, co_deferred = []\<rparr> :: nat coord_state"
  have h: "1 \<le> ek_Threshold (sg_key sample_signing)" "te_hostID sample_env \<in> set (ek_Peers (sg_key sample_signing))" by simp_all
  obtain params where run: "co_phase (collect sample_env sample_sub (signing_process sample_env sample_signing) ?ws
      (initiate sample_env sample_sub (signing_process sample_env sample_signing) [] ?s)) = Running True params"
    using leader_run [OF h, of sample_sub ?ws "[]" ?s] by auto
  obtain payload where p: "MarshalStartMessage (te_print sample_env) params = Inr payload"
    by (simp add: MarshalStartMessage_def)
  have "json_text_ok (te_print sample_env) (te_parse sample_env)" "codec_ok (te_pretty sample_env) (te_decode sample_env)"
    using json_text_ok_unary codec_ok_id by simp_all
  from session_signers_agree [OF this refl refl h run p, of
      "\<lparr>wm_MessageType = TssStartMsg, wm_SessionID = ''s'', wm_Payload = payload, wm_From = te_hostID sample_env\<rparr>"] run
  show ?thesis by (auto simp del: collect.simps)
qed

end
